theory Spec2Isabelle
  imports Main
begin

section \<open>The grouped SCM view (src/views/scmGroupedView.ts)\<close>

text \<open>
  \<open>GroupableTreeViewTypes\<close> is the union of the nine string tags that
  \<open>ScmGroupedView\<close> registers commands for and that \<open>getView\<close> switches
  over. A value of that type that is \<open>undefined\<close> at run time (the constructor
  passes \<open>views.lastSelectedScmGroupedView!\<close>, and \<open>included[0]\<close> of an empty
  array is \<open>undefined\<close>) is \<open>None\<close>.
\<close>

datatype GroupableTreeViewTypes =
    branches | commits | contributors | remotes | repositories
  | searchAndCompare | stashes | tags | worktrees

datatype ViewClass =
    BranchesView | CommitsView | ContributorsView | RemotesView | RepositoriesView
  | SearchAndCompareView | StashesView | TagsView | WorktreesView

text \<open>
  A view object: the class it was constructed from, the second constructor argument
  (\<open>grouped\<close>, always \<open>true\<close> here) and the identity of the object, a number
  drawn from the allocation counter of the state, so that two views built by two
  \<open>new\<close> expressions are never the same object.
\<close>

record TreeView =
  viewClass :: ViewClass
  grouped :: bool
  objectId :: nat

text \<open>
  Modelled from the spec: the \<open>type\<close> property of the nine view classes. The
  classes are declared in files that are not among the sources; \<open>TreeViewByType\<close>
  ties each tag to the class that \<open>getView\<close> constructs for it, and each class
  carries that tag as its \<open>type\<close>.
\<close>

fun typeOfClass :: "ViewClass \<Rightarrow> GroupableTreeViewTypes" where
  "typeOfClass BranchesView = branches"
| "typeOfClass CommitsView = commits"
| "typeOfClass ContributorsView = contributors"
| "typeOfClass RemotesView = remotes"
| "typeOfClass RepositoriesView = repositories"
| "typeOfClass SearchAndCompareView = searchAndCompare"
| "typeOfClass StashesView = stashes"
| "typeOfClass TagsView = tags"
| "typeOfClass WorktreesView = worktrees"

definition viewType :: "TreeView \<Rightarrow> GroupableTreeViewTypes" where
  "viewType v = typeOfClass (viewClass v)"

text \<open>
  What the class does to the host, in the order it does it: \<open>setContext\<close> of the
  key \<open>gitlens:views:scm:grouped:view\<close>, \<open>dispose()\<close> of a view, a \<open>new\<close> of
  one of the nine classes, \<open>executeCommand\<close> of a refresh command, and disposing
  the command registrations.
\<close>

datatype HostCall =
    SetContext "GroupableTreeViewTypes option"
  | DisposeView TreeView
  | ConstructView TreeView
  | ExecuteRefresh GroupableTreeViewTypes
  | DisposeCommands

text \<open>
  The object's state: the \<open>included\<close> list given to the constructor,
  \<open>views.lastSelectedScmGroupedView\<close>, the private \<open>_view\<close>, the allocation
  counter and the calls made so far.
\<close>

record ScmGroupedView =
  included :: "GroupableTreeViewTypes list"
  lastSelectedScmGroupedView :: "GroupableTreeViewTypes option"
  view :: "TreeView option"
  nextObjectId :: nat
  calls :: "HostCall list"

text \<open>\<open>this.included.includes(type)\<close>: \<open>undefined\<close> is in no list of tags.\<close>

fun includesType :: "GroupableTreeViewTypes list \<Rightarrow> GroupableTreeViewTypes option \<Rightarrow> bool" where
  "includesType xs None = False"
| "includesType xs (Some t) = (t \<in> set xs)"

text \<open>\<open>this.included[0]\<close>: \<open>undefined\<close> when the array is empty.\<close>

fun firstIncluded :: "GroupableTreeViewTypes list \<Rightarrow> GroupableTreeViewTypes option" where
  "firstIncluded [] = None"
| "firstIncluded (x # xs) = Some x"

text \<open>The first two lines of \<open>setView\<close>: the type tag after the fallback.\<close>

definition effectiveType ::
  "GroupableTreeViewTypes list \<Rightarrow> GroupableTreeViewTypes option \<Rightarrow> GroupableTreeViewTypes option" where
  "effectiveType inc t = (if includesType inc t then t else firstIncluded inc)"

text \<open>
  \<open>getView\<close>: the nine-way switch. No case matches \<open>undefined\<close>, so the function
  falls off its end and returns \<open>undefined\<close>.
\<close>

fun classOfType :: "GroupableTreeViewTypes \<Rightarrow> ViewClass" where
  "classOfType branches = BranchesView"
| "classOfType commits = CommitsView"
| "classOfType contributors = ContributorsView"
| "classOfType remotes = RemotesView"
| "classOfType repositories = RepositoriesView"
| "classOfType searchAndCompare = SearchAndCompareView"
| "classOfType stashes = StashesView"
| "classOfType tags = TagsView"
| "classOfType worktrees = WorktreesView"

definition newView :: "ScmGroupedView \<Rightarrow> ViewClass \<Rightarrow> TreeView" where
  "newView s c = \<lparr>viewClass = c, grouped = True, objectId = nextObjectId s\<rparr>"

fun getView ::
  "ScmGroupedView \<Rightarrow> GroupableTreeViewTypes option \<Rightarrow> TreeView option \<times> ScmGroupedView" where
  "getView s None = (None, s)"
| "getView s (Some t) =
     (Some (newView s (classOfType t)),
      s\<lparr>nextObjectId := Suc (nextObjectId s),
        calls := calls s @ [ConstructView (newView s (classOfType t))]\<rparr>)"

text \<open>\<open>this._view?.dispose()\<close>.\<close>

definition disposeHeld :: "ScmGroupedView \<Rightarrow> ScmGroupedView" where
  "disposeHeld s =
     (case view s of
        None \<Rightarrow> s
      | Some v \<Rightarrow> s\<lparr>calls := calls s @ [DisposeView v]\<rparr>)"

text \<open>
  \<open>setView\<close>, statement by statement. \<open>this._view?.type === type\<close> compares
  \<open>undefined\<close> with \<open>type\<close> when no view is held, which holds exactly when
  \<open>type\<close> is \<open>undefined\<close> too.
\<close>

definition setView ::
  "ScmGroupedView \<Rightarrow> GroupableTreeViewTypes option \<Rightarrow> TreeView option \<times> ScmGroupedView" where
  "setView s t =
     (let ty = effectiveType (included s) t;
          s1 = s\<lparr>lastSelectedScmGroupedView := ty\<rparr>
      in if map_option viewType (view s1) = ty then (view s1, s1)
         else
           (let s2 = s1\<lparr>calls := calls s1 @ [SetContext ty]\<rparr>;
                s3 = disposeHeld s2;
                r = getView s3 ty
            in (fst r, (snd r)\<lparr>view := fst r\<rparr>)))"

text \<open>
  The constructor: the command registrations (a command id is mapped to the tag its
  handler passes to \<open>setView\<close>), then \<open>this._view = this.setView(...)\<close> with the
  stored last selection.
\<close>

fun groupedCommand :: "string \<Rightarrow> GroupableTreeViewTypes option" where
  "groupedCommand c =
     (if c = ''gitlens.views.scm.grouped.branches'' then Some branches
      else if c = ''gitlens.views.scm.grouped.commits'' then Some commits
      else if c = ''gitlens.views.scm.grouped.contributors'' then Some contributors
      else if c = ''gitlens.views.scm.grouped.remotes'' then Some remotes
      else if c = ''gitlens.views.scm.grouped.repositories'' then Some repositories
      else if c = ''gitlens.views.scm.grouped.searchAndCompare'' then Some searchAndCompare
      else if c = ''gitlens.views.scm.grouped.stashes'' then Some stashes
      else if c = ''gitlens.views.scm.grouped.tags'' then Some tags
      else if c = ''gitlens.views.scm.grouped.worktrees'' then Some worktrees
      else None)"

definition constructScmGroupedView ::
  "GroupableTreeViewTypes list \<Rightarrow> GroupableTreeViewTypes option \<Rightarrow> nat \<Rightarrow> ScmGroupedView" where
  "constructScmGroupedView inc lastSelected firstId =
     (let s0 = \<lparr>included = inc, lastSelectedScmGroupedView = lastSelected,
                 view = None, nextObjectId = firstId, calls = []\<rparr>;
          r = setView s0 lastSelected
      in (snd r)\<lparr>view := fst r\<rparr>)"

text \<open>The handler of \<open>gitlens.views.scm.grouped.refresh\<close>.\<close>

definition refreshCommand :: "ScmGroupedView \<Rightarrow> ScmGroupedView" where
  "refreshCommand s =
     (case view s of
        None \<Rightarrow> s
      | Some v \<Rightarrow> s\<lparr>calls := calls s @ [ExecuteRefresh (viewType v)]\<rparr>)"

text \<open>The handler of one of the nine view commands.\<close>

definition runGroupedCommand :: "ScmGroupedView \<Rightarrow> string \<Rightarrow> ScmGroupedView" where
  "runGroupedCommand s c =
     (if c = ''gitlens.views.scm.grouped.refresh'' then refreshCommand s
      else case groupedCommand c of
             None \<Rightarrow> s
           | Some t \<Rightarrow> snd (setView s (Some t)))"

text \<open>\<open>dispose()\<close>.\<close>

definition dispose :: "ScmGroupedView \<Rightarrow> ScmGroupedView" where
  "dispose s = disposeHeld (s\<lparr>calls := calls s @ [DisposeCommands]\<rparr>)"

text \<open>
  A grouped view with \<open>included = [commits, branches]\<close> that holds a view of the
  given class, its first object.
\<close>

definition exampleView :: "ViewClass \<Rightarrow> ScmGroupedView" where
  "exampleView c =
     \<lparr>included = [commits, branches], lastSelectedScmGroupedView = Some (typeOfClass c),
      view = Some \<lparr>viewClass = c, grouped = True, objectId = 0\<rparr>,
      nextObjectId = 1, calls = []\<rparr>"

section \<open>The Launchpad command: data\<close>

text \<open>
  The Launchpad quick-pick wizard is the class \<open>LaunchpadCommand\<close>. Its collaborators
  (the \<open>launchpad\<close> provider, \<open>storage\<close>, \<open>telemetry\<close>, \<open>integrations\<close>, the
  quick-pick toolkit) are defined in files that are not among the sources. What the
  command asks of them is an input of the model; what it tells them is recorded, in
  order, in a list of calls.
\<close>

subsection \<open>JavaScript maps and objects\<close>

text \<open>
  A JavaScript \<open>Map\<close> (and the own properties of an object literal) keeps its keys
  in insertion order: \<open>set\<close> of a key that is present replaces the value where it
  stands, \<open>set\<close> of a new key appends. \<open>new Map(entries)\<close> sets the entries one
  after the other.
\<close>

fun mapSet :: "'k \<Rightarrow> 'v \<Rightarrow> ('k \<times> 'v) list \<Rightarrow> ('k \<times> 'v) list" where
  "mapSet k v [] = [(k, v)]"
| "mapSet k v (p # m) = (if fst p = k then (k, v) # m else p # mapSet k v m)"

definition mapGet :: "('k \<times> 'v) list \<Rightarrow> 'k \<Rightarrow> 'v option" where
  "mapGet m k = map_of m k"

definition mapKeys :: "('k \<times> 'v) list \<Rightarrow> 'k list" where
  "mapKeys m = map fst m"

definition newMap :: "('k \<times> 'v) list \<Rightarrow> ('k \<times> 'v) list" where
  "newMap entries = foldl (\<lambda>m e. mapSet (fst e) (snd e) m) [] entries"

text \<open>\<open>m.get(k)\<close> used as a condition: \<open>undefined\<close> and \<open>false\<close> are falsy.\<close>

definition truthy :: "bool option \<Rightarrow> bool" where
  "truthy b = (b = Some True)"

subsection \<open>The length of an array, as \<open>toString\<close> writes it\<close>

function showNat :: "nat \<Rightarrow> string" where
  "showNat n =
     (if n < 10 then [''0123456789'' ! n]
      else showNat (n div 10) @ [''0123456789'' ! (n mod 10)])"
  by pat_completeness auto
termination
  by (relation "measure id") auto

declare showNat.simps [simp del]

subsection \<open>Launchpad items and the provider's result\<close>

type_synonym LaunchpadGroup = string

text \<open>
  The integration ids the command compares with: \<open>HostingIntegrationId.GitHub\<close>,
  \<open>HostingIntegrationId.GitLab\<close>, \<open>SelfHostedIntegrationId.GitHubEnterprise\<close> and
  \<open>SelfHostedIntegrationId.GitLabSelfHosted\<close>; any other id is \<open>OtherIntegration\<close>.
\<close>

datatype IntegrationId =
  GitHub | GitLab | GitHubEnterprise | GitLabSelfHosted | OtherIntegration string

text \<open>
  The fields of a \<open>LaunchpadItem\<close> that the command branches on. \<open>itemId\<close> is
  \<open>id\<close>, \<open>viewerPinned\<close> and \<open>viewerSnoozed\<close> are \<open>viewer.pinned\<close> and
  \<open>viewer.snoozed\<close>, \<open>providerId\<close> is \<open>provider.id\<close>, \<open>localBranchCurrent\<close>
  is the truth value of \<open>openRepository?.localBranch?.current\<close>, and \<open>itemGroup\<close> is
  the \<open>group\<close> property that a \<open>GroupedLaunchpadItem\<close> adds (\<open>None\<close> on an item
  that has none). On ASCII text, \<open>length\<close> and \<open>take\<close> are the source's
  \<open>length\<close> and \<open>substring\<close>. The fields that only feed the description and
  detail texts of a row are left out.
\<close>

record LaunchpadItem =
  itemId :: string
  graphQLId :: "string option"
  title :: string
  actionableCategory :: string
  isSearched :: bool
  viewerPinned :: bool
  viewerSnoozed :: bool
  providerId :: IntegrationId
  localBranchCurrent :: bool
  itemGroup :: "LaunchpadGroup option"

text \<open>
  An \<open>Error\<close> held by a result: its \<open>name\<close>, its \<open>status\<close> property (absent, a
  number, or a value of another type) and the string \<open>String(error)\<close>. The command
  does one thing with a numeric status: it writes it into a template literal. So a
  number is held as the text that a template literal gives for it, whatever the number
  is: \<open>503\<close> for 503, \<open>503.5\<close>, \<open>1e+21\<close> for the 22-digit integer, \<open>NaN\<close>,
  \<open>Infinity\<close>.
\<close>

datatype StatusProperty = StatusAbsent | StatusNumber string | StatusOfOtherType

record JsError =
  errorName :: string
  errorStatus :: StatusProperty
  stringified :: string

record Timings =
  prs :: "int option"
  codeSuggestionCounts :: "int option"
  enrichedItems :: "int option"

text \<open>
  \<open>LaunchpadCategorizedResult\<close>, as the command reads it: either \<open>items\<close> (with
  optional \<open>timings\<close>) and no \<open>error\<close>, or an \<open>error\<close> and no \<open>items\<close>. The
  context starts with \<open>{ items: [] }\<close>.
\<close>

datatype LaunchpadCategorizedResult =
    Items "LaunchpadItem list" "Timings option"
  | Failed JsError

fun resultError :: "LaunchpadCategorizedResult \<Rightarrow> JsError option" where
  "resultError (Items xs t) = None"
| "resultError (Failed e) = Some e"

fun resultItems :: "LaunchpadCategorizedResult \<Rightarrow> LaunchpadItem list option" where
  "resultItems (Items xs t) = Some xs"
| "resultItems (Failed e) = None"

subsection \<open>Quick-pick items\<close>

datatype QuickInputButton =
    ConnectIntegrationButton | FeedbackQuickInputButton | LaunchpadSettingsQuickInputButton
  | LearnAboutProQuickInputButton | MergeQuickInputButton | OpenOnGitHubQuickInputButton
  | OpenOnGitLabQuickInputButton | OpenOnWebQuickInputButton
  | OpenWorktreeInNewWindowQuickInputButton | PinQuickInputButton | RefreshQuickInputButton
  | SnoozeQuickInputButton | UnpinQuickInputButton | UnsnoozeQuickInputButton

text \<open>The members of \<open>Directive\<close> that the command uses.\<close>

datatype Directive = Cancel | Noop | Reload

text \<open>
  A label is a literal string, or the heading of a group: a chevron (down when the
  group is collapsed, up otherwise), then the icon and the upper-cased label that
  \<open>launchpadGroupIconMap\<close> and \<open>launchpadGroupLabelMap\<close> (not among the sources)
  give for the group.
\<close>

datatype ItemLabel = Literal string | GroupHeading bool LaunchpadGroup

text \<open>
  The \<open>onDidSelect\<close> closures that the command attaches to directive items: the
  toggle of a group heading, and the opening of the walkthrough.
\<close>

datatype SelectHandler = ToggleGroup LaunchpadGroup | OpenWalkthrough

record DirectiveQuickPickItem =
  directive :: Directive
  directivePicked :: "bool option"
  directiveLabel :: "ItemLabel option"
  directiveDetail :: "string option"
  directiveIcon :: "string option"
  onDidSelect :: "SelectHandler option"

record DirectiveOptions =
  optLabel :: "ItemLabel option"
  optDetail :: "string option"
  optIcon :: "string option"
  optOnDidSelect :: "SelectHandler option"

definition noOptions :: DirectiveOptions where
  "noOptions = \<lparr>optLabel = None, optDetail = None, optIcon = None, optOnDidSelect = None\<rparr>"

text \<open>
  Modelled from the spec: \<open>createDirectiveQuickPickItem(directive, picked, options)\<close>
  of \<open>quickpicks/items/directive\<close>, which is not among the sources. The item it
  returns carries the directive, the \<open>picked\<close> flag and the options it was given; it
  has no \<open>item\<close> property.
\<close>

definition createDirectiveQuickPickItem ::
  "Directive \<Rightarrow> bool option \<Rightarrow> DirectiveOptions \<Rightarrow> DirectiveQuickPickItem" where
  "createDirectiveQuickPickItem d p opts =
     \<lparr>directive = d, directivePicked = p, directiveLabel = optLabel opts,
      directiveDetail = optDetail opts, directiveIcon = optIcon opts,
      onDidSelect = optOnDidSelect opts\<rparr>"

record LaunchpadItemQuickPickItem =
  label :: string
  alwaysShow :: "bool option"
  buttons :: "QuickInputButton list"
  qpItem :: LaunchpadItem
  picked :: bool
  qpGroup :: LaunchpadGroup

text \<open>
  What a quick pick lists: a directive item, a separator (\<open>createQuickPickSeparator\<close>,
  with its optional label), the row of a Launchpad item, or the one object
  \<open>connectMoreIntegrationsItem\<close>, whose \<open>item\<close> and \<open>group\<close> are \<open>undefined\<close>.
\<close>

datatype QuickPickEntry =
    DirectiveEntry DirectiveQuickPickItem
  | SeparatorEntry "string option"
  | LaunchpadEntry LaunchpadItemQuickPickItem
  | ConnectMoreIntegrationsEntry

fun isConnectMoreIntegrationsItem :: "QuickPickEntry \<Rightarrow> bool" where
  "isConnectMoreIntegrationsItem ConnectMoreIntegrationsEntry = True"
| "isConnectMoreIntegrationsItem e = False"

text \<open>
  Modelled from the spec: \<open>isDirectiveQuickPickItem\<close> of \<open>quickpicks/items/directive\<close>
  (not among the sources): the items that carry a directive.
\<close>

fun isDirectiveQuickPickItem :: "QuickPickEntry \<Rightarrow> bool" where
  "isDirectiveQuickPickItem (DirectiveEntry d) = True"
| "isDirectiveQuickPickItem e = False"

text \<open>\<open>'item' in i\<close>.\<close>

fun hasItemProperty :: "QuickPickEntry \<Rightarrow> bool" where
  "hasItemProperty (LaunchpadEntry q) = True"
| "hasItemProperty ConnectMoreIntegrationsEntry = True"
| "hasItemProperty e = False"

text \<open>\<open>'item' in i && i.item?.id\<close>: the id, when there is an item.\<close>

fun entryItemId :: "QuickPickEntry \<Rightarrow> string option" where
  "entryItemId (LaunchpadEntry q) = Some (itemId (qpItem q))"
| "entryItemId e = None"

record QuickPick =
  qpItems :: "QuickPickEntry list"
  placeholder :: "string option"
  busy :: bool
  qpValue :: string

subsection \<open>State, context and the container\<close>

text \<open>
  A \<open>LaunchpadAction\<close> is a string; a \<open>LaunchpadTargetAction\<close> is an object with an
  \<open>action\<close> and a \<open>target\<close>.
\<close>

datatype SelectedAction = StringAction string | TargetAction string string

record State =
  item :: "LaunchpadItem option"
  action :: "SelectedAction option"
  initialGroup :: "LaunchpadGroup option"
  selectTopItem :: "bool option"
  counter :: int
  confirm :: "bool option"

datatype TelemetryValue = TString string | TNumber int | TBool bool | TUndefined

type_synonym TelemetryData = "(string \<times> TelemetryValue) list"

record Context =
  result :: LaunchpadCategorizedResult
  wizardTitle :: string
  collapsed :: "(LaunchpadGroup \<times> bool) list"
  telemetryContext :: "TelemetryData option"
  connectedIntegrations :: "(IntegrationId \<times> bool) list"

datatype StoredValue = StoredGroups "LaunchpadGroup list" | StoredString string

text \<open>
  The options object of \<open>launchpad.switchTo\<close>: \<open>{ skipWorktreeConfirmations: true }\<close>
  or \<open>{ startCodeSuggestion: true }\<close>; \<open>None\<close> when the call passes no options.
\<close>

datatype SwitchToOptions = SkipWorktreeConfirmations | StartCodeSuggestion

record GetItemsOptions =
  force :: bool
  search :: "string option"

text \<open>
  The calls the command makes on its collaborators. A telemetry event carries its
  name, its data and the \<open>source\<close>; the \<open>item.*\<close> fields of an item event are
  functions of the item and its group, which the event keeps instead.
\<close>

datatype Call =
    StorageStore string StoredValue
  | TelemetrySendEvent string TelemetryData "(LaunchpadItem \<times> LaunchpadGroup option) option" string
  | LaunchpadMerge LaunchpadItem
  | LaunchpadOpen LaunchpadItem
  | LaunchpadSwitchTo LaunchpadItem "SwitchToOptions option"
  | LaunchpadOpenChanges LaunchpadItem
  | LaunchpadOpenInGraph LaunchpadItem
  | LaunchpadOpenCodeSuggestion LaunchpadItem string
  | LaunchpadOpenCodeSuggestionInBrowser string
  | LaunchpadPin LaunchpadItem
  | LaunchpadUnpin LaunchpadItem
  | LaunchpadSnooze LaunchpadItem
  | LaunchpadUnsnooze LaunchpadItem
  | LaunchpadEnsureCodeSuggestions LaunchpadItem
  | LaunchpadGetCategorizedItems GetItemsOptions
  | LaunchpadGetConnectedIntegrations
  | LaunchpadGenerateWebUrl
  | IntegrationConnect IntegrationId
  | ConnectCloudIntegrations "IntegrationId list"
  | OpenUrl string
  | ExecuteCommand string "string list"
  | DebouncerCancel

record Container =
  storage :: "string \<Rightarrow> StoredValue option"
  telemetryEnabled :: bool
  madeCalls :: "Call list"

definition call :: "Call \<Rightarrow> Container \<Rightarrow> Container" where
  "call c k = k\<lparr>madeCalls := madeCalls k @ [c]\<rparr>"

text \<open>\<open>container.storage.store(key, value)\<close>.\<close>

definition storageStore :: "string \<Rightarrow> StoredValue \<Rightarrow> Container \<Rightarrow> Container" where
  "storageStore key v k =
     call (StorageStore key v) (k\<lparr>storage := (storage k)(key \<mapsto> v)\<rparr>)"

text \<open>
  \<open>container.telemetry.sendEvent(name, data, source)\<close>. Every call site is guarded by
  \<open>container.telemetry.enabled\<close>; the guard is written at the call site.
\<close>

definition sendEvent ::
  "string \<Rightarrow> TelemetryData \<Rightarrow> (LaunchpadItem \<times> LaunchpadGroup option) option \<Rightarrow> string
     \<Rightarrow> Container \<Rightarrow> Container" where
  "sendEvent name d about src k = call (TelemetrySendEvent name d about src) k"

text \<open>\<open>{ ...context.telemetryContext!, k: v, ... }\<close>: the spread of \<open>undefined\<close> is empty.\<close>

definition spread :: "TelemetryData option \<Rightarrow> TelemetryData \<Rightarrow> TelemetryData" where
  "spread base added =
     foldl (\<lambda>m e. mapSet (fst e) (snd e) m) (case base of None \<Rightarrow> [] | Some b \<Rightarrow> b) added"

text \<open>
  The functions and constants of \<open>launchpadProvider\<close> and \<open>git/models/pullRequest\<close>
  that the command imports, and the constant \<open>urls.proFeatures\<close>. They are not among
  the sources, so they are parameters.
\<close>

record PullRequestUrlIdentity =
  prNumber :: "string option"
  ownerAndRepo :: "string option"

record Provider =
  launchpadGroups :: "LaunchpadGroup list"
  supportedLaunchpadIntegrations :: "IntegrationId list"
  groupAndSortLaunchpadItems :: "LaunchpadItem list \<Rightarrow> (LaunchpadGroup \<times> LaunchpadItem list) list"
  countLaunchpadItemGroups :: "LaunchpadItem list \<Rightarrow> (LaunchpadGroup \<times> nat) list"
  getPullRequestIdentityValuesFromSearch :: "string \<Rightarrow> PullRequestUrlIdentity"
  doesPullRequestSatisfyRepositoryURLIdentity ::
    "LaunchpadItem option \<Rightarrow> PullRequestUrlIdentity \<Rightarrow> bool"
  proFeaturesUrl :: string

section \<open>The Launchpad command: the item-pick step\<close>

text \<open>
  The state of one wizard invocation: the container (storage, telemetry switch and
  the calls made), \<open>this.source.source\<close>, \<open>this.telemetryContext\<close>, the \<open>state\<close>
  and the \<open>context\<close> of \<open>steps\<close>, its local \<open>opened\<close>, and what the closures of
  \<open>pickLaunchpadItemStep\<close> hold: the parameters \<open>picked\<close> and \<open>selectTopItem\<close>,
  the \<open>items\<close> built when the step was created, and the quick pick; and the \<open>busy\<close>
  flag of the quick pick of \<open>confirmStep\<close>.
\<close>

record Wizard =
  container :: Container
  commandSource :: string
  commandTelemetryContext :: "TelemetryData option"
  wizardState :: State
  wizardContext :: Context
  opened :: bool
  stepPicked :: "string option"
  stepSelectTopItem :: "bool option"
  stepItems :: "QuickPickEntry list"
  quickpick :: QuickPick
  confirmBusy :: bool

subsection \<open>Rows\<close>

fun getOpenOnGitProviderQuickInputButton :: "IntegrationId \<Rightarrow> QuickInputButton option" where
  "getOpenOnGitProviderQuickInputButton GitLab = Some OpenOnGitLabQuickInputButton"
| "getOpenOnGitProviderQuickInputButton GitLabSelfHosted = Some OpenOnGitLabQuickInputButton"
| "getOpenOnGitProviderQuickInputButton GitHub = Some OpenOnGitHubQuickInputButton"
| "getOpenOnGitProviderQuickInputButton GitHubEnterprise = Some OpenOnGitHubQuickInputButton"
| "getOpenOnGitProviderQuickInputButton (OtherIntegration s) = None"

definition getOpenOnGitProviderQuickInputButtons :: "IntegrationId \<Rightarrow> QuickInputButton list" where
  "getOpenOnGitProviderQuickInputButtons i =
     (case getOpenOnGitProviderQuickInputButton i of None \<Rightarrow> [] | Some b \<Rightarrow> [b])"

text \<open>
  \<open>buildGroupHeading(ui, groupLength)\<close>: a separator labelled with the length (no
  label when it is 0) and a \<open>Reload\<close> directive item whose \<open>onDidSelect\<close> toggles the
  group.
\<close>

definition buildGroupHeading :: "Context \<Rightarrow> LaunchpadGroup \<Rightarrow> nat \<Rightarrow> QuickPickEntry list" where
  "buildGroupHeading c ui groupLength =
     [SeparatorEntry (if groupLength \<noteq> 0 then Some (showNat groupLength) else None),
      DirectiveEntry
        (createDirectiveQuickPickItem Reload (Some False)
           (noOptions\<lparr>optLabel := Some (GroupHeading (truthy (mapGet (collapsed c) ui)) ui),
                      optOnDidSelect := Some (ToggleGroup ui)\<rparr>))]"

definition buildLaunchpadQuickPickItem ::
  "string option \<Rightarrow> LaunchpadItem \<Rightarrow> LaunchpadGroup \<Rightarrow> LaunchpadItem option \<Rightarrow> bool option
     \<Rightarrow> LaunchpadItemQuickPickItem" where
  "buildLaunchpadQuickPickItem pk i ui topItem always =
     \<lparr>label = (if length (title i) > 60 then take 60 (title i) @ ''...'' else title i),
      alwaysShow = always,
      buttons =
        (if actionableCategory i = ''mergeable'' then [MergeQuickInputButton] else [])
        @ (if \<not> isSearched i
           then [if viewerPinned i then UnpinQuickInputButton else PinQuickInputButton,
                 if viewerSnoozed i then UnsnoozeQuickInputButton else SnoozeQuickInputButton]
           else [])
        @ getOpenOnGitProviderQuickInputButtons (providerId i)
        @ (if \<not> localBranchCurrent i then [OpenWorktreeInNewWindowQuickInputButton] else []),
      qpItem = i,
      picked = (graphQLId i = pk \<or> graphQLId i = (case topItem of None \<Rightarrow> None | Some t \<Rightarrow> graphQLId t)),
      qpGroup = ui\<rparr>"

text \<open>\<open>uiGroups.get(g)?.[0]\<close>.\<close>

definition firstOfGroup ::
  "(LaunchpadGroup \<times> LaunchpadItem list) list \<Rightarrow> LaunchpadGroup \<Rightarrow> LaunchpadItem option" where
  "firstOfGroup uiGroups g =
     (case mapGet uiGroups g of
        None \<Rightarrow> None
      | Some [] \<Rightarrow> None
      | Some (x # xs) \<Rightarrow> Some x)"

text \<open>\<open>a || b\<close> on items: an item is an object, hence truthy.\<close>

definition orElse :: "'a option \<Rightarrow> 'a option \<Rightarrow> 'a option" where
  "orElse a b = (case a of None \<Rightarrow> b | Some x \<Rightarrow> Some x)"

text \<open>The body of the loop of \<open>getItems\<close>, for one group.\<close>

definition groupRows ::
  "Context \<Rightarrow> string option \<Rightarrow> LaunchpadItem option \<Rightarrow> bool option
     \<Rightarrow> LaunchpadGroup \<times> LaunchpadItem list \<Rightarrow> QuickPickEntry list" where
  "groupRows c pk topItem isSearching g =
     (let ui = fst g; groupItems = snd g;
          rows = map (\<lambda>i. LaunchpadEntry (buildLaunchpadQuickPickItem pk i ui topItem isSearching))
                     groupItems
      in if groupItems = [] then []
         else if \<not> truthy isSearching
         then buildGroupHeading c ui (length groupItems)
              @ (if truthy (mapGet (collapsed c) ui) then [] else rows)
         else rows)"

definition getItems ::
  "Provider \<Rightarrow> Context \<Rightarrow> string option \<Rightarrow> bool option \<Rightarrow> LaunchpadCategorizedResult
     \<Rightarrow> bool option \<Rightarrow> QuickPickEntry list" where
  "getItems P c pk sel res isSearching =
     (case resultItems res of
        None \<Rightarrow> []
      | Some xs \<Rightarrow>
          if xs = [] then []
          else
            (let uiGroups = groupAndSortLaunchpadItems P xs;
                 topItem =
                   (if \<not> truthy sel \<or> pk \<noteq> None then None
                    else orElse (firstOfGroup uiGroups ''mergeable'')
                          (orElse (firstOfGroup uiGroups ''blocked'')
                            (orElse (firstOfGroup uiGroups ''follow-up'')
                                    (firstOfGroup uiGroups ''needs-review''))))
             in concat (map (groupRows c pk topItem isSearching) uiGroups)))"

subsection \<open>Items and placeholder\<close>

definition okItem :: QuickPickEntry where
  "okItem =
     DirectiveEntry
       (createDirectiveQuickPickItem Cancel None (noOptions\<lparr>optLabel := Some (Literal ''OK'')\<rparr>))"

text \<open>The text between the parentheses of the error placeholder.\<close>

definition errorText :: "JsError \<Rightarrow> string" where
  "errorText e =
     (if errorName e = ''HttpError''
      then (case errorStatus e of
              StatusNumber written \<Rightarrow> written @ '': '' @ stringified e
            | StatusAbsent \<Rightarrow> stringified e
            | StatusOfOtherType \<Rightarrow> stringified e)
      else stringified e)"

text \<open>
  \<open>getItemsAndPlaceholder(isSearching)\<close>: the placeholder and the items. With an
  \<open>Items\<close> result, \<open>context.result.items.length\<close> is the length of the list.
\<close>

definition getItemsAndPlaceholder ::
  "Provider \<Rightarrow> Context \<Rightarrow> string option \<Rightarrow> bool option \<Rightarrow> bool option
     \<Rightarrow> string \<times> QuickPickEntry list" where
  "getItemsAndPlaceholder P c pk sel isSearching =
     (case result c of
        Failed e \<Rightarrow> (''Unable to load items ('' @ errorText e @ '')'', [okItem])
      | Items xs t \<Rightarrow>
          if xs = [] then (''All done! Take a vacation'', [okItem])
          else (''Choose an item, type a term to search, or paste in a PR URL'',
                getItems P c pk sel (result c) isSearching))"

text \<open>
  \<open>combineQuickpickItemsWithSearchResults(arr, items)\<close>: \<open>ids\<close> holds the ids of the
  elements of \<open>arr\<close> that have an item (the empty string included: it is a string);
  an element of \<open>items\<close> is appended when it has an item whose id is a non-empty
  string that is not in \<open>ids\<close>. \<open>ids\<close> is not extended while appending.
\<close>

definition combineQuickpickItemsWithSearchResults ::
  "QuickPickEntry list \<Rightarrow> QuickPickEntry list \<Rightarrow> QuickPickEntry list" where
  "combineQuickpickItemsWithSearchResults arr xs =
     (let ids = List.map_filter entryItemId arr
      in arr @ filter (\<lambda>x. case entryItemId x of
                               None \<Rightarrow> False
                             | Some i \<Rightarrow> i \<noteq> [] \<and> i \<notin> set ids) xs)"

subsection \<open>Refreshing the context\<close>

text \<open>The loop of \<open>updateTelemetryContext\<close> over the counted groups.\<close>

definition groupCounts ::
  "(LaunchpadGroup \<times> bool) list \<Rightarrow> TelemetryData \<Rightarrow> (LaunchpadGroup \<times> nat) list \<Rightarrow> TelemetryData" where
  "groupCounts coll d counted =
     foldl (\<lambda>m g.
        mapSet (''groups.'' @ fst g @ ''.collapsed'')
          (case mapGet coll (fst g) of None \<Rightarrow> TUndefined | Some b \<Rightarrow> TBool b)
          (mapSet (''groups.'' @ fst g @ ''.count'') (TNumber (int (snd g))) m))
       d counted"

fun timingValue :: "Timings option \<Rightarrow> (Timings \<Rightarrow> int option) \<Rightarrow> TelemetryValue" where
  "timingValue None f = TUndefined"
| "timingValue (Some t) f = (case f t of None \<Rightarrow> TUndefined | Some n \<Rightarrow> TNumber n)"

definition updateTelemetryContext :: "Provider \<Rightarrow> Context \<Rightarrow> Context" where
  "updateTelemetryContext P c =
     (case telemetryContext c of
        None \<Rightarrow> c
      | Some tc \<Rightarrow>
          (case result c of
             Failed e \<Rightarrow>
               c\<lparr>telemetryContext := Some (spread (Some tc) [(''items.error'', TString (stringified e))])\<rparr>
           | Items xs t \<Rightarrow>
               (let counted = countLaunchpadItemGroups P xs;
                    updated = spread (Some tc)
                      [(''items.count'', TNumber (int (length xs))),
                       (''items.timings.prs'', timingValue t prs),
                       (''items.timings.codeSuggestionCounts'', timingValue t codeSuggestionCounts),
                       (''items.timings.enrichedItems'', timingValue t enrichedItems),
                       (''groups.count'', TNumber (int (length counted)))]
                in c\<lparr>telemetryContext := Some (groupCounts (collapsed c) updated counted)\<rparr>)))"

text \<open>
  \<open>updateContextItems(container, context, options, cancellation)\<close>. \<open>fetched\<close> is
  what \<open>getCategorizedItems\<close> resolves to and \<open>conn\<close> what
  \<open>getConnectedIntegrations\<close> resolves to.
\<close>

definition updateContextItems ::
  "Provider \<Rightarrow> GetItemsOptions \<Rightarrow> LaunchpadCategorizedResult \<Rightarrow> (IntegrationId \<times> bool) list
     \<Rightarrow> Wizard \<Rightarrow> Wizard" where
  "updateContextItems P opts fetched conn w =
     (let k1 = call (LaunchpadGetCategorizedItems opts) (container w);
          c1 = (wizardContext w)\<lparr>result := fetched\<rparr>;
          c2 = (if telemetryEnabled k1 then updateTelemetryContext P c1 else c1);
          k2 = call LaunchpadGetConnectedIntegrations k1
      in w\<lparr>container := k2, wizardContext := c2\<lparr>connectedIntegrations := conn\<rparr>\<rparr>)"

subsection \<open>The debounced refresh\<close>

text \<open>
  Modelled from the spec: \<open>createAsyncDebouncer(delay)\<close> of
  \<open>system/vscode/asyncDebouncer\<close>, which is not among the sources. The spec has it as
  a standard debounce with a fixed interval that cancels superseded requests through
  a cancellation token. So: a call arms a timer of \<open>delay\<close> milliseconds for its
  callback, in place of the timer that an earlier call armed, and requests the
  cancellation of the token of a callback that has started; when the timer fires, the
  callback starts with a new token; \<open>cancel()\<close> clears the timer and requests the
  cancellation likewise. Times are in milliseconds. Tokens are numbered in the order
  they are handed out, and only the last one can be live. The spec does not say when
  the promise of a call settles whose timer is replaced or cleared: it is taken to
  settle then, the callback never run (\<open>dropsCall\<close>).
\<close>

record 'a AsyncDebouncer =
  delayMs :: nat
  armed :: "(nat \<times> 'a) option"
  issued :: nat
  liveToken :: "nat option"

text \<open>
  Modelled from the spec: \<open>createAsyncDebouncer(delay)\<close>, the debouncer as it is
  created: no timer armed, no token handed out.
\<close>

definition createAsyncDebouncer :: "nat \<Rightarrow> 'a AsyncDebouncer" where
  "createAsyncDebouncer d = \<lparr>delayMs = d, armed = None, issued = 0, liveToken = None\<rparr>"

text \<open>
  Modelled from the spec: the debouncer of \<open>createAsyncDebouncer\<close> called at the time
  \<open>now\<close> with a callback.
\<close>

definition debounce :: "nat \<Rightarrow> 'a \<Rightarrow> 'a AsyncDebouncer \<Rightarrow> 'a AsyncDebouncer" where
  "debounce now callback d = d\<lparr>armed := Some (now + delayMs d, callback), liveToken := None\<rparr>"

text \<open>Modelled from the spec: the \<open>cancel()\<close> of the debouncer of \<open>createAsyncDebouncer\<close>.\<close>

definition cancelDebouncer :: "'a AsyncDebouncer \<Rightarrow> 'a AsyncDebouncer" where
  "cancelDebouncer d = d\<lparr>armed := None, liveToken := None\<rparr>"

text \<open>
  Modelled from the spec: whether a call or a \<open>cancel()\<close> of the debouncer of
  \<open>createAsyncDebouncer\<close> drops a call, whose timer it replaces or clears.
\<close>

definition dropsCall :: "'a AsyncDebouncer \<Rightarrow> bool" where
  "dropsCall d = (armed d \<noteq> None)"

text \<open>
  Modelled from the spec: the timer of the debouncer of \<open>createAsyncDebouncer\<close> at the
  time \<open>now\<close>. When it is due, the callback it was armed for starts, with the token
  it is given.
\<close>

definition fireTimer :: "nat \<Rightarrow> 'a AsyncDebouncer \<Rightarrow> ('a \<times> nat) option \<times> 'a AsyncDebouncer" where
  "fireTimer now d =
     (case armed d of
        None \<Rightarrow> (None, d)
      | Some (due, callback) \<Rightarrow>
          if due \<le> now
          then (Some (callback, issued d),
                d\<lparr>armed := None, issued := Suc (issued d), liveToken := Some (issued d)\<rparr>)
          else (None, d))"

text \<open>
  Modelled from the spec: \<open>cancellationToken.isCancellationRequested\<close>, for the token
  numbered \<open>t\<close> of the debouncer of \<open>createAsyncDebouncer\<close>.
\<close>

definition isCancellationRequested :: "'a AsyncDebouncer \<Rightarrow> nat \<Rightarrow> bool" where
  "isCancellationRequested d t = (liveToken d \<noteq> Some t)"

text \<open>
  The callback that one call of \<open>updateItems\<close> hands to the debouncer: the \<open>search\<close>
  that the call captured, what the two awaited provider calls of the callback resolve
  to, and the milliseconds they take. Two more fields serve the statements: the time
  of the call, and its number among the operations (calls and \<open>cancel()\<close>) on the
  debouncer.
\<close>

record Refresh =
  refreshSearch :: string
  refreshFetched :: LaunchpadCategorizedResult
  refreshConnected :: "(IntegrationId \<times> bool) list"
  refreshTakes :: nat
  requestedAt :: nat
  operationNumber :: nat

text \<open>\<open>private readonly updateItemsDebouncer = createAsyncDebouncer(500)\<close>.\<close>

definition updateItemsDebouncer :: "Refresh AsyncDebouncer" where
  "updateItemsDebouncer = createAsyncDebouncer 500"

text \<open>
  What one \<open>await this.updateItemsDebouncer(callback)\<close> comes to: the callback is
  never run (the request was superseded or cancelled before the delay had passed), or
  it runs with what its two awaited provider calls resolve to and with the value of
  \<open>cancellationToken.isCancellationRequested\<close> once they have.
\<close>

datatype DebouncedRun =
    NotRun
  | Ran LaunchpadCategorizedResult "(IntegrationId \<times> bool) list" bool

text \<open>\<open>updateItems(quickpick)\<close>; the \<open>finally\<close> clears \<open>busy\<close> on every path.\<close>

definition updateItems :: "Provider \<Rightarrow> DebouncedRun \<Rightarrow> Wizard \<Rightarrow> Wizard" where
  "updateItems P run w =
     (let srch = qpValue (quickpick w);
          w1 = w\<lparr>quickpick := (quickpick w)\<lparr>busy := True\<rparr>\<rparr>;
          w2 =
            (case run of
               NotRun \<Rightarrow> w1
             | Ran fetched conn cancelled \<Rightarrow>
                 (let w3 = updateContextItems P \<lparr>force = True, search = Some srch\<rparr> fetched conn w1
                  in if cancelled then w3
                     else
                       (let ip = getItemsAndPlaceholder P (wizardContext w3) (stepPicked w3)
                                   (stepSelectTopItem w3) (Some (srch \<noteq> []))
                        in w3\<lparr>quickpick := (quickpick w3)
                             \<lparr>placeholder := Some (fst ip),
                              qpItems := (if srch \<noteq> []
                                          then combineQuickpickItemsWithSearchResults
                                                 (qpItems (quickpick w3)) (snd ip)
                                          else snd ip)\<rparr>\<rparr>)))
      in w2\<lparr>quickpick := (quickpick w2)\<lparr>busy := False\<rparr>\<rparr>)"

text \<open>
  The callback of \<open>updateItems\<close> by itself, for the \<open>search\<close> that the call
  captured, and the \<open>finally\<close> of \<open>updateItems\<close>: the parts of \<open>updateItems\<close>
  that run after its call of the debouncer.
\<close>

definition refreshCallback ::
  "Provider \<Rightarrow> string \<Rightarrow> LaunchpadCategorizedResult \<Rightarrow> (IntegrationId \<times> bool) list \<Rightarrow> bool
     \<Rightarrow> Wizard \<Rightarrow> Wizard" where
  "refreshCallback P srch fetched conn cancelled w =
     (let w3 = updateContextItems P \<lparr>force = True, search = Some srch\<rparr> fetched conn w
      in if cancelled then w3
         else
           (let ip = getItemsAndPlaceholder P (wizardContext w3) (stepPicked w3)
                       (stepSelectTopItem w3) (Some (srch \<noteq> []))
            in w3\<lparr>quickpick := (quickpick w3)
                 \<lparr>placeholder := Some (fst ip),
                  qpItems := (if srch \<noteq> []
                              then combineQuickpickItemsWithSearchResults
                                     (qpItems (quickpick w3)) (snd ip)
                              else snd ip)\<rparr>\<rparr>))"

definition finallyNotBusy :: "Wizard \<Rightarrow> Wizard" where
  "finallyNotBusy w = w\<lparr>quickpick := (quickpick w)\<lparr>busy := False\<rparr>\<rparr>"

text \<open>
  The creation of the pick step: \<open>getItemsAndPlaceholder()\<close> with no argument gives
  the items and the placeholder that the quick pick opens with.
\<close>

definition createLaunchpadPickStep ::
  "Provider \<Rightarrow> string option \<Rightarrow> bool option \<Rightarrow> Wizard \<Rightarrow> Wizard" where
  "createLaunchpadPickStep P pk sel w =
     (let ip = getItemsAndPlaceholder P (wizardContext w) pk sel None
      in w\<lparr>stepPicked := pk, stepSelectTopItem := sel, stepItems := snd ip,
           quickpick := \<lparr>qpItems = snd ip, placeholder = Some (fst ip), busy = False,
                         qpValue = []\<rparr>\<rparr>)"

section \<open>The Launchpad command: construction, first lines of the steps, dispatch\<close>

text \<open>
  How a run of the command ends, as far as the model follows it: the wizard is still
  running, or an exception left \<open>steps\<close> or a handler. An exception ends the wizard,
  of which only the container (the collaborators' side) remains.
\<close>

datatype Outcome = Running Wizard | Thrown string Container

fun containerOf :: "Outcome \<Rightarrow> Container" where
  "containerOf (Running w) = container w"
| "containerOf (Thrown m k) = k"

subsection \<open>The constructor\<close>

record PartialState =
  argItem :: "LaunchpadItem option"
  argAction :: "SelectedAction option"
  argInitialGroup :: "LaunchpadGroup option"
  argSelectTopItem :: "bool option"

record LaunchpadCommandArgs =
  argConfirm :: "bool option"
  argSource :: "string option"
  argState :: "PartialState option"

record LaunchpadCommand =
  cmdContainer :: Container
  cmdSource :: string
  cmdTelemetryContext :: "TelemetryData option"
  initialState :: State

text \<open>
  \<open>new LaunchpadCommand(container, args)\<close>. \<open>now\<close> is \<open>new Date().toISOString()\<close>
  and \<open>inst\<close> is \<open>instanceCounter.next()\<close>.
\<close>

definition newLaunchpadCommand ::
  "Container \<Rightarrow> LaunchpadCommandArgs option \<Rightarrow> string \<Rightarrow> nat \<Rightarrow> LaunchpadCommand" where
  "newLaunchpadCommand k args now inst =
     (let src0 = Option.bind args argSource;
          st = Option.bind args argState;
          k1 = (if src0 = Some ''launchpad-indicator''
                   \<and> storage k ''launchpad:indicator:hasInteracted'' = None
                then storageStore ''launchpad:indicator:hasInteracted'' (StoredString now) k
                else k);
          src = (case src0 of None \<Rightarrow> ''commandPalette'' | Some s \<Rightarrow> s);
          tc = (if telemetryEnabled k1
                then Some [(''instance'', TNumber (int inst)),
                           (''initialState.group'',
                              case Option.bind st argInitialGroup of
                                None \<Rightarrow> TUndefined
                              | Some g \<Rightarrow> TString g),
                           (''initialState.selectTopItem'',
                              TBool (case Option.bind st argSelectTopItem of
                                       None \<Rightarrow> False
                                     | Some b \<Rightarrow> b))]
                else None);
          k2 = (if telemetryEnabled k1 then sendEvent ''launchpad/open'' (spread tc []) None src k1
                else k1)
      in \<lparr>cmdContainer = k2, cmdSource = src, cmdTelemetryContext = tc,
          initialState =
            \<lparr>item = Option.bind st argItem, action = Option.bind st argAction,
             initialGroup = Option.bind st argInitialGroup,
             selectTopItem = Option.bind st argSelectTopItem,
             counter = (if Option.bind st argItem \<noteq> None then 1 else 0),
             confirm = Option.bind args argConfirm\<rparr>\<rparr>)"

subsection \<open>The first lines of \<open>steps\<close>\<close>

definition defaultCollapsedGroups :: "LaunchpadGroup list" where
  "defaultCollapsedGroups = [''draft'', ''other'', ''snoozed'']"

text \<open>
  The collapsed map: every stored (or default) group maps to \<open>true\<close>; with an initial
  group, every known group is then set, to \<open>false\<close> for the initial group and to
  \<open>true\<close> for the others.
\<close>

definition initialCollapsed ::
  "Provider \<Rightarrow> LaunchpadGroup list \<Rightarrow> LaunchpadGroup option \<Rightarrow> (LaunchpadGroup \<times> bool) list" where
  "initialCollapsed P storedCollapsed ig =
     (let coll = newMap (map (\<lambda>g. (g, True)) storedCollapsed)
      in case ig of
           None \<Rightarrow> coll
         | Some i \<Rightarrow> foldl (\<lambda>m g. mapSet g (g \<noteq> i) m) coll (launchpadGroups P))"

text \<open>
  \<open>steps\<close> up to its loop. The state is the command's \<open>initialState\<close>; \<open>conn\<close> is
  what \<open>getConnectedIntegrations\<close> resolves to and \<open>ttl\<close> is \<open>this.title\<close>. A
  stored value that is not an array has no \<open>map\<close>: a \<open>TypeError\<close>.
\<close>

definition beginSteps ::
  "Provider \<Rightarrow> (IntegrationId \<times> bool) list \<Rightarrow> string \<Rightarrow> LaunchpadCommand \<Rightarrow> Outcome" where
  "beginSteps P conn ttl cmd =
     (case storage (cmdContainer cmd) ''launchpad:groups:collapsed'' of
        Some (StoredString s) \<Rightarrow> Thrown ''TypeError'' (cmdContainer cmd)
      | stored \<Rightarrow>
          (let storedCollapsed =
                 (case stored of Some (StoredGroups gs) \<Rightarrow> gs | _ \<Rightarrow> defaultCollapsedGroups);
               coll = initialCollapsed P storedCollapsed (initialGroup (initialState cmd))
           in Running
                \<lparr>container = call LaunchpadGetConnectedIntegrations (cmdContainer cmd),
                 commandSource = cmdSource cmd,
                 commandTelemetryContext = cmdTelemetryContext cmd,
                 wizardState = initialState cmd,
                 wizardContext =
                   \<lparr>result = Items [] None, wizardTitle = ttl, collapsed = coll,
                    telemetryContext = cmdTelemetryContext cmd,
                    connectedIntegrations = conn\<rparr>,
                 opened = False, stepPicked = None, stepSelectTopItem = None, stepItems = [],
                 quickpick = \<lparr>qpItems = [], placeholder = None, busy = False, qpValue = []\<rparr>,
                 confirmBusy = False\<rparr>))"

subsection \<open>Toggling a group heading\<close>

text \<open>The \<open>onDidSelect\<close> of the heading that \<open>buildGroupHeading(ui, ...)\<close> builds.\<close>

definition toggleGroup :: "Provider \<Rightarrow> LaunchpadGroup \<Rightarrow> Wizard \<Rightarrow> Wizard" where
  "toggleGroup P ui w =
     (let c = wizardContext w;
          coll = (\<not> truthy (mapGet (collapsed c) ui));
          c1 = c\<lparr>collapsed := mapSet ui coll (collapsed c)\<rparr>;
          k1 = (if initialGroup (wizardState w) = None
                then storageStore ''launchpad:groups:collapsed''
                       (StoredGroups (filter (\<lambda>g. truthy (mapGet (collapsed c1) g))
                                             (mapKeys (collapsed c1))))
                       (container w)
                else container w);
          c2 = (if telemetryEnabled k1 then updateTelemetryContext P c1 else c1);
          k2 = (if telemetryEnabled k1
                then sendEvent ''launchpad/groupToggled''
                       (spread (telemetryContext c2)
                          [(''group'', TString ui), (''collapsed'', TBool coll)])
                       None (commandSource w) k1
                else k1)
      in w\<lparr>container := k2, wizardContext := c2\<rparr>)"

subsection \<open>Telemetry of the command\<close>

fun actionName :: "SelectedAction \<Rightarrow> string" where
  "actionName (StringAction s) = s"
| "actionName (TargetAction a t) = a"

definition sendItemActionTelemetry ::
  "string \<Rightarrow> LaunchpadItem \<Rightarrow> LaunchpadGroup option \<Rightarrow> Wizard \<Rightarrow> Wizard" where
  "sendItemActionTelemetry a i g w =
     (if \<not> telemetryEnabled (container w) then w
      else w\<lparr>container :=
             sendEvent (if a = ''select'' then ''launchpad/steps/details'' else ''launchpad/action'')
               (spread (telemetryContext (wizardContext w)) [(''action'', TString a)])
               (Some (i, g)) (commandSource w) (container w)\<rparr>)"

definition sendTitleActionTelemetry :: "string \<Rightarrow> Wizard \<Rightarrow> Wizard" where
  "sendTitleActionTelemetry a w =
     (if \<not> telemetryEnabled (container w) then w
      else w\<lparr>container :=
             sendEvent ''launchpad/title/action''
               (spread (telemetryContext (wizardContext w)) [(''action'', TString a)])
               None (commandSource w) (container w)\<rparr>)"

subsection \<open>Dispatch of the selected action\<close>

text \<open>A call on a collaborator, made by the wizard.\<close>

definition calling :: "Call \<Rightarrow> Wizard \<Rightarrow> Wizard" where
  "calling c w = w\<lparr>container := call c (container w)\<rparr>"

text \<open>
  Modelled from the spec: \<open>endSteps(state)\<close> of \<open>commands/quickCommand\<close>, which is
  not among the sources: it ends the wizard by setting the step counter below zero
  (\<open>steps\<close> returns \<open>StepResultBreak\<close> when \<open>state.counter < 0\<close>).
\<close>

definition endSteps :: "Wizard \<Rightarrow> Wizard" where
  "endSteps w = w\<lparr>wizardState := (wizardState w)\<lparr>counter := - 1\<rparr>\<rparr>"

text \<open>\<open>if (state.action)\<close>: an object is truthy, a string when it is not empty.\<close>

fun actionTruthy :: "SelectedAction option \<Rightarrow> bool" where
  "actionTruthy None = False"
| "actionTruthy (Some (StringAction s)) = (s \<noteq> [])"
| "actionTruthy (Some (TargetAction a t)) = True"

text \<open>The \<open>switch\<close> over a string action; \<open>soft-open\<close> alone does not end the steps.\<close>

definition dispatchString :: "string \<Rightarrow> LaunchpadItem \<Rightarrow> Wizard \<Rightarrow> Wizard" where
  "dispatchString s i w =
     (if s = ''merge'' then endSteps (calling (LaunchpadMerge i) w)
      else if s = ''open'' then endSteps (calling (LaunchpadOpen i) w)
      else if s = ''soft-open''
      then (let w1 = calling (LaunchpadOpen i) w
            in w1\<lparr>wizardState := (wizardState w1)\<lparr>counter := 2\<rparr>\<rparr>)
      else if s = ''switch'' \<or> s = ''show-overview''
      then endSteps (calling (LaunchpadSwitchTo i None) w)
      else if s = ''open-worktree''
      then endSteps (calling (LaunchpadSwitchTo i (Some SkipWorktreeConfirmations)) w)
      else if s = ''switch-and-code-suggest'' \<or> s = ''code-suggest''
      then endSteps (calling (LaunchpadSwitchTo i (Some StartCodeSuggestion)) w)
      else if s = ''open-changes'' then endSteps (calling (LaunchpadOpenChanges i) w)
      else if s = ''open-in-graph'' then endSteps (calling (LaunchpadOpenInGraph i) w)
      else endSteps w)"

text \<open>
  The end of the loop body of \<open>steps\<close>, from \<open>if (state.action)\<close> to \<open>endSteps\<close>, for
  the item \<open>i\<close> that \<open>assertsLaunchpadStepState\<close> has found in the state.
\<close>

definition dispatchAction :: "LaunchpadItem \<Rightarrow> Wizard \<Rightarrow> Wizard" where
  "dispatchAction i w =
     (let w1 = (case action (wizardState w) of
                  None \<Rightarrow> w
                | Some a \<Rightarrow>
                    if actionTruthy (Some a)
                    then sendItemActionTelemetry (actionName a) i (itemGroup i) w
                    else w)
      in case action (wizardState w1) of
           Some (StringAction s) \<Rightarrow> dispatchString s i w1
         | Some (TargetAction a t) \<Rightarrow>
             if a = ''open-suggestion''
             then endSteps (calling (LaunchpadOpenCodeSuggestion i t) w1)
             else endSteps w1
         | None \<Rightarrow> endSteps w1)"

text \<open>\<open>assertsLaunchpadStepState(state)\<close>, then the dispatch.\<close>

definition assertAndDispatch :: "Wizard \<Rightarrow> Outcome" where
  "assertAndDispatch w =
     (case item (wizardState w) of
        None \<Rightarrow> Thrown ''Missing item'' (container w)
      | Some i \<Rightarrow> Running (dispatchAction i w))"

text \<open>The calls on the \<open>launchpad\<close> provider.\<close>

fun isLaunchpadCall :: "Call \<Rightarrow> bool" where
  "isLaunchpadCall (LaunchpadMerge i) = True"
| "isLaunchpadCall (LaunchpadOpen i) = True"
| "isLaunchpadCall (LaunchpadSwitchTo i opts) = True"
| "isLaunchpadCall (LaunchpadOpenChanges i) = True"
| "isLaunchpadCall (LaunchpadOpenInGraph i) = True"
| "isLaunchpadCall (LaunchpadOpenCodeSuggestion i t) = True"
| "isLaunchpadCall (LaunchpadOpenCodeSuggestionInBrowser t) = True"
| "isLaunchpadCall (LaunchpadPin i) = True"
| "isLaunchpadCall (LaunchpadUnpin i) = True"
| "isLaunchpadCall (LaunchpadSnooze i) = True"
| "isLaunchpadCall (LaunchpadUnsnooze i) = True"
| "isLaunchpadCall (LaunchpadEnsureCodeSuggestions i) = True"
| "isLaunchpadCall (LaunchpadGetCategorizedItems opts) = True"
| "isLaunchpadCall LaunchpadGetConnectedIntegrations = True"
| "isLaunchpadCall LaunchpadGenerateWebUrl = True"
| "isLaunchpadCall c = False"

definition launchpadCalls :: "Container \<Rightarrow> Call list" where
  "launchpadCalls k = filter isLaunchpadCall (madeCalls k)"

text \<open>A wizard in whose state the item \<open>i\<close> and the action \<open>a\<close> are selected.\<close>

definition selecting :: "LaunchpadItem \<Rightarrow> SelectedAction \<Rightarrow> Wizard \<Rightarrow> Wizard" where
  "selecting i a w = w\<lparr>wizardState := (wizardState w)\<lparr>item := Some i, action := Some a\<rparr>\<rparr>"

text \<open>The keys of the \<open>storage.store\<close> calls among a list of calls, in order.\<close>

fun storeKey :: "Call \<Rightarrow> string option" where
  "storeKey (StorageStore key v) = Some key"
| "storeKey c = None"

fun storedKeys :: "Call list \<Rightarrow> string list" where
  "storedKeys [] = []"
| "storedKeys (c # cs) =
     (case storeKey c of None \<Rightarrow> storedKeys cs | Some key \<Rightarrow> key # storedKeys cs)"

section \<open>The Launchpad command: handlers and the run of a wizard\<close>

subsection \<open>Typing into the quick pick\<close>

text \<open>
  The rows of the step's \<open>items\<close> are objects shared by \<open>items\<close>,
  \<open>nonGroupedItems\<close> and the quick pick, so a write to \<open>alwaysShow\<close> through one of
  them is a write to the row of \<open>items\<close>. The \<open>alwaysShow\<close> of a directive item
  (set by \<open>createDirectiveQuickPickItem\<close>, not among the sources) is not modelled.
\<close>

fun resetAlwaysShow :: "QuickPickEntry \<Rightarrow> QuickPickEntry" where
  "resetAlwaysShow (LaunchpadEntry q) =
     LaunchpadEntry (if truthy (alwaysShow q) then q\<lparr>alwaysShow := Some False\<rparr> else q)"
| "resetAlwaysShow e = e"

fun showAlways :: "QuickPickEntry \<Rightarrow> QuickPickEntry" where
  "showAlways (LaunchpadEntry q) = LaunchpadEntry (q\<lparr>alwaysShow := Some True\<rparr>)"
| "showAlways e = e"

text \<open>\<open>i.item\<close> of an element with an \<open>item\<close> property.\<close>

fun entryItem :: "QuickPickEntry \<Rightarrow> LaunchpadItem option" where
  "entryItem (LaunchpadEntry q) = Some (qpItem q)"
| "entryItem e = None"

text \<open>The strict match of \<open>find\<close>, over the elements that have an \<open>item\<close> property.\<close>

definition strictMatch :: "Provider \<Rightarrow> PullRequestUrlIdentity \<Rightarrow> QuickPickEntry \<Rightarrow> bool" where
  "strictMatch P idn e =
     (hasItemProperty e \<and> doesPullRequestSatisfyRepositoryURLIdentity P (entryItem e) idn)"

fun numberMatch :: "string \<Rightarrow> QuickPickEntry \<Rightarrow> bool" where
  "numberMatch n (LaunchpadEntry q) = (itemId (qpItem q) = n)"
| "numberMatch n e = False"

text \<open>
  The second \<open>find\<close>, by \<open>i.item.id\<close>: whether a row matches; \<open>None\<close> when the
  search reaches \<open>connectMoreIntegrationsItem\<close> first, whose \<open>item\<close> is
  \<open>undefined\<close>, so that reading its \<open>id\<close> throws a \<open>TypeError\<close>.
\<close>

fun findByNumber :: "string \<Rightarrow> QuickPickEntry list \<Rightarrow> bool option" where
  "findByNumber n [] = Some False"
| "findByNumber n (LaunchpadEntry q # es) =
     (if itemId (qpItem q) = n then Some True else findByNumber n es)"
| "findByNumber n (ConnectMoreIntegrationsEntry # es) = None"
| "findByNumber n (e # es) = findByNumber n es"

text \<open>The first element that matches gets \<open>alwaysShow = true\<close>.\<close>

fun markFirst :: "(QuickPickEntry \<Rightarrow> bool) \<Rightarrow> QuickPickEntry list \<Rightarrow> QuickPickEntry list" where
  "markFirst p [] = []"
| "markFirst p (e # es) = (if p e then showAlways e # es else e # markFirst p es)"

definition consideredItems :: "bool \<Rightarrow> QuickPickEntry list \<Rightarrow> QuickPickEntry list" where
  "consideredItems hideGroups xs =
     (if hideGroups then filter (\<lambda>i. \<not> isDirectiveQuickPickItem i) xs else xs)"

text \<open>
  The wizard once the row found in the quick pick has been marked: the items of the
  step and of the quick pick, and the cancelled debouncer.
\<close>

definition showFound :: "(QuickPickEntry \<Rightarrow> bool) \<Rightarrow> Wizard \<Rightarrow> Wizard" where
  "showFound p w =
     (let xs = markFirst p (stepItems w)
      in calling DebouncerCancel
           (w\<lparr>stepItems := xs,
              quickpick := (quickpick w)\<lparr>qpItems := consideredItems True xs\<rparr>\<rparr>))"

text \<open>
  \<open>onDidChangeValue\<close>, for the text \<open>v\<close> that the quick pick now holds; \<open>run\<close> is
  what the debounced refresh comes to when the handler reaches it.
\<close>

definition onDidChangeValue :: "Provider \<Rightarrow> string \<Rightarrow> DebouncedRun \<Rightarrow> Wizard \<Rightarrow> Outcome" where
  "onDidChangeValue P v run w0 =
     (let hideGroups = (v \<noteq> []);
          xs = map resetAlwaysShow (stepItems w0);
          w = w0\<lparr>stepItems := xs,
                 quickpick := (quickpick w0)\<lparr>qpValue := v, qpItems := consideredItems hideGroups xs\<rparr>\<rparr>
      in if v = [] then Running (calling DebouncerCancel w)
         else
           (let idn = getPullRequestIdentityValuesFromSearch P v
            in case prNumber idn of
                 None \<Rightarrow> Running (updateItems P run w)
               | Some n \<Rightarrow>
                   if \<exists>e \<in> set xs. strictMatch P idn e
                   then Running (showFound (strictMatch P idn) w)
                   else
                     (case findByNumber n xs of
                        None \<Rightarrow> Thrown ''TypeError'' (container w)
                      | Some True \<Rightarrow> Running (showFound (numberMatch n) w)
                      | Some False \<Rightarrow> Running (updateItems P run w))))"

subsection \<open>Buttons of the item-pick step\<close>

text \<open>
  \<open>onDidClickButton\<close>; \<open>url\<close> is what \<open>launchpad.generateWebUrl()\<close> returns. After
  \<open>ConnectIntegrationButton\<close> the step goes on with \<open>connectMoreIntegrationsItem\<close>.
\<close>

definition onDidClickButton ::
  "Provider \<Rightarrow> QuickInputButton \<Rightarrow> string \<Rightarrow> DebouncedRun \<Rightarrow> Wizard \<Rightarrow> Wizard" where
  "onDidClickButton P b url run w =
     (case b of
        ConnectIntegrationButton \<Rightarrow> sendTitleActionTelemetry ''connect'' w
      | LaunchpadSettingsQuickInputButton \<Rightarrow>
          calling (ExecuteCommand ''workbench.action.openSettings'' [''gitlens.launchpad''])
            (sendTitleActionTelemetry ''settings'' w)
      | FeedbackQuickInputButton \<Rightarrow>
          calling (OpenUrl ''https://github.com/gitkraken/vscode-gitlens/discussions/3286'')
            (sendTitleActionTelemetry ''feedback'' w)
      | OpenOnWebQuickInputButton \<Rightarrow>
          calling (OpenUrl url)
            (calling LaunchpadGenerateWebUrl (sendTitleActionTelemetry ''open-on-gkdev'' w))
      | RefreshQuickInputButton \<Rightarrow> updateItems P run (sendTitleActionTelemetry ''refresh'' w)
      | _ \<Rightarrow> w)"

text \<open>The \<open>switch\<close> of \<open>onDidClickItemButton\<close> for the row of item \<open>i\<close> in group \<open>g\<close>.\<close>

definition itemButtonAction ::
  "QuickInputButton \<Rightarrow> LaunchpadItem \<Rightarrow> LaunchpadGroup option \<Rightarrow> Wizard \<Rightarrow> Wizard" where
  "itemButtonAction b i g w =
     (case b of
        OpenOnGitHubQuickInputButton \<Rightarrow>
          calling (LaunchpadOpen i) (sendItemActionTelemetry ''soft-open'' i g w)
      | OpenOnGitLabQuickInputButton \<Rightarrow>
          calling (LaunchpadOpen i) (sendItemActionTelemetry ''soft-open'' i g w)
      | SnoozeQuickInputButton \<Rightarrow>
          calling (LaunchpadSnooze i) (sendItemActionTelemetry ''snooze'' i g w)
      | UnsnoozeQuickInputButton \<Rightarrow>
          calling (LaunchpadUnsnooze i) (sendItemActionTelemetry ''unsnooze'' i g w)
      | PinQuickInputButton \<Rightarrow>
          calling (LaunchpadPin i) (sendItemActionTelemetry ''pin'' i g w)
      | UnpinQuickInputButton \<Rightarrow>
          calling (LaunchpadUnpin i) (sendItemActionTelemetry ''unpin'' i g w)
      | MergeQuickInputButton \<Rightarrow>
          calling (LaunchpadMerge i) (sendItemActionTelemetry ''merge'' i g w)
      | OpenWorktreeInNewWindowQuickInputButton \<Rightarrow>
          calling (LaunchpadSwitchTo i (Some SkipWorktreeConfirmations))
            (sendItemActionTelemetry ''open-worktree'' i g w)
      | _ \<Rightarrow> w)"

text \<open>\<open>onDidClickItemButton\<close> of the pick step, for the clicked element \<open>e\<close>.\<close>

definition onDidClickItemButton ::
  "Provider \<Rightarrow> QuickInputButton \<Rightarrow> QuickPickEntry \<Rightarrow> DebouncedRun \<Rightarrow> Wizard \<Rightarrow> Wizard" where
  "onDidClickItemButton P b e run w =
     (if b = LearnAboutProQuickInputButton then calling (OpenUrl (proFeaturesUrl P)) w
      else case e of
             LaunchpadEntry q \<Rightarrow>
               updateItems P run (itemButtonAction b (qpItem q) (Some (qpGroup q)) w)
           | _ \<Rightarrow> w)"

subsection \<open>The confirm step\<close>

text \<open>
  The lines of \<open>steps\<close> before \<open>confirmStep\<close>, once \<open>this.confirm(state.confirm)\<close>
  holds: the \<open>select\<close> telemetry and \<open>ensureLaunchpadItemCodeSuggestions\<close>.
\<close>

definition beforeConfirm :: "Wizard \<Rightarrow> Outcome" where
  "beforeConfirm w =
     (case item (wizardState w) of
        None \<Rightarrow> Thrown ''Missing item'' (container w)
      | Some i \<Rightarrow>
          Running (calling (LaunchpadEnsureCodeSuggestions i)
                     (sendItemActionTelemetry ''select'' i (itemGroup i) w)))"

text \<open>
  \<open>onDidClickItemButton\<close> of the confirm step, for the button and the \<open>item\<close> of the
  clicked row (an action, or nothing for a directive row). The rows of this quick
  pick, which the pin and snooze buttons rebuild, are labels and are left out; its
  \<open>busy\<close> flag is kept. Every case reads \<open>state.item.group\<close>.
\<close>

fun confirmButtonAction ::
  "QuickInputButton \<Rightarrow> SelectedAction option \<Rightarrow> LaunchpadItem \<Rightarrow> Wizard \<Rightarrow> Wizard" where
  "confirmButtonAction OpenOnGitHubQuickInputButton r i w =
     calling (LaunchpadOpen i) (sendItemActionTelemetry ''soft-open'' i (itemGroup i) w)"
| "confirmButtonAction OpenOnGitLabQuickInputButton r i w =
     calling (LaunchpadOpen i) (sendItemActionTelemetry ''soft-open'' i (itemGroup i) w)"
| "confirmButtonAction OpenOnWebQuickInputButton r i w =
     (let w1 = sendItemActionTelemetry ''open-suggestion-browser'' i (itemGroup i) w
      in case r of
           Some (TargetAction a t) \<Rightarrow> calling (LaunchpadOpenCodeSuggestionInBrowser t) w1
         | _ \<Rightarrow> w1)"
| "confirmButtonAction PinQuickInputButton r i w =
     (calling (LaunchpadPin i) (sendItemActionTelemetry ''pin'' i (itemGroup i) w))
       \<lparr>confirmBusy := False\<rparr>"
| "confirmButtonAction UnpinQuickInputButton r i w =
     (calling (LaunchpadUnpin i) (sendItemActionTelemetry ''unpin'' i (itemGroup i) w))
       \<lparr>confirmBusy := False\<rparr>"
| "confirmButtonAction SnoozeQuickInputButton r i w =
     (calling (LaunchpadSnooze i) (sendItemActionTelemetry ''snooze'' i (itemGroup i) w))
       \<lparr>confirmBusy := False\<rparr>"
| "confirmButtonAction UnsnoozeQuickInputButton r i w =
     (calling (LaunchpadUnsnooze i) (sendItemActionTelemetry ''unsnooze'' i (itemGroup i) w))
       \<lparr>confirmBusy := False\<rparr>"
| "confirmButtonAction b r i w = w"

fun confirmButtonReadsItem :: "QuickInputButton \<Rightarrow> bool" where
  "confirmButtonReadsItem OpenOnGitHubQuickInputButton = True"
| "confirmButtonReadsItem OpenOnGitLabQuickInputButton = True"
| "confirmButtonReadsItem OpenOnWebQuickInputButton = True"
| "confirmButtonReadsItem PinQuickInputButton = True"
| "confirmButtonReadsItem UnpinQuickInputButton = True"
| "confirmButtonReadsItem SnoozeQuickInputButton = True"
| "confirmButtonReadsItem UnsnoozeQuickInputButton = True"
| "confirmButtonReadsItem b = False"

definition onDidClickConfirmItemButton ::
  "QuickInputButton \<Rightarrow> SelectedAction option \<Rightarrow> Wizard \<Rightarrow> Outcome" where
  "onDidClickConfirmItemButton b r w =
     (case item (wizardState w) of
        None \<Rightarrow> if confirmButtonReadsItem b then Thrown ''TypeError'' (container w) else Running w
      | Some i \<Rightarrow> Running (confirmButtonAction b r i w))"

subsection \<open>Connecting integrations\<close>

text \<open>
  \<open>ensureIntegrationConnected(id)\<close>, reached from \<open>confirmLocalIntegrationConnectStep\<close>:
  \<open>already\<close> is \<open>integration.maybeConnected ?? (await integration.isConnected())\<close>,
  and \<open>integration.connect('launchpad')\<close> is called only when it is false. The cloud
  step calls \<open>connectCloudIntegrations\<close> with the supported integrations.
\<close>

definition ensureIntegrationConnected :: "IntegrationId \<Rightarrow> bool \<Rightarrow> Wizard \<Rightarrow> Wizard" where
  "ensureIntegrationConnected i already w =
     (if already then w else calling (IntegrationConnect i) w)"

definition connectCloud :: "Provider \<Rightarrow> Wizard \<Rightarrow> Wizard" where
  "connectCloud P w = calling (ConnectCloudIntegrations (supportedLaunchpadIntegrations P)) w"

subsection \<open>The loop of \<open>steps\<close>\<close>

text \<open>\<open>[...context.connectedIntegrations.values()].some(c => c)\<close>.\<close>

definition hasConnectedIntegrations :: "Context \<Rightarrow> bool" where
  "hasConnectedIntegrations c = (True \<in> set (map snd (connectedIntegrations c)))"

text \<open>The top of the loop body, before the connect step is shown.\<close>

definition loopTop :: "Wizard \<Rightarrow> Wizard" where
  "loopTop w =
     (if hasConnectedIntegrations (wizardContext w) then w
      else
        (let k = (if telemetryEnabled (container w)
                  then sendEvent (if opened w then ''launchpad/steps/connect'' else ''launchpad/opened'')
                         (spread (telemetryContext (wizardContext w)) [(''connected'', TBool False)])
                         None (commandSource w) (container w)
                  else container w)
         in w\<lparr>container := k, opened := True\<rparr>))"

text \<open>
  From \<open>if (state.counter < 1 || state.item == null)\<close> to the creation of the pick
  step.
\<close>

definition openPickStep :: "Provider \<Rightarrow> Wizard \<Rightarrow> Wizard" where
  "openPickStep P w =
     (if counter (wizardState w) < 1 \<or> item (wizardState w) = None
      then
        (let k = (if telemetryEnabled (container w)
                  then sendEvent (if opened w then ''launchpad/steps/main'' else ''launchpad/opened'')
                         (spread (telemetryContext (wizardContext w)) [(''connected'', TBool True)])
                         None (commandSource w) (container w)
                  else container w)
         in createLaunchpadPickStep P (Option.bind (item (wizardState w)) graphQLId)
              (selectTopItem (wizardState w)) (w\<lparr>container := k, opened := True\<rparr>))
      else w)"

text \<open>
  The selection of an element that the quick pick lists: a group heading runs its
  \<open>onDidSelect\<close>; a row becomes \<open>state.item\<close>, with the row's group.
\<close>

definition selectEntry :: "Provider \<Rightarrow> QuickPickEntry \<Rightarrow> Wizard \<Rightarrow> Wizard" where
  "selectEntry P e w =
     (if e \<notin> set (qpItems (quickpick w)) then w
      else case e of
             DirectiveEntry d \<Rightarrow>
               (case onDidSelect d of
                  Some (ToggleGroup ui) \<Rightarrow> toggleGroup P ui w
                | _ \<Rightarrow> w)
           | LaunchpadEntry q \<Rightarrow>
               w\<lparr>wizardState := (wizardState w)
                    \<lparr>item := Some ((qpItem q)\<lparr>itemGroup := Some (qpGroup q)\<rparr>)\<rparr>\<rparr>
           | _ \<Rightarrow> w)"

text \<open>
  What can happen in a running wizard, each with what the collaborators answer: the
  pieces of the loop of \<open>steps\<close> between two prompts, and the handlers of the two
  quick picks. A run is any finite sequence of them, which covers every order in
  which \<open>steps\<close> and the user can bring them about.
\<close>

datatype WizardEvent =
    LoopTop
  | ConnectLocal IntegrationId bool
  | ConnectCloud
  | RefreshContext bool LaunchpadCategorizedResult "(IntegrationId \<times> bool) list"
  | OpenPickStep
  | ValueChanged string DebouncedRun
  | ButtonClicked QuickInputButton string DebouncedRun
  | ItemButtonClicked QuickInputButton QuickPickEntry DebouncedRun
  | EntrySelected QuickPickEntry
  | BeforeConfirm
  | ConfirmItemButtonClicked QuickInputButton "SelectedAction option"
  | ActionChosen SelectedAction
  | Dispatch

fun handleEvent :: "Provider \<Rightarrow> WizardEvent \<Rightarrow> Wizard \<Rightarrow> Outcome" where
  "handleEvent P LoopTop w = Running (loopTop w)"
| "handleEvent P (ConnectLocal i already) w = Running (ensureIntegrationConnected i already w)"
| "handleEvent P ConnectCloud w = Running (connectCloud P w)"
| "handleEvent P (RefreshContext f fetched conn) w =
     Running (updateContextItems P \<lparr>force = f, search = None\<rparr> fetched conn w)"
| "handleEvent P OpenPickStep w = Running (openPickStep P w)"
| "handleEvent P (ValueChanged v run) w = onDidChangeValue P v run w"
| "handleEvent P (ButtonClicked b url run) w = Running (onDidClickButton P b url run w)"
| "handleEvent P (ItemButtonClicked b e run) w = Running (onDidClickItemButton P b e run w)"
| "handleEvent P (EntrySelected e) w = Running (selectEntry P e w)"
| "handleEvent P BeforeConfirm w = beforeConfirm w"
| "handleEvent P (ConfirmItemButtonClicked b r) w = onDidClickConfirmItemButton b r w"
| "handleEvent P (ActionChosen a) w =
     Running (w\<lparr>wizardState := (wizardState w)\<lparr>action := Some a\<rparr>\<rparr>)"
| "handleEvent P Dispatch w = assertAndDispatch w"

fun runEvents :: "Provider \<Rightarrow> WizardEvent list \<Rightarrow> Outcome \<Rightarrow> Outcome" where
  "runEvents P [] out = out"
| "runEvents P (ev # evs) (Running w) = runEvents P evs (handleEvent P ev w)"
| "runEvents P (ev # evs) (Thrown m k) = Thrown m k"

text \<open>
  A complete invocation: the constructor, the first lines of \<open>steps\<close>, and a run of
  events. When the wizard closes, its state and context are gone; what is left is
  the container.
\<close>

definition invoke ::
  "Provider \<Rightarrow> Container \<Rightarrow> LaunchpadCommandArgs option \<Rightarrow> string \<Rightarrow> nat
     \<Rightarrow> (IntegrationId \<times> bool) list \<Rightarrow> string \<Rightarrow> WizardEvent list \<Rightarrow> Container" where
  "invoke P k args now inst conn ttl evs =
     containerOf (runEvents P evs (beginSteps P conn ttl (newLaunchpadCommand k args now inst)))"

section \<open>The Launchpad command: the debounced refresh in time\<close>

text \<open>
  The handlers of the pick step \<open>await updateItems(quickpick)\<close>, and \<open>updateItems\<close>
  awaits the debouncer: the callback runs later, while the quick pick goes on taking
  input. This section follows the pick step in time, in milliseconds: the handlers run
  up to their call of the debouncer, the timer of the debouncer fires, and the
  callbacks return when their awaits have resolved.
\<close>

subsection \<open>A handler up to its refresh\<close>

datatype DebouncerUse = CallsUpdateItems | CancelsDebouncer | LeavesDebouncer

text \<open>
  What the user does to the open pick step: types so that the quick pick holds the
  given text, clicks a button of the title bar (\<open>url\<close> is what
  \<open>launchpad.generateWebUrl()\<close> returns), or clicks a button of an element.
\<close>

datatype PickInput =
    TypedValue string
  | TitleButton QuickInputButton string
  | ItemButton QuickInputButton QuickPickEntry

text \<open>
  \<open>onDidChangeValue\<close> up to the point where it returns or reaches
  \<open>await updateItems(quickpick)\<close>, with what it does to the debouncer.
\<close>

definition onDidChangeValueBefore :: "Provider \<Rightarrow> string \<Rightarrow> Wizard \<Rightarrow> DebouncerUse \<times> Outcome" where
  "onDidChangeValueBefore P v w0 =
     (let hideGroups = (v \<noteq> []);
          xs = map resetAlwaysShow (stepItems w0);
          w = w0\<lparr>stepItems := xs,
                 quickpick := (quickpick w0)\<lparr>qpValue := v, qpItems := consideredItems hideGroups xs\<rparr>\<rparr>
      in if v = [] then (CancelsDebouncer, Running (calling DebouncerCancel w))
         else
           (let idn = getPullRequestIdentityValuesFromSearch P v
            in case prNumber idn of
                 None \<Rightarrow> (CallsUpdateItems, Running w)
               | Some n \<Rightarrow>
                   if \<exists>e \<in> set xs. strictMatch P idn e
                   then (CancelsDebouncer, Running (showFound (strictMatch P idn) w))
                   else
                     (case findByNumber n xs of
                        None \<Rightarrow> (LeavesDebouncer, Thrown ''TypeError'' (container w))
                      | Some True \<Rightarrow> (CancelsDebouncer, Running (showFound (numberMatch n) w))
                      | Some False \<Rightarrow> (CallsUpdateItems, Running w))))"

text \<open>
  The handlers of the buttons reach \<open>updateItems\<close> as their last statement: the title
  bar's for \<open>RefreshQuickInputButton\<close>, an element's for every button of a row but
  \<open>LearnAboutProQuickInputButton\<close>. On the other paths the handler is the one of the
  previous section, which does not look at the refresh there.
\<close>

definition beforeUpdateItems :: "Provider \<Rightarrow> PickInput \<Rightarrow> Wizard \<Rightarrow> DebouncerUse \<times> Outcome" where
  "beforeUpdateItems P i w =
     (case i of
        TypedValue v \<Rightarrow> onDidChangeValueBefore P v w
      | TitleButton b url \<Rightarrow>
          if b = RefreshQuickInputButton
          then (CallsUpdateItems, Running (sendTitleActionTelemetry ''refresh'' w))
          else (LeavesDebouncer, Running (onDidClickButton P b url NotRun w))
      | ItemButton b e \<Rightarrow>
          if b = LearnAboutProQuickInputButton
          then (LeavesDebouncer, Running (onDidClickItemButton P b e NotRun w))
          else (case e of
                  LaunchpadEntry q \<Rightarrow>
                    (CallsUpdateItems,
                     Running (itemButtonAction b (qpItem q) (Some (qpGroup q)) w))
                | _ \<Rightarrow> (LeavesDebouncer, Running w)))"

text \<open>
  The event of the previous section that an input is, given what its refresh comes to;
  and the outcome of a handler that awaits its refresh on the spot.
\<close>

fun inputEvent :: "PickInput \<Rightarrow> DebouncedRun \<Rightarrow> WizardEvent" where
  "inputEvent (TypedValue v) run = ValueChanged v run"
| "inputEvent (TitleButton b url) run = ButtonClicked b url run"
| "inputEvent (ItemButton b e) run = ItemButtonClicked b e run"

fun awaited :: "Provider \<Rightarrow> DebouncedRun \<Rightarrow> DebouncerUse \<times> Outcome \<Rightarrow> Outcome" where
  "awaited P run (CallsUpdateItems, Running w) = Running (updateItems P run w)"
| "awaited P run (u, out) = out"

subsection \<open>The pick step, the debouncer and the clock\<close>

text \<open>A callback that has started and has not returned: the token it was given.\<close>

record Started =
  startedRefresh :: Refresh
  token :: nat
  startedAt :: nat

text \<open>
  The clock, the debouncer, the callbacks under way and the wizard; \<open>operations\<close>
  counts the calls of the debouncer and of its \<open>cancel()\<close> so far.
\<close>

record Timed =
  clock :: nat
  operations :: nat
  debouncer :: "Refresh AsyncDebouncer"
  started :: "Started list"
  picker :: Wizard

datatype TimedOutcome = Ticking Timed | Stopped string Container

text \<open>A pick step that opens at the time \<open>now\<close>, the debouncer as it was created.\<close>

definition openTimed :: "nat \<Rightarrow> Wizard \<Rightarrow> Timed" where
  "openTimed now w =
     \<lparr>clock = now, operations = 0, debouncer = updateItemsDebouncer, started = [], picker = w\<rparr>"

text \<open>
  \<open>updateItems(quickpick)\<close> up to its \<open>await\<close>: it captures \<open>quickpick.value\<close>, sets
  \<open>busy\<close> and calls the debouncer. When that drops an earlier call, the \<open>await\<close> of
  the earlier call ends and its \<open>finally\<close> clears \<open>busy\<close>.
\<close>

definition requestRefresh ::
  "LaunchpadCategorizedResult \<Rightarrow> (IntegrationId \<times> bool) list \<Rightarrow> nat \<Rightarrow> Timed \<Rightarrow> Timed" where
  "requestRefresh fetched conn takes s =
     (let w = picker s;
          r = \<lparr>refreshSearch = qpValue (quickpick w), refreshFetched = fetched,
               refreshConnected = conn, refreshTakes = takes, requestedAt = clock s,
               operationNumber = Suc (operations s)\<rparr>;
          w1 = w\<lparr>quickpick := (quickpick w)\<lparr>busy := True\<rparr>\<rparr>
      in s\<lparr>operations := Suc (operations s),
           debouncer := debounce (clock s) r (debouncer s),
           picker := (if dropsCall (debouncer s) then finallyNotBusy w1 else w1)\<rparr>)"

text \<open>\<open>this.updateItemsDebouncer.cancel()\<close>.\<close>

definition cancelRefresh :: "Timed \<Rightarrow> Timed" where
  "cancelRefresh s =
     s\<lparr>operations := Suc (operations s),
       debouncer := cancelDebouncer (debouncer s),
       picker := (if dropsCall (debouncer s) then finallyNotBusy (picker s) else picker s)\<rparr>"

text \<open>The timer fires when it is due: its callback starts.\<close>

definition startDue :: "Timed \<Rightarrow> Timed" where
  "startDue s =
     (case fireTimer (clock s) (debouncer s) of
        (None, d) \<Rightarrow> s
      | (Some (r, t), d) \<Rightarrow>
          s\<lparr>debouncer := d,
            started := started s @ [\<lparr>startedRefresh = r, token = t, startedAt = clock s\<rparr>]\<rparr>)"

text \<open>
  A callback returns: what it does to the wizard is taken at that time, with what
  its token says then, and the \<open>finally\<close> of \<open>updateItems\<close> follows.
\<close>

definition returnCallback :: "Provider \<Rightarrow> Started \<Rightarrow> Timed \<Rightarrow> Timed" where
  "returnCallback P c s =
     (let r = startedRefresh c
      in s\<lparr>started := filter (\<lambda>x. token x \<noteq> token c) (started s),
           picker := finallyNotBusy
                       (refreshCallback P (refreshSearch r) (refreshFetched r) (refreshConnected r)
                          (isCancellationRequested (debouncer s) (token c)) (picker s))\<rparr>)"

definition returnsAt :: "Started \<Rightarrow> nat" where
  "returnsAt c = startedAt c + refreshTakes (startedRefresh c)"

fun returnAll :: "Provider \<Rightarrow> Started list \<Rightarrow> Timed \<Rightarrow> Timed" where
  "returnAll P [] s = s"
| "returnAll P (c # cs) s =
     returnAll P cs (if returnsAt c \<le> clock s then returnCallback P c s else s)"

text \<open>One millisecond passes.\<close>

definition tick :: "Provider \<Rightarrow> Timed \<Rightarrow> Timed" where
  "tick P s =
     (let s1 = startDue (s\<lparr>clock := Suc (clock s)\<rparr>)
      in returnAll P (started s1) s1)"

text \<open>
  What happens to the open pick step: a millisecond passes, or the user does
  something, with what the provider will answer to the refresh and the milliseconds
  it will take, should the handler come to \<open>updateItems\<close>.
\<close>

datatype TimedEvent =
    Tick
  | Pick PickInput LaunchpadCategorizedResult "(IntegrationId \<times> bool) list" nat

fun timedStep :: "Provider \<Rightarrow> TimedEvent \<Rightarrow> Timed \<Rightarrow> TimedOutcome" where
  "timedStep P Tick s = Ticking (tick P s)"
| "timedStep P (Pick i fetched conn takes) s =
     (case beforeUpdateItems P i (picker s) of
        (u, Thrown m k) \<Rightarrow> Stopped m k
      | (CallsUpdateItems, Running w) \<Rightarrow> Ticking (requestRefresh fetched conn takes (s\<lparr>picker := w\<rparr>))
      | (CancelsDebouncer, Running w) \<Rightarrow> Ticking (cancelRefresh (s\<lparr>picker := w\<rparr>))
      | (LeavesDebouncer, Running w) \<Rightarrow> Ticking (s\<lparr>picker := w\<rparr>))"

fun runTimed :: "Provider \<Rightarrow> TimedEvent list \<Rightarrow> TimedOutcome \<Rightarrow> TimedOutcome" where
  "runTimed P [] out = out"
| "runTimed P (ev # evs) (Ticking s) = runTimed P evs (timedStep P ev s)"
| "runTimed P (ev # evs) (Stopped m k) = Stopped m k"

text \<open>
  A callback under way is superseded when the debouncer has been called or cancelled
  since the call that it comes from.
\<close>

definition superseded :: "Timed \<Rightarrow> Started \<Rightarrow> bool" where
  "superseded s c = (operationNumber (startedRefresh c) < operations s)"

text \<open>The state of a timed outcome satisfies a property, when the pick step goes on.\<close>

fun whileTicking :: "(Timed \<Rightarrow> bool) \<Rightarrow> TimedOutcome \<Rightarrow> bool" where
  "whileTicking p (Ticking s) = p s"
| "whileTicking p (Stopped m k) = True"

text \<open>The timer of a timed outcome: when it is due, and the search of its callback.\<close>

fun timerOf :: "TimedOutcome \<Rightarrow> (nat \<times> string) option" where
  "timerOf (Ticking s) = map_option (\<lambda>(due, r). (due, refreshSearch r)) (armed (debouncer s))"
| "timerOf (Stopped m k) = None"

text \<open>
  What holds of the debouncer in every state of the timed pick step: a callback under
  way started 500 milliseconds after the call it comes from, and its token is
  cancelled just when it is superseded; the timer is due 500 milliseconds after the
  call that armed it, which is the last operation on the debouncer, and while it is
  armed no token is live.
\<close>

definition debounced :: "Timed \<Rightarrow> bool" where
  "debounced s =
     (delayMs (debouncer s) = 500
      \<and> (\<forall>c \<in> set (started s).
             startedAt c = requestedAt (startedRefresh c) + 500
             \<and> token c < issued (debouncer s)
             \<and> operationNumber (startedRefresh c) \<le> operations s
             \<and> (superseded s c \<longleftrightarrow> isCancellationRequested (debouncer s) (token c)))
      \<and> (\<forall>due r. armed (debouncer s) = Some (due, r) \<longrightarrow>
             due = requestedAt r + 500 \<and> clock s < due
             \<and> operationNumber r = operations s
             \<and> liveToken (debouncer s) = None
             \<and> (\<forall>c \<in> set (started s). superseded s c)))"

section \<open>Vocabulary of the properties\<close>

text \<open>
  A step of the wizard is \<open>quiet\<close> when it leaves alone the storage, the keys of the
  \<open>storage.store\<close> calls made so far, the initial group of the state and the
  collapsed map of the context.
\<close>

definition quiet :: "Wizard \<Rightarrow> Wizard \<Rightarrow> bool" where
  "quiet w w' =
     (storage (container w') = storage (container w)
      \<and> storedKeys (madeCalls (container w')) = storedKeys (madeCalls (container w))
      \<and> initialGroup (wizardState w') = initialGroup (wizardState w)
      \<and> collapsed (wizardContext w') = collapsed (wizardContext w))"

text \<open>A step is \<open>still\<close> when it is quiet and leaves the listed items alone as well.\<close>

definition still :: "Wizard \<Rightarrow> Wizard \<Rightarrow> bool" where
  "still w w' =
     (quiet w w' \<and> stepItems w' = stepItems w
      \<and> qpItems (quickpick w') = qpItems (quickpick w))"

text \<open>The groups that the headings among some elements toggle when selected.\<close>

fun toggleTargets :: "QuickPickEntry \<Rightarrow> LaunchpadGroup list" where
  "toggleTargets (DirectiveEntry d) =
     (case onDidSelect d of Some (ToggleGroup ui) \<Rightarrow> [ui] | _ \<Rightarrow> [])"
| "toggleTargets e = []"

definition headingGroups :: "QuickPickEntry list \<Rightarrow> LaunchpadGroup list" where
  "headingGroups xs = concat (map toggleTargets xs)"

text \<open>
  The keys of the collapsed map of a wizard are known groups or among the groups
  \<open>found\<close> (the list that the invocation found in the storage), and the headings that
  its quick pick and its step list are those of known groups.
\<close>

definition groupsKnown :: "Provider \<Rightarrow> LaunchpadGroup list \<Rightarrow> Wizard \<Rightarrow> bool" where
  "groupsKnown P found w =
     (set (mapKeys (collapsed (wizardContext w))) \<subseteq> set (launchpadGroups P) \<union> set found
      \<and> set (headingGroups (qpItems (quickpick w))) \<subseteq> set (launchpadGroups P)
      \<and> set (headingGroups (stepItems w)) \<subseteq> set (launchpadGroups P))"

text \<open>The list stored under \<open>launchpad:groups:collapsed\<close>, when there is one.\<close>

definition storedCollapsedGroups :: "Container \<Rightarrow> LaunchpadGroup list" where
  "storedCollapsedGroups k =
     (case storage k ''launchpad:groups:collapsed'' of
        Some (StoredGroups gs) \<Rightarrow> gs
      | _ \<Rightarrow> [])"

text \<open>The keys of the collapsed map of a running wizard.\<close>

fun collapsedKeys :: "Outcome \<Rightarrow> LaunchpadGroup list" where
  "collapsedKeys (Running w) = mapKeys (collapsed (wizardContext w))"
| "collapsedKeys (Thrown m k) = []"

text \<open>
  Between two containers, nothing was stored but under the two keys of the Launchpad:
  every other key holds what it held, and the \<open>storage.store\<close> calls added have one
  of the two keys.
\<close>

definition onlyLaunchpadKeys :: "Container \<Rightarrow> Container \<Rightarrow> bool" where
  "onlyLaunchpadKeys k k' =
     ((\<forall>key. key \<noteq> ''launchpad:groups:collapsed'' \<and> key \<noteq> ''launchpad:indicator:hasInteracted''
          \<longrightarrow> storage k' key = storage k key)
      \<and> set (storedKeys (madeCalls k'))
          \<subseteq> set (storedKeys (madeCalls k))
            \<union> {''launchpad:groups:collapsed'', ''launchpad:indicator:hasInteracted''})"

text \<open>
  The provider's grouping is typed \<open>Map<LaunchpadGroup, LaunchpadItem[]>\<close> and the
  default collapsed groups \<open>LaunchpadGroup[]\<close>, where \<open>LaunchpadGroup\<close> is the type
  of the members of \<open>launchpadGroups\<close>. Groups are strings in this model, so the
  typing is a condition on the provider.
\<close>

definition groupsTyped :: "Provider \<Rightarrow> bool" where
  "groupsTyped P =
     ((\<forall>xs. fst ` set (groupAndSortLaunchpadItems P xs) \<subseteq> set (launchpadGroups P))
      \<and> set defaultCollapsedGroups \<subseteq> set (launchpadGroups P))"

text \<open>The state of an outcome satisfies a property, when the wizard is still running.\<close>

fun whileRunning :: "(Wizard \<Rightarrow> bool) \<Rightarrow> Outcome \<Rightarrow> bool" where
  "whileRunning p (Running w) = p w"
| "whileRunning p (Thrown m k) = True"

text \<open>
  A handler that throws has the container it was entered with; one that returns is
  quiet.
\<close>

definition quietOutcome :: "Wizard \<Rightarrow> Outcome \<Rightarrow> bool" where
  "quietOutcome w out =
     (case out of Running w' \<Rightarrow> quiet w w' | Thrown m k \<Rightarrow> k = container w)"

text \<open>The invariant of a run, for a typed provider and the list found in the storage.\<close>

definition groupsInvariant :: "Provider \<Rightarrow> LaunchpadGroup list \<Rightarrow> Outcome \<Rightarrow> bool" where
  "groupsInvariant P found out =
     (whileRunning (groupsKnown P found) out
      \<and> set (storedCollapsedGroups (containerOf out)) \<subseteq> set (launchpadGroups P) \<union> set found)"

text \<open>
  What the quick pick of a running wizard shows: its placeholder and its items; and
  the result that the context of a running wizard holds.
\<close>

fun shown :: "Outcome \<Rightarrow> string option \<times> QuickPickEntry list" where
  "shown (Running w) = (placeholder (quickpick w), qpItems (quickpick w))"
| "shown (Thrown m k) = (None, [])"

fun heldResult :: "Outcome \<Rightarrow> LaunchpadCategorizedResult option" where
  "heldResult (Running w) = Some (result (wizardContext w))"
| "heldResult (Thrown m k) = None"

section \<open>Example inputs\<close>

text \<open>
  A provider whose grouping puts every item into the group \<open>mergeable\<close>, with the
  ten group ids of the Launchpad, and which finds no pull-request number in a search
  string.
\<close>

definition exampleProvider :: Provider where
  "exampleProvider =
     \<lparr>launchpadGroups =
        [''current-branch'', ''pinned'', ''mergeable'', ''blocked'', ''follow-up'',
         ''needs-review'', ''waiting-for-review'', ''draft'', ''other'', ''snoozed''],
      supportedLaunchpadIntegrations = [GitHub, GitLab],
      groupAndSortLaunchpadItems = (\<lambda>xs. [(''mergeable'', xs)]),
      countLaunchpadItemGroups = (\<lambda>xs. [(''mergeable'', length xs)]),
      getPullRequestIdentityValuesFromSearch = (\<lambda>s. \<lparr>prNumber = None, ownerAndRepo = None\<rparr>),
      doesPullRequestSatisfyRepositoryURLIdentity = (\<lambda>i s. False),
      proFeaturesUrl = ''https://gitkraken.com/gitlens/pro-features''\<rparr>"

definition exampleItem :: LaunchpadItem where
  "exampleItem =
     \<lparr>itemId = ''42'', graphQLId = Some ''PR_42'', title = ''Fix the frobnicator'',
      actionableCategory = ''mergeable'', isSearched = False, viewerPinned = False,
      viewerSnoozed = False, providerId = GitHub, localBranchCurrent = False,
      itemGroup = None\<rparr>"

definition exampleRow :: LaunchpadItemQuickPickItem where
  "exampleRow = buildLaunchpadQuickPickItem None exampleItem ''mergeable'' None None"

definition exampleError :: JsError where
  "exampleError =
     \<lparr>errorName = ''HttpError'', errorStatus = StatusNumber ''503'',
      stringified = ''HttpError: Service Unavailable''\<rparr>"

definition exampleContainer :: Container where
  "exampleContainer = \<lparr>storage = (\<lambda>key. None), telemetryEnabled = False, madeCalls = []\<rparr>"

definition exampleContext :: "LaunchpadCategorizedResult \<Rightarrow> Context" where
  "exampleContext r =
     \<lparr>result = r, wizardTitle = ''GitLens Launchpad'',
      collapsed = [(''draft'', True), (''other'', True), (''snoozed'', True)],
      telemetryContext = None, connectedIntegrations = [(GitHub, True)]\<rparr>"

definition exampleState :: State where
  "exampleState =
     \<lparr>item = None, action = None, initialGroup = None, selectTopItem = None, counter = 0,
      confirm = None\<rparr>"

text \<open>
  A wizard whose pick step lists one row, and in whose quick pick the user has typed
  the given text.
\<close>

definition exampleWizard :: "LaunchpadCategorizedResult \<Rightarrow> string \<Rightarrow> Wizard" where
  "exampleWizard r typed =
     \<lparr>container = exampleContainer, commandSource = ''commandPalette'',
      commandTelemetryContext = None, wizardState = exampleState,
      wizardContext = exampleContext r, opened = True, stepPicked = None,
      stepSelectTopItem = None, stepItems = [LaunchpadEntry exampleRow],
      quickpick = \<lparr>qpItems = [LaunchpadEntry exampleRow],
                    placeholder = Some ''Choose an item, type a term to search, or paste in a PR URL'',
                    busy = False, qpValue = typed\<rparr>,
      confirmBusy = False\<rparr>"

definition plainError :: JsError where
  "plainError = \<lparr>errorName = ''Error'', errorStatus = StatusAbsent, stringified = ''Error: offline''\<rparr>"

text \<open>
  A command opened from the Launchpad indicator, over a storage that holds one other
  key; the heading of the group \<open>mergeable\<close>, not collapsed; and a run in which the
  provider answers with one item, the pick step opens and the user selects that
  heading.
\<close>

definition indicatorArgs :: LaunchpadCommandArgs where
  "indicatorArgs = \<lparr>argConfirm = None, argSource = Some ''launchpad-indicator'', argState = None\<rparr>"

definition otherStorage :: Container where
  "otherStorage =
     \<lparr>storage = (\<lambda>key. if key = ''gitlens:version'' then Some (StoredString ''16'') else None),
      telemetryEnabled = False, madeCalls = []\<rparr>"

definition exampleHeading :: QuickPickEntry where
  "exampleHeading =
     DirectiveEntry
       (createDirectiveQuickPickItem Reload (Some False)
          (noOptions\<lparr>optLabel := Some (GroupHeading False ''mergeable''),
                     optOnDidSelect := Some (ToggleGroup ''mergeable'')\<rparr>))"

definition exampleEvents :: "WizardEvent list" where
  "exampleEvents =
     [RefreshContext False (Items [exampleItem] None) [(GitHub, True)],
      OpenPickStep,
      EntrySelected exampleHeading]"

definition exampleRun :: "LaunchpadCommandArgs \<Rightarrow> Outcome" where
  "exampleRun args =
     runEvents exampleProvider exampleEvents
       (beginSteps exampleProvider [(GitHub, True)] ''GitLens Launchpad''
          (newLaunchpadCommand otherStorage (Some args) ''2024-11-02T10:00:00.000Z'' 1))"

text \<open>The example wizard, opened with the initial group \<open>mergeable\<close>.\<close>

definition exampleWizardWithInitialGroup :: Wizard where
  "exampleWizardWithInitialGroup =
     (exampleWizard (Items [exampleItem] None) [])
       \<lparr>wizardState := exampleState\<lparr>initialGroup := Some ''mergeable''\<rparr>\<rparr>"

definition initialGroupArgs :: LaunchpadCommandArgs where
  "initialGroupArgs =
     \<lparr>argConfirm = None, argSource = None,
      argState = Some \<lparr>argItem = None, argAction = None, argInitialGroup = Some ''blocked'',
                       argSelectTopItem = None\<rparr>\<rparr>"

text \<open>
  A run from the start of the command: the provider first answers with one item, the
  pick step opens, the user types \<open>fix\<close>, and the debounced search comes back, not
  cancelled, with the given answer.
\<close>

definition searchRun :: "LaunchpadCategorizedResult \<Rightarrow> Outcome" where
  "searchRun answer =
     runEvents exampleProvider
       [RefreshContext False (Items [exampleItem] None) [(GitHub, True)],
        OpenPickStep,
        ValueChanged ''fix'' (Ran answer [(GitHub, True)] False)]
       (beginSteps exampleProvider [(GitHub, True)] ''GitLens Launchpad''
          (newLaunchpadCommand exampleContainer None ''2024-11-02T10:00:00.000Z'' 1))"

text \<open>
  A storage whose list of collapsed groups holds \<open>legacy-group\<close>, which is not a
  member of the example provider's \<open>launchpadGroups\<close>, and the runs of a command
  opened over it from the command palette.
\<close>

definition legacyStorage :: Container where
  "legacyStorage =
     \<lparr>storage = (\<lambda>key. if key = ''launchpad:groups:collapsed''
                          then Some (StoredGroups [''legacy-group'', ''draft'']) else None),
      telemetryEnabled = False, madeCalls = []\<rparr>"

definition legacyRun :: "WizardEvent list \<Rightarrow> Outcome" where
  "legacyRun evs =
     runEvents exampleProvider evs
       (beginSteps exampleProvider [(GitHub, True)] ''GitLens Launchpad''
          (newLaunchpadCommand legacyStorage None ''2024-11-02T10:00:00.000Z'' 1))"

text \<open>
  An open pick step in time. The user types \<open>f\<close>; 500 milliseconds later the
  callback of that search starts, and its awaits take 101 milliseconds; 100
  milliseconds after the start the user has typed \<open>fix\<close>. \<open>timedRunLater\<close> is the
  same pick step some milliseconds later.
\<close>

definition timedEvents :: "TimedEvent list" where
  "timedEvents =
     Pick (TypedValue ''f'') (Items [] None) [(GitHub, True)] 101
     # replicate 600 Tick
     @ [Pick (TypedValue ''fix'') (Failed exampleError) [(GitHub, True)] 100]"

definition timedRun :: TimedOutcome where
  "timedRun =
     runTimed exampleProvider timedEvents
       (Ticking (openTimed 0 (exampleWizard (Items [exampleItem] None) [])))"

definition timedState :: Timed where
  "timedState =
     (case timedRun of
        Ticking s \<Rightarrow> s
      | Stopped m k \<Rightarrow> openTimed 0 (exampleWizard (Items [exampleItem] None) []))"

definition timedRunLater :: "nat \<Rightarrow> TimedOutcome" where
  "timedRunLater ms =
     runTimed exampleProvider (timedEvents @ replicate ms Tick)
       (Ticking (openTimed 0 (exampleWizard (Items [exampleItem] None) [])))"

text \<open>
  Another one: the user types \<open>f\<close> and nothing else for 500 milliseconds, and the
  provider answers at once, with an error.
\<close>

definition lastingRun :: TimedOutcome where
  "lastingRun =
     runTimed exampleProvider
       (Pick (TypedValue ''f'') (Failed exampleError) [(GitHub, True)] 0 # replicate 500 Tick)
       (Ticking (openTimed 0 (exampleWizard (Items [exampleItem] None) [])))"

text \<open>
  Of a timed outcome: the clock, the number of operations on the debouncer, the timer,
  of each callback under way the search, the time and the number of the call, the
  time of the start and the token, and the placeholder and the items that the quick
  pick shows.
\<close>

fun timedView ::
  "TimedOutcome
     \<Rightarrow> nat \<times> nat \<times> (nat \<times> string) option \<times> (string \<times> nat \<times> nat \<times> nat \<times> nat) list
       \<times> string option \<times> QuickPickEntry list" where
  "timedView (Ticking s) =
     (clock s, operations s, timerOf (Ticking s),
      map (\<lambda>c. (refreshSearch (startedRefresh c), requestedAt (startedRefresh c),
                 operationNumber (startedRefresh c), startedAt c, token c))
          (started s),
      placeholder (quickpick (picker s)), qpItems (quickpick (picker s)))"
| "timedView (Stopped m k) = (0, 0, None, [], None, [])"

section \<open>Properties of the grouped SCM view\<close>

lemma typeOfClass_classOfType: "typeOfClass (classOfType t) = t"
  by (cases t) simp_all

lemma viewType_newView: "viewType (newView s (classOfType t)) = t"
  by (simp add: viewType_def newView_def typeOfClass_classOfType)

lemma effectiveType_not_included:
  "t \<notin> set inc \<Longrightarrow> effectiveType inc (Some t) = firstIncluded inc"
  by (simp add: effectiveType_def)

lemma effectiveType_included:
  "t \<in> set inc \<Longrightarrow> effectiveType inc (Some t) = Some t"
  by (simp add: effectiveType_def)

lemma firstIncluded_hd: "inc \<noteq> [] \<Longrightarrow> firstIncluded inc = Some (hd inc)"
  by (cases inc) simp_all

lemma effectiveType_first:
  "inc \<noteq> [] \<Longrightarrow> effectiveType inc (Some (hd inc)) = Some (hd inc)"
  by (cases inc) (simp_all add: effectiveType_def)

lemma setView_depends_on_effectiveType:
  "effectiveType (included s) t = effectiveType (included s) t' \<Longrightarrow> setView s t = setView s t'"
  by (simp add: setView_def)

lemma setView_lastSelected:
  "lastSelectedScmGroupedView (snd (setView s t)) = effectiveType (included s) t"
  by (cases "effectiveType (included s) t")
     (simp_all add: setView_def Let_def disposeHeld_def split: option.splits)

lemma setView_view_returned: "view (snd (setView s t)) = fst (setView s t)"
  by (simp add: setView_def Let_def)

lemma setView_returned_type:
  "map_option viewType (fst (setView s t)) = effectiveType (included s) t"
  by (cases "effectiveType (included s) t")
     (auto simp: setView_def Let_def viewType_newView)

lemma setView_included: "included (snd (setView s t)) = included s"
  by (cases "effectiveType (included s) t")
     (simp_all add: setView_def Let_def disposeHeld_def split: option.splits)

lemma setView_changed_calls:
  "map_option viewType (view s) \<noteq> effectiveType (included s) t \<Longrightarrow>
   calls (snd (setView s t)) =
     calls s @ [SetContext (effectiveType (included s) t)]
       @ (case view s of None \<Rightarrow> [] | Some v \<Rightarrow> [DisposeView v])
       @ (case effectiveType (included s) t of
            None \<Rightarrow> []
          | Some ty \<Rightarrow>
              [ConstructView \<lparr>viewClass = classOfType ty, grouped = True,
                              objectId = nextObjectId s\<rparr>])"
  by (cases "effectiveType (included s) t"; cases "view s")
     (simp_all add: setView_def Let_def disposeHeld_def newView_def)

lemma setView_shown:
  "map_option viewType (view s) = effectiveType (included s) t \<Longrightarrow>
   setView s t = (view s, s\<lparr>lastSelectedScmGroupedView := effectiveType (included s) t\<rparr>)"
  by (simp add: setView_def Let_def)

text \<open>
  Claim C1. When the requested tag \<open>t\<close> is not in \<open>included\<close> and \<open>included\<close> is
  not empty, \<open>setView\<close> does exactly what it does for the first element of
  \<open>included\<close>: the whole result (the returned view and the new state, with the calls
  made) is the same; that first tag is stored in \<open>lastSelectedScmGroupedView\<close>; and the
  view returned, which is the view held afterwards, is of that first type.
\<close>

theorem setView_disallowed_falls_back:
  assumes "included s \<noteq> []" and "t \<notin> set (included s)"
  shows "setView s (Some t) = setView s (Some (hd (included s)))
       \<and> lastSelectedScmGroupedView (snd (setView s (Some t))) = Some (hd (included s))
       \<and> map_option viewType (fst (setView s (Some t))) = Some (hd (included s))
       \<and> view (snd (setView s (Some t))) = fst (setView s (Some t))"
proof -
  have eff: "effectiveType (included s) (Some t) = Some (hd (included s))"
    using assms by (simp add: effectiveType_not_included firstIncluded_hd)
  have "effectiveType (included s) (Some t) = effectiveType (included s) (Some (hd (included s)))"
    using assms(1) eff by (simp add: effectiveType_first)
  then have "setView s (Some t) = setView s (Some (hd (included s)))"
    by (rule setView_depends_on_effectiveType)
  moreover have "lastSelectedScmGroupedView (snd (setView s (Some t))) = Some (hd (included s))"
    using eff by (simp add: setView_lastSelected)
  moreover have "map_option viewType (fst (setView s (Some t))) = Some (hd (included s))"
    using eff by (simp add: setView_returned_type)
  ultimately show ?thesis
    by (simp add: setView_view_returned)
qed

theorem setView_disallowed_falls_back_witness:
  "setView (exampleView BranchesView) (Some tags) = setView (exampleView BranchesView) (Some commits)
   \<and> lastSelectedScmGroupedView (snd (setView (exampleView BranchesView) (Some tags))) = Some commits
   \<and> map_option viewType (fst (setView (exampleView BranchesView) (Some tags))) = Some commits
   \<and> calls (snd (setView (exampleView BranchesView) (Some tags))) =
       [SetContext (Some commits),
        DisposeView \<lparr>viewClass = BranchesView, grouped = True, objectId = 0\<rparr>,
        ConstructView \<lparr>viewClass = CommitsView, grouped = True, objectId = 1\<rparr>]"
proof -
  have inc: "included (exampleView BranchesView) \<noteq> []"
    by (simp add: exampleView_def)
  have notin: "tags \<notin> set (included (exampleView BranchesView))"
    by (simp add: exampleView_def)
  have hd: "hd (included (exampleView BranchesView)) = commits"
    by (simp add: exampleView_def)
  have c: "calls (snd (setView (exampleView BranchesView) (Some tags))) =
       [SetContext (Some commits),
        DisposeView \<lparr>viewClass = BranchesView, grouped = True, objectId = 0\<rparr>,
        ConstructView \<lparr>viewClass = CommitsView, grouped = True, objectId = 1\<rparr>]"
    by (simp add: exampleView_def setView_def effectiveType_def viewType_def
          disposeHeld_def newView_def Let_def)
  note fallback = setView_disallowed_falls_back [OF inc notin, unfolded hd]
  show ?thesis
    using fallback c by blast
qed

text \<open>
  Claim C3. \<open>getView\<close> maps each of the nine tags to the constructor of its own view
  class (called with \<open>grouped = true\<close>, giving a fresh object). On every call,
  \<open>setView\<close> stores the tag it settled on in \<open>views.lastSelectedScmGroupedView\<close>:
  the requested tag when it is in \<open>included\<close>, the first element of \<open>included\<close>
  otherwise. On every call that changes the shown view (the held view is not of the
  tag settled on), the calls made are, in this order: \<open>setContext\<close>, \<open>dispose()\<close>
  of the view held before (when there is one), and the construction of the new view.
\<close>

theorem setView_switches_disposes_persists:
  "classOfType branches = BranchesView \<and> classOfType commits = CommitsView
   \<and> classOfType contributors = ContributorsView \<and> classOfType remotes = RemotesView
   \<and> classOfType repositories = RepositoriesView
   \<and> classOfType searchAndCompare = SearchAndCompareView
   \<and> classOfType stashes = StashesView \<and> classOfType tags = TagsView
   \<and> classOfType worktrees = WorktreesView
   \<and> fst (getView s (Some ty)) =
         Some \<lparr>viewClass = classOfType ty, grouped = True, objectId = nextObjectId s\<rparr>
   \<and> lastSelectedScmGroupedView (snd (setView s t)) = effectiveType (included s) t
   \<and> (ty \<in> set (included s) \<longrightarrow>
         lastSelectedScmGroupedView (snd (setView s (Some ty))) = Some ty)
   \<and> (map_option viewType (view s) \<noteq> effectiveType (included s) t \<longrightarrow>
         view (snd (setView s t)) = fst (getView s (effectiveType (included s) t))
       \<and> calls (snd (setView s t)) =
           calls s @ [SetContext (effectiveType (included s) t)]
             @ (case view s of None \<Rightarrow> [] | Some v \<Rightarrow> [DisposeView v])
             @ (case effectiveType (included s) t of
                  None \<Rightarrow> []
                | Some ty' \<Rightarrow>
                    [ConstructView \<lparr>viewClass = classOfType ty', grouped = True,
                                    objectId = nextObjectId s\<rparr>]))"
proof -
  have a: "fst (getView s (Some ty)) =
         Some \<lparr>viewClass = classOfType ty, grouped = True, objectId = nextObjectId s\<rparr>"
    by (simp add: newView_def)
  have b: "ty \<in> set (included s) \<longrightarrow>
         lastSelectedScmGroupedView (snd (setView s (Some ty))) = Some ty"
    by (simp add: setView_lastSelected effectiveType_included)
  have c: "map_option viewType (view s) \<noteq> effectiveType (included s) t \<longrightarrow>
         view (snd (setView s t)) = fst (getView s (effectiveType (included s) t))"
    by (cases "effectiveType (included s) t"; cases "view s")
       (simp_all add: setView_def Let_def disposeHeld_def newView_def)
  show ?thesis
    using a b c setView_changed_calls [of s t] by (simp add: setView_lastSelected)
qed

theorem setView_switches_disposes_persists_witness:
  "lastSelectedScmGroupedView (snd (setView (exampleView CommitsView) (Some branches))) = Some branches
   \<and> view (snd (setView (exampleView CommitsView) (Some branches))) =
       Some \<lparr>viewClass = BranchesView, grouped = True, objectId = 1\<rparr>
   \<and> calls (snd (setView (exampleView CommitsView) (Some branches))) =
       [SetContext (Some branches),
        DisposeView \<lparr>viewClass = CommitsView, grouped = True, objectId = 0\<rparr>,
        ConstructView \<lparr>viewClass = BranchesView, grouped = True, objectId = 1\<rparr>]"
proof -
  have inc: "branches \<in> set (included (exampleView CommitsView))"
    by (simp add: exampleView_def)
  have eff: "effectiveType (included (exampleView CommitsView)) (Some branches) = Some branches"
    by (simp add: exampleView_def effectiveType_def)
  have changes: "map_option viewType (view (exampleView CommitsView))
                  \<noteq> effectiveType (included (exampleView CommitsView)) (Some branches)"
    by (simp add: exampleView_def effectiveType_def viewType_def)
  have held: "view (exampleView CommitsView) = Some \<lparr>viewClass = CommitsView, grouped = True, objectId = 0\<rparr>"
             "calls (exampleView CommitsView) = []" "nextObjectId (exampleView CommitsView) = 1"
    by (simp_all add: exampleView_def)
  show ?thesis
    using setView_switches_disposes_persists [of "exampleView CommitsView" branches "Some branches"]
      inc eff changes held
    by (simp add: newView_def)
qed

text \<open>
  Claim C8. When the view held is already of the tag that \<open>setView\<close> settles on
  (after the fallback), the call returns that same view object and changes nothing
  but \<open>lastSelectedScmGroupedView\<close>, which is written again: no call is made, so the
  view is not disposed and none is constructed. Hence a second \<open>setView\<close> with the
  same tag, right after a first one, returns the first call's view and leaves the
  state as the first call left it.
\<close>

theorem setView_shown_type_idempotent:
  "(view s = Some v \<and> effectiveType (included s) t = Some (viewType v) \<longrightarrow>
      setView s t = (Some v, s\<lparr>lastSelectedScmGroupedView := Some (viewType v)\<rparr>)
    \<and> calls (snd (setView s t)) = calls s
    \<and> nextObjectId (snd (setView s t)) = nextObjectId s
    \<and> lastSelectedScmGroupedView (snd (setView s t)) = Some (viewType v))
   \<and> setView (snd (setView s t)) t = setView s t"
proof -
  have first: "view s = Some v \<and> effectiveType (included s) t = Some (viewType v) \<longrightarrow>
      setView s t = (Some v, s\<lparr>lastSelectedScmGroupedView := Some (viewType v)\<rparr>)"
    by (simp add: setView_def Let_def)
  let ?s' = "snd (setView s t)"
  have "map_option viewType (view ?s') = effectiveType (included ?s') t"
    by (simp add: setView_view_returned setView_returned_type setView_included)
  then have "setView ?s' t =
      (view ?s', ?s'\<lparr>lastSelectedScmGroupedView := effectiveType (included ?s') t\<rparr>)"
    by (rule setView_shown)
  moreover have "effectiveType (included ?s') t = lastSelectedScmGroupedView ?s'"
    by (simp add: setView_lastSelected setView_included)
  ultimately have "setView ?s' t = (fst (setView s t), ?s')"
    by (simp add: setView_view_returned)
  then have second: "setView ?s' t = setView s t"
    by simp
  show ?thesis
    using first second by auto
qed

theorem setView_shown_type_idempotent_witness:
  "setView (exampleView CommitsView) (Some tags) =
     (Some \<lparr>viewClass = CommitsView, grouped = True, objectId = 0\<rparr>, exampleView CommitsView)
   \<and> calls (snd (setView (exampleView CommitsView) (Some tags))) = []"
proof -
  have held: "view (exampleView CommitsView) = Some \<lparr>viewClass = CommitsView, grouped = True, objectId = 0\<rparr>"
    by (simp add: exampleView_def)
  have eff: "effectiveType (included (exampleView CommitsView)) (Some tags)
               = Some (viewType \<lparr>viewClass = CommitsView, grouped = True, objectId = 0\<rparr>)"
    by (simp add: exampleView_def effectiveType_def viewType_def)
  have same: "(exampleView CommitsView)\<lparr>lastSelectedScmGroupedView :=
                 Some (viewType \<lparr>viewClass = CommitsView, grouped = True, objectId = 0\<rparr>)\<rparr>
               = exampleView CommitsView"
    by (simp add: exampleView_def viewType_def)
  have nocalls: "calls (exampleView CommitsView) = []"
    by (simp add: exampleView_def)
  show ?thesis
    using setView_shown_type_idempotent
            [of "exampleView CommitsView" "\<lparr>viewClass = CommitsView, grouped = True, objectId = 0\<rparr>" "Some tags"]
          held eff same nocalls
    by simp
qed

section \<open>Properties of the item-pick step\<close>

lemma result_updateTelemetryContext: "result (updateTelemetryContext P c) = result c"
  by (simp add: updateTelemetryContext_def Let_def
        split: option.splits LaunchpadCategorizedResult.splits)

lemma collapsed_updateTelemetryContext: "collapsed (updateTelemetryContext P c) = collapsed c"
  by (simp add: updateTelemetryContext_def Let_def
        split: option.splits LaunchpadCategorizedResult.splits)

lemma result_updateContextItems:
  "result (wizardContext (updateContextItems P opts fetched conn w)) = fetched"
  by (simp add: updateContextItems_def Let_def result_updateTelemetryContext)

lemma collapsed_updateContextItems:
  "collapsed (wizardContext (updateContextItems P opts fetched conn w)) = collapsed (wizardContext w)"
  by (simp add: updateContextItems_def Let_def collapsed_updateTelemetryContext)

lemma quickpick_updateContextItems:
  "quickpick (updateContextItems P opts fetched conn w) = quickpick w"
  by (simp add: updateContextItems_def Let_def)

lemma getItemsAndPlaceholder_Failed:
  "result c = Failed e \<Longrightarrow>
   getItemsAndPlaceholder P c pk sel s = (''Unable to load items ('' @ errorText e @ '')'', [okItem])"
  by (simp add: getItemsAndPlaceholder_def)

lemma getItemsAndPlaceholder_empty:
  "result c = Items [] t \<Longrightarrow>
   getItemsAndPlaceholder P c pk sel s = (''All done! Take a vacation'', [okItem])"
  by (simp add: getItemsAndPlaceholder_def)

lemma entryItemId_okItem: "entryItemId okItem = None"
  by (simp add: okItem_def)

lemma combine_okItem: "combineQuickpickItemsWithSearchResults arr [okItem] = arr"
  by (simp add: combineQuickpickItemsWithSearchResults_def entryItemId_okItem)

lemma okItem_fields:
  "okItem = DirectiveEntry \<lparr>directive = Cancel, directivePicked = None,
              directiveLabel = Some (Literal ''OK''), directiveDetail = None,
              directiveIcon = None, onDidSelect = None\<rparr>"
  by (simp add: okItem_def createDirectiveQuickPickItem_def noOptions_def)

text \<open>What a refresh whose request was not cancelled leaves in the quick pick.\<close>

lemma quickpick_updateItems_Ran:
  "quickpick (updateItems P (Ran fetched conn False) w) =
     (let c = wizardContext (updateContextItems P \<lparr>force = True, search = Some (qpValue (quickpick w))\<rparr>
                               fetched conn (w\<lparr>quickpick := (quickpick w)\<lparr>busy := True\<rparr>\<rparr>));
          ip = getItemsAndPlaceholder P c (stepPicked w) (stepSelectTopItem w)
                 (Some (qpValue (quickpick w) \<noteq> []))
      in (quickpick w)
           \<lparr>placeholder := Some (fst ip),
            qpItems := (if qpValue (quickpick w) \<noteq> []
                        then combineQuickpickItemsWithSearchResults (qpItems (quickpick w)) (snd ip)
                        else snd ip),
            busy := False\<rparr>)"
  by (simp add: updateItems_def Let_def updateContextItems_def)

lemma quickpick_updateItems_cancelled:
  "quickpick (updateItems P (Ran fetched conn True) w) = (quickpick w)\<lparr>busy := False\<rparr>"
  by (simp add: updateItems_def Let_def updateContextItems_def)

lemma quickpick_updateItems_NotRun:
  "quickpick (updateItems P NotRun w) = (quickpick w)\<lparr>busy := False\<rparr>"
  by (simp add: updateItems_def Let_def)

lemma quickpick_updateItems_Failed:
  "quickpick (updateItems P (Ran (Failed e) conn False) w) =
     (quickpick w)
       \<lparr>placeholder := Some (''Unable to load items ('' @ errorText e @ '')''),
        qpItems := (if qpValue (quickpick w) \<noteq> [] then qpItems (quickpick w) else [okItem]),
        busy := False\<rparr>"
  by (simp add: quickpick_updateItems_Ran Let_def getItemsAndPlaceholder_Failed
        result_updateContextItems combine_okItem)

lemma quickpick_updateItems_empty:
  "quickpick (updateItems P (Ran (Items [] t) conn False) w) =
     (quickpick w)
       \<lparr>placeholder := Some ''All done! Take a vacation'',
        qpItems := (if qpValue (quickpick w) \<noteq> [] then qpItems (quickpick w) else [okItem]),
        busy := False\<rparr>"
  by (simp add: quickpick_updateItems_Ran Let_def getItemsAndPlaceholder_empty
        result_updateContextItems combine_okItem)

lemma errorText_exampleError: "errorText exampleError = ''503: HttpError: Service Unavailable''"
  by (simp add: errorText_def exampleError_def)

lemma quickpick_createLaunchpadPickStep:
  "quickpick (createLaunchpadPickStep P pk sel w) =
     \<lparr>qpItems = snd (getItemsAndPlaceholder P (wizardContext w) pk sel None),
      placeholder = Some (fst (getItemsAndPlaceholder P (wizardContext w) pk sel None)),
      busy = False, qpValue = []\<rparr>"
  by (simp add: createLaunchpadPickStep_def Let_def)

text \<open>
  Claim C2, amended. Whenever the current result carries an error,
  \<open>getItemsAndPlaceholder\<close> returns the placeholder \<open>Unable to load items (...)\<close>,
  the parentheses holding \<open>String(error)\<close>, prefixed with the status (the text that
  the template literal gives for the number) and a colon for an error named
  \<open>HttpError\<close> with a numeric \<open>status\<close>, and the list of exactly one \<open>Cancel\<close>
  directive item labelled \<open>OK\<close>. The quick pick shows exactly that pair
  when the step is created and after a refresh while no search text is typed. After a
  refresh while a search text is typed, it shows the placeholder, and its list of
  items is the list it showed before: the \<open>OK\<close> item has no \<open>item\<close>, so
  \<open>combineQuickpickItemsWithSearchResults\<close> does not append it.
\<close>

theorem error_placeholder_and_ok_item:
  "(result c = Failed e \<longrightarrow>
      getItemsAndPlaceholder P c pk sel s =
        (''Unable to load items ('' @ errorText e @ '')'', [okItem]))
   \<and> (errorName e = ''HttpError'' \<and> errorStatus e = StatusNumber written \<longrightarrow>
        errorText e = written @ '': '' @ stringified e)
   \<and> (errorName e \<noteq> ''HttpError'' \<longrightarrow> errorText e = stringified e)
   \<and> (errorStatus e = StatusAbsent \<or> errorStatus e = StatusOfOtherType \<longrightarrow>
        errorText e = stringified e)
   \<and> okItem = DirectiveEntry \<lparr>directive = Cancel, directivePicked = None,
                 directiveLabel = Some (Literal ''OK''), directiveDetail = None,
                 directiveIcon = None, onDidSelect = None\<rparr>
   \<and> (result (wizardContext w) = Failed e \<longrightarrow>
        quickpick (createLaunchpadPickStep P pk sel w) =
          \<lparr>qpItems = [okItem],
           placeholder = Some (''Unable to load items ('' @ errorText e @ '')''),
           busy = False, qpValue = []\<rparr>)
   \<and> (qpValue (quickpick w) = [] \<longrightarrow>
        qpItems (quickpick (updateItems P (Ran (Failed e) conn False) w)) = [okItem]
        \<and> placeholder (quickpick (updateItems P (Ran (Failed e) conn False) w)) =
            Some (''Unable to load items ('' @ errorText e @ '')''))
   \<and> (qpValue (quickpick w) \<noteq> [] \<longrightarrow>
        qpItems (quickpick (updateItems P (Ran (Failed e) conn False) w)) = qpItems (quickpick w)
        \<and> placeholder (quickpick (updateItems P (Ran (Failed e) conn False) w)) =
            Some (''Unable to load items ('' @ errorText e @ '')''))"
proof -
  have a: "result c = Failed e \<longrightarrow>
      getItemsAndPlaceholder P c pk sel s =
        (''Unable to load items ('' @ errorText e @ '')'', [okItem])"
    by (simp add: getItemsAndPlaceholder_Failed)
  have b: "errorName e = ''HttpError'' \<and> errorStatus e = StatusNumber written \<longrightarrow>
        errorText e = written @ '': '' @ stringified e"
    by (simp add: errorText_def)
  have c: "errorName e \<noteq> ''HttpError'' \<longrightarrow> errorText e = stringified e"
    by (simp add: errorText_def)
  have d: "errorStatus e = StatusAbsent \<or> errorStatus e = StatusOfOtherType \<longrightarrow>
        errorText e = stringified e"
    by (auto simp: errorText_def)
  have f: "result (wizardContext w) = Failed e \<longrightarrow>
        quickpick (createLaunchpadPickStep P pk sel w) =
          \<lparr>qpItems = [okItem],
           placeholder = Some (''Unable to load items ('' @ errorText e @ '')''),
           busy = False, qpValue = []\<rparr>"
    by (simp add: quickpick_createLaunchpadPickStep getItemsAndPlaceholder_Failed)
  have g: "qpValue (quickpick w) = [] \<longrightarrow>
        qpItems (quickpick (updateItems P (Ran (Failed e) conn False) w)) = [okItem]
        \<and> placeholder (quickpick (updateItems P (Ran (Failed e) conn False) w)) =
            Some (''Unable to load items ('' @ errorText e @ '')'')"
    by (simp add: quickpick_updateItems_Failed)
  have h: "qpValue (quickpick w) \<noteq> [] \<longrightarrow>
        qpItems (quickpick (updateItems P (Ran (Failed e) conn False) w)) = qpItems (quickpick w)
        \<and> placeholder (quickpick (updateItems P (Ran (Failed e) conn False) w)) =
            Some (''Unable to load items ('' @ errorText e @ '')'')"
    by (simp add: quickpick_updateItems_Failed)
  from a b c d okItem_fields f g h show ?thesis
    by blast
qed

theorem error_placeholder_and_ok_item_witness:
  "getItemsAndPlaceholder exampleProvider (exampleContext (Failed exampleError)) None None None =
     (''Unable to load items (503: HttpError: Service Unavailable)'', [okItem])
   \<and> errorText plainError = ''Error: offline''
   \<and> quickpick (createLaunchpadPickStep exampleProvider None None
                  (exampleWizard (Failed exampleError) [])) =
        \<lparr>qpItems = [okItem],
         placeholder = Some ''Unable to load items (503: HttpError: Service Unavailable)'',
         busy = False, qpValue = []\<rparr>
   \<and> qpItems (quickpick (updateItems exampleProvider (Ran (Failed exampleError) [] False)
                 (exampleWizard (Items [exampleItem] None) []))) = [okItem]
   \<and> qpItems (quickpick (updateItems exampleProvider (Ran (Failed exampleError) [] False)
                 (exampleWizard (Items [exampleItem] None) ''fix''))) = [LaunchpadEntry exampleRow]"
proof -
  note t1 = error_placeholder_and_ok_item
              [of "exampleContext (Failed exampleError)" exampleError exampleProvider None None None
                  "''503''" "exampleWizard (Failed exampleError) []" "[]"]
  note t2 = error_placeholder_and_ok_item
              [of "exampleContext (Failed plainError)" plainError exampleProvider None None None
                  "[]" "exampleWizard (Items [exampleItem] None) ''fix''" "[]"]
  note t3 = error_placeholder_and_ok_item
              [of "exampleContext (Failed exampleError)" exampleError exampleProvider None None None
                  "''503''" "exampleWizard (Items [exampleItem] None) []" "[]"]
  note t4 = error_placeholder_and_ok_item
              [of "exampleContext (Failed exampleError)" exampleError exampleProvider None None None
                  "''503''" "exampleWizard (Items [exampleItem] None) ''fix''" "[]"]
  have r: "result (exampleContext (Failed exampleError)) = Failed exampleError"
    by (simp add: exampleContext_def)
  have rw: "result (wizardContext (exampleWizard (Failed exampleError) [])) = Failed exampleError"
    by (simp add: exampleWizard_def exampleContext_def)
  have http: "errorName exampleError = ''HttpError'' \<and> errorStatus exampleError = StatusNumber ''503''"
    by (simp add: exampleError_def)
  have plain: "errorName plainError \<noteq> ''HttpError''" "errorStatus plainError = StatusAbsent"
              "stringified plainError = ''Error: offline''"
    by (simp_all add: plainError_def)
  have v0: "qpValue (quickpick (exampleWizard (Items [exampleItem] None) [])) = []"
    by (simp add: exampleWizard_def)
  have v1: "qpValue (quickpick (exampleWizard (Items [exampleItem] None) ''fix'')) \<noteq> []"
           "qpItems (quickpick (exampleWizard (Items [exampleItem] None) ''fix'')) = [LaunchpadEntry exampleRow]"
    by (simp_all add: exampleWizard_def)
  have c1: "getItemsAndPlaceholder exampleProvider (exampleContext (Failed exampleError)) None None None =
     (''Unable to load items (503: HttpError: Service Unavailable)'', [okItem])"
    using t1 r errorText_exampleError by simp
  have c2: "errorText plainError = ''Error: offline''"
    using t2 plain by simp
  have c3: "quickpick (createLaunchpadPickStep exampleProvider None None
                  (exampleWizard (Failed exampleError) [])) =
        \<lparr>qpItems = [okItem],
         placeholder = Some ''Unable to load items (503: HttpError: Service Unavailable)'',
         busy = False, qpValue = []\<rparr>"
    using t1 rw errorText_exampleError by simp
  have c4: "qpItems (quickpick (updateItems exampleProvider (Ran (Failed exampleError) [] False)
                 (exampleWizard (Items [exampleItem] None) []))) = [okItem]"
    using t3 v0 by blast
  have c5: "qpItems (quickpick (updateItems exampleProvider (Ran (Failed exampleError) [] False)
                 (exampleWizard (Items [exampleItem] None) ''fix''))) = [LaunchpadEntry exampleRow]"
    using t4 v1 by simp
  from c1 c2 c3 c4 c5 show ?thesis
    by blast
qed

text \<open>
  The claim as first stated fails after a search. In the run \<open>searchRun\<close>, from the
  start of the command, the step lists the row of one item, the user types \<open>fix\<close>,
  and the search fails: the context holds the error and the quick pick shows the
  error placeholder over a list that holds the row of the pull request and no
  \<open>OK\<close> item.
\<close>

theorem error_on_search_keeps_rows:
  "heldResult (searchRun (Failed exampleError)) = Some (Failed exampleError)
   \<and> fst (shown (searchRun (Failed exampleError))) =
       Some ''Unable to load items (503: HttpError: Service Unavailable)''
   \<and> LaunchpadEntry exampleRow \<in> set (snd (shown (searchRun (Failed exampleError))))
   \<and> okItem \<notin> set (snd (shown (searchRun (Failed exampleError))))
   \<and> snd (shown (searchRun (Failed exampleError))) \<noteq> [okItem]"
  by code_simp

text \<open>
  Claim C9, amended. For every result with no error and an empty list of items,
  \<open>getItemsAndPlaceholder\<close> returns the placeholder \<open>All done! Take a vacation\<close>,
  which no error result gives, and the list of exactly one \<open>Cancel\<close> directive item
  labelled \<open>OK\<close>. The quick pick shows exactly that pair when the step is created
  and after a refresh while no search text is typed; after a refresh while a search
  text is typed, it shows the placeholder over the list of items it showed before.
\<close>

theorem empty_placeholder_and_ok_item:
  "(result c = Items [] t \<longrightarrow>
      getItemsAndPlaceholder P c pk sel s = (''All done! Take a vacation'', [okItem]))
   \<and> (result c = Failed e \<longrightarrow>
        fst (getItemsAndPlaceholder P c pk sel s) \<noteq> ''All done! Take a vacation'')
   \<and> okItem = DirectiveEntry \<lparr>directive = Cancel, directivePicked = None,
                 directiveLabel = Some (Literal ''OK''), directiveDetail = None,
                 directiveIcon = None, onDidSelect = None\<rparr>
   \<and> (result (wizardContext w) = Items [] t \<longrightarrow>
        quickpick (createLaunchpadPickStep P pk sel w) =
          \<lparr>qpItems = [okItem], placeholder = Some ''All done! Take a vacation'',
           busy = False, qpValue = []\<rparr>)
   \<and> (qpValue (quickpick w) = [] \<longrightarrow>
        qpItems (quickpick (updateItems P (Ran (Items [] t) conn False) w)) = [okItem]
        \<and> placeholder (quickpick (updateItems P (Ran (Items [] t) conn False) w)) =
            Some ''All done! Take a vacation'')
   \<and> (qpValue (quickpick w) \<noteq> [] \<longrightarrow>
        qpItems (quickpick (updateItems P (Ran (Items [] t) conn False) w)) = qpItems (quickpick w)
        \<and> placeholder (quickpick (updateItems P (Ran (Items [] t) conn False) w)) =
            Some ''All done! Take a vacation'')"
proof -
  have a: "result c = Items [] t \<longrightarrow>
      getItemsAndPlaceholder P c pk sel s = (''All done! Take a vacation'', [okItem])"
    by (simp add: getItemsAndPlaceholder_empty)
  have b: "result c = Failed e \<longrightarrow>
        fst (getItemsAndPlaceholder P c pk sel s) \<noteq> ''All done! Take a vacation''"
    by (simp add: getItemsAndPlaceholder_Failed)
  have f: "result (wizardContext w) = Items [] t \<longrightarrow>
        quickpick (createLaunchpadPickStep P pk sel w) =
          \<lparr>qpItems = [okItem], placeholder = Some ''All done! Take a vacation'',
           busy = False, qpValue = []\<rparr>"
    by (simp add: quickpick_createLaunchpadPickStep getItemsAndPlaceholder_empty)
  have g: "qpValue (quickpick w) = [] \<longrightarrow>
        qpItems (quickpick (updateItems P (Ran (Items [] t) conn False) w)) = [okItem]
        \<and> placeholder (quickpick (updateItems P (Ran (Items [] t) conn False) w)) =
            Some ''All done! Take a vacation''"
    by (simp add: quickpick_updateItems_empty)
  have h: "qpValue (quickpick w) \<noteq> [] \<longrightarrow>
        qpItems (quickpick (updateItems P (Ran (Items [] t) conn False) w)) = qpItems (quickpick w)
        \<and> placeholder (quickpick (updateItems P (Ran (Items [] t) conn False) w)) =
            Some ''All done! Take a vacation''"
    by (simp add: quickpick_updateItems_empty)
  from a b okItem_fields f g h show ?thesis
    by blast
qed

theorem empty_placeholder_and_ok_item_witness:
  "getItemsAndPlaceholder exampleProvider (exampleContext (Items [] None)) None None None =
     (''All done! Take a vacation'', [okItem])
   \<and> fst (getItemsAndPlaceholder exampleProvider (exampleContext (Failed exampleError)) None None None)
       \<noteq> ''All done! Take a vacation''
   \<and> quickpick (createLaunchpadPickStep exampleProvider None None (exampleWizard (Items [] None) [])) =
        \<lparr>qpItems = [okItem], placeholder = Some ''All done! Take a vacation'',
         busy = False, qpValue = []\<rparr>
   \<and> qpItems (quickpick (updateItems exampleProvider (Ran (Items [] None) [] False)
                 (exampleWizard (Items [exampleItem] None) []))) = [okItem]
   \<and> qpItems (quickpick (updateItems exampleProvider (Ran (Items [] None) [] False)
                 (exampleWizard (Items [exampleItem] None) ''fix''))) = [LaunchpadEntry exampleRow]"
proof -
  note t1 = empty_placeholder_and_ok_item
              [of "exampleContext (Items [] None)" None exampleProvider None None None
                  exampleError "exampleWizard (Items [] None) []" "[]"]
  note t2 = empty_placeholder_and_ok_item
              [of "exampleContext (Failed exampleError)" None exampleProvider None None None
                  exampleError "exampleWizard (Items [exampleItem] None) []" "[]"]
  note t3 = empty_placeholder_and_ok_item
              [of "exampleContext (Items [] None)" None exampleProvider None None None
                  exampleError "exampleWizard (Items [exampleItem] None) ''fix''" "[]"]
  have r1: "result (exampleContext (Items [] None)) = Items [] None"
           "result (exampleContext (Failed exampleError)) = Failed exampleError"
    by (simp_all add: exampleContext_def)
  have rw: "result (wizardContext (exampleWizard (Items [] None) [])) = Items [] None"
    by (simp add: exampleWizard_def exampleContext_def)
  have v0: "qpValue (quickpick (exampleWizard (Items [exampleItem] None) [])) = []"
    by (simp add: exampleWizard_def)
  have v1: "qpValue (quickpick (exampleWizard (Items [exampleItem] None) ''fix'')) \<noteq> []"
           "qpItems (quickpick (exampleWizard (Items [exampleItem] None) ''fix'')) = [LaunchpadEntry exampleRow]"
    by (simp_all add: exampleWizard_def)
  have c1: "getItemsAndPlaceholder exampleProvider (exampleContext (Items [] None)) None None None =
     (''All done! Take a vacation'', [okItem])"
    using t1 r1 by blast
  have c2: "fst (getItemsAndPlaceholder exampleProvider (exampleContext (Failed exampleError)) None None None)
       \<noteq> ''All done! Take a vacation''"
    using t2 r1 by blast
  have c3: "quickpick (createLaunchpadPickStep exampleProvider None None (exampleWizard (Items [] None) [])) =
        \<lparr>qpItems = [okItem], placeholder = Some ''All done! Take a vacation'',
         busy = False, qpValue = []\<rparr>"
    using t1 rw by blast
  have c4: "qpItems (quickpick (updateItems exampleProvider (Ran (Items [] None) [] False)
                 (exampleWizard (Items [exampleItem] None) []))) = [okItem]"
    using t2 v0 by blast
  have c5: "qpItems (quickpick (updateItems exampleProvider (Ran (Items [] None) [] False)
                 (exampleWizard (Items [exampleItem] None) ''fix''))) = [LaunchpadEntry exampleRow]"
    using t3 v1 by simp
  from c1 c2 c3 c4 c5 show ?thesis
    by blast
qed

text \<open>
  The claim as first stated fails after a search. In the run \<open>searchRun\<close>, from the
  start of the command, the step lists the row of one item, the user types \<open>fix\<close>,
  and the search finds nothing (no error, no items): the quick pick shows the
  placeholder \<open>All done! Take a vacation\<close> over a list that holds the row and no
  \<open>OK\<close> item.
\<close>

theorem empty_on_search_keeps_rows:
  "heldResult (searchRun (Items [] None)) = Some (Items [] None)
   \<and> fst (shown (searchRun (Items [] None))) = Some ''All done! Take a vacation''
   \<and> LaunchpadEntry exampleRow \<in> set (snd (shown (searchRun (Items [] None))))
   \<and> okItem \<notin> set (snd (shown (searchRun (Items [] None))))
   \<and> snd (shown (searchRun (Items [] None))) \<noteq> [okItem]"
  by code_simp

lemma busy_updateItems: "busy (quickpick (updateItems P run w)) = False"
  by (simp add: updateItems_def Let_def)

lemma result_updateItems_Ran:
  "result (wizardContext (updateItems P (Ran fetched conn cancelled) w)) = fetched"
  by (simp add: updateItems_def Let_def result_updateContextItems)

section \<open>Properties of the dispatch and of the group toggle\<close>

lemma storage_call [simp]: "storage (call c k) = storage k"
  by (simp add: call_def)

lemma telemetryEnabled_call [simp]: "telemetryEnabled (call c k) = telemetryEnabled k"
  by (simp add: call_def)

lemma madeCalls_call [simp]: "madeCalls (call c k) = madeCalls k @ [c]"
  by (simp add: call_def)

lemma storage_sendEvent [simp]: "storage (sendEvent n d a s k) = storage k"
  by (simp add: sendEvent_def)

lemma telemetryEnabled_sendEvent [simp]:
  "telemetryEnabled (sendEvent n d a s k) = telemetryEnabled k"
  by (simp add: sendEvent_def)

lemma madeCalls_sendEvent [simp]:
  "madeCalls (sendEvent n d a s k) = madeCalls k @ [TelemetrySendEvent n d a s]"
  by (simp add: sendEvent_def)

lemma storage_storageStore [simp]: "storage (storageStore key v k) = (storage k)(key \<mapsto> v)"
  by (simp add: storageStore_def)

lemma telemetryEnabled_storageStore [simp]:
  "telemetryEnabled (storageStore key v k) = telemetryEnabled k"
  by (simp add: storageStore_def)

lemma madeCalls_storageStore [simp]:
  "madeCalls (storageStore key v k) = madeCalls k @ [StorageStore key v]"
  by (simp add: storageStore_def)

lemma container_calling [simp]: "container (calling c w) = call c (container w)"
  by (simp add: calling_def)

lemma wizardState_calling [simp]: "wizardState (calling c w) = wizardState w"
  by (simp add: calling_def)

lemma wizardContext_calling [simp]: "wizardContext (calling c w) = wizardContext w"
  by (simp add: calling_def)

lemma container_endSteps [simp]: "container (endSteps w) = container w"
  by (simp add: endSteps_def)

lemma launchpadCalls_call:
  "launchpadCalls (call c k) = launchpadCalls k @ (if isLaunchpadCall c then [c] else [])"
  by (simp add: launchpadCalls_def)

lemma launchpadCalls_sendEvent [simp]: "launchpadCalls (sendEvent n d a s k) = launchpadCalls k"
  by (simp add: launchpadCalls_def)

lemma launchpadCalls_sendItemActionTelemetry [simp]:
  "launchpadCalls (container (sendItemActionTelemetry a i g w)) = launchpadCalls (container w)"
  by (simp add: sendItemActionTelemetry_def)

lemma wizardState_sendItemActionTelemetry [simp]:
  "wizardState (sendItemActionTelemetry a i g w) = wizardState w"
  by (simp add: sendItemActionTelemetry_def)

lemma dispatchAction_selecting_string:
  "dispatchAction i (selecting i (StringAction s) w) =
     dispatchString s i
       (if s \<noteq> [] then sendItemActionTelemetry s i (itemGroup i) (selecting i (StringAction s) w)
        else selecting i (StringAction s) w)"
  by (simp add: dispatchAction_def selecting_def)

lemma launchpadCalls_selecting [simp]:
  "launchpadCalls (container (selecting i a w)) = launchpadCalls (container w)"
  by (simp add: selecting_def)

lemma launchpadCalls_dispatch_string:
  "launchpadCalls (containerOf (assertAndDispatch (selecting i (StringAction s) w))) =
     launchpadCalls (container (dispatchString s i (selecting i (StringAction s) w)))"
proof -
  have "item (wizardState (selecting i (StringAction s) w)) = Some i"
    by (simp add: selecting_def)
  then have "containerOf (assertAndDispatch (selecting i (StringAction s) w)) =
      container (dispatchAction i (selecting i (StringAction s) w))"
    by (simp add: assertAndDispatch_def)
  then show ?thesis
    by (simp add: dispatchAction_selecting_string dispatchString_def launchpadCalls_call)
qed

lemma launchpadCalls_dispatch_target:
  "launchpadCalls (containerOf (assertAndDispatch (selecting i (TargetAction ''open-suggestion'' t) w))) =
     launchpadCalls (container w) @ [LaunchpadOpenCodeSuggestion i t]"
  by (simp add: assertAndDispatch_def selecting_def dispatchAction_def launchpadCalls_call)

text \<open>
  Claim C6. With an item \<open>i\<close> and an action selected, the end of the loop body of
  \<open>steps\<close> makes exactly one call on the \<open>launchpad\<close> provider, the one the action
  names: \<open>merge\<close> calls \<open>merge(i)\<close>; \<open>open\<close> and \<open>soft-open\<close> call \<open>open(i)\<close>;
  \<open>switch\<close> and \<open>show-overview\<close> call \<open>switchTo(i)\<close>; \<open>open-worktree\<close> calls
  \<open>switchTo\<close> with \<open>skipWorktreeConfirmations\<close>; \<open>switch-and-code-suggest\<close> and
  \<open>code-suggest\<close> call \<open>switchTo\<close> with \<open>startCodeSuggestion\<close>; \<open>open-changes\<close>
  calls \<open>openChanges(i)\<close>; \<open>open-in-graph\<close> calls \<open>openInGraph(i)\<close>; and the target
  action \<open>open-suggestion\<close> calls \<open>openCodeSuggestion\<close> with \<open>i\<close> and the action's
  target.
\<close>

theorem dispatch_calls_the_named_method:
  "launchpadCalls (containerOf (assertAndDispatch (selecting i (StringAction ''merge'') w))) =
     launchpadCalls (container w) @ [LaunchpadMerge i]
   \<and> launchpadCalls (containerOf (assertAndDispatch (selecting i (StringAction ''open'') w))) =
       launchpadCalls (container w) @ [LaunchpadOpen i]
   \<and> launchpadCalls (containerOf (assertAndDispatch (selecting i (StringAction ''soft-open'') w))) =
       launchpadCalls (container w) @ [LaunchpadOpen i]
   \<and> launchpadCalls (containerOf (assertAndDispatch (selecting i (StringAction ''switch'') w))) =
       launchpadCalls (container w) @ [LaunchpadSwitchTo i None]
   \<and> launchpadCalls (containerOf (assertAndDispatch (selecting i (StringAction ''show-overview'') w))) =
       launchpadCalls (container w) @ [LaunchpadSwitchTo i None]
   \<and> launchpadCalls (containerOf (assertAndDispatch (selecting i (StringAction ''open-worktree'') w))) =
       launchpadCalls (container w) @ [LaunchpadSwitchTo i (Some SkipWorktreeConfirmations)]
   \<and> launchpadCalls (containerOf (assertAndDispatch
         (selecting i (StringAction ''switch-and-code-suggest'') w))) =
       launchpadCalls (container w) @ [LaunchpadSwitchTo i (Some StartCodeSuggestion)]
   \<and> launchpadCalls (containerOf (assertAndDispatch (selecting i (StringAction ''code-suggest'') w))) =
       launchpadCalls (container w) @ [LaunchpadSwitchTo i (Some StartCodeSuggestion)]
   \<and> launchpadCalls (containerOf (assertAndDispatch (selecting i (StringAction ''open-changes'') w))) =
       launchpadCalls (container w) @ [LaunchpadOpenChanges i]
   \<and> launchpadCalls (containerOf (assertAndDispatch (selecting i (StringAction ''open-in-graph'') w))) =
       launchpadCalls (container w) @ [LaunchpadOpenInGraph i]
   \<and> launchpadCalls (containerOf (assertAndDispatch
         (selecting i (TargetAction ''open-suggestion'' t) w))) =
       launchpadCalls (container w) @ [LaunchpadOpenCodeSuggestion i t]"
  by (simp add: launchpadCalls_dispatch_string launchpadCalls_dispatch_target
        dispatchString_def launchpadCalls_call)

theorem dispatch_calls_the_named_method_witness:
  "madeCalls (containerOf (assertAndDispatch
      (selecting exampleItem (StringAction ''merge'') (exampleWizard (Items [exampleItem] None) [])))) =
     [LaunchpadMerge exampleItem]
   \<and> madeCalls (containerOf (assertAndDispatch
        (selecting exampleItem (TargetAction ''open-suggestion'' ''s1'')
           (exampleWizard (Items [exampleItem] None) [])))) =
       [LaunchpadOpenCodeSuggestion exampleItem ''s1'']"
proof -
  let ?w = "exampleWizard (Items [exampleItem] None) []"
  have none: "launchpadCalls (container ?w) = []"
    by (simp add: exampleWizard_def exampleContainer_def launchpadCalls_def)
  have m: "madeCalls (containerOf (assertAndDispatch (selecting exampleItem (StringAction ''merge'') ?w))) =
     launchpadCalls (containerOf (assertAndDispatch (selecting exampleItem (StringAction ''merge'') ?w)))"
    by (simp add: assertAndDispatch_def selecting_def dispatchAction_def dispatchString_def
          sendItemActionTelemetry_def exampleWizard_def exampleContainer_def launchpadCalls_def)
  have s: "madeCalls (containerOf (assertAndDispatch
        (selecting exampleItem (TargetAction ''open-suggestion'' ''s1'') ?w))) =
     launchpadCalls (containerOf (assertAndDispatch
        (selecting exampleItem (TargetAction ''open-suggestion'' ''s1'') ?w)))"
    by (simp add: assertAndDispatch_def selecting_def dispatchAction_def
          sendItemActionTelemetry_def exampleWizard_def exampleContainer_def launchpadCalls_def)
  show ?thesis
    using dispatch_calls_the_named_method [of exampleItem ?w "''s1''"] none m s
    by simp
qed

section \<open>What each step of the wizard leaves alone\<close>

lemma storedKeys_append [simp]: "storedKeys (xs @ ys) = storedKeys xs @ storedKeys ys"
  by (induction xs) (simp_all split: option.splits)

lemma quiet_refl [simp]: "quiet w w"
  by (simp add: quiet_def)

lemma quiet_trans: "quiet w w' \<Longrightarrow> quiet w' w'' \<Longrightarrow> quiet w w''"
  by (simp add: quiet_def)

lemma still_refl [simp]: "still w w"
  by (simp add: still_def)

lemma still_trans: "still w w' \<Longrightarrow> still w' w'' \<Longrightarrow> still w w''"
  by (simp add: still_def quiet_def)

lemma still_quiet: "still w w' \<Longrightarrow> quiet w w'"
  by (simp add: still_def)

lemma still_calling: "storeKey c = None \<Longrightarrow> still w w' \<Longrightarrow> still w (calling c w')"
  by (simp add: still_def quiet_def calling_def)

lemma still_sendItemActionTelemetry:
  "still w w' \<Longrightarrow> still w (sendItemActionTelemetry a i g w')"
  by (simp add: still_def quiet_def sendItemActionTelemetry_def)

lemma still_sendTitleActionTelemetry: "still w w' \<Longrightarrow> still w (sendTitleActionTelemetry a w')"
  by (simp add: still_def quiet_def sendTitleActionTelemetry_def)

lemma still_endSteps: "still w w' \<Longrightarrow> still w (endSteps w')"
  by (simp add: still_def quiet_def endSteps_def)

lemma still_counter:
  "still w w' \<Longrightarrow> still w (w'\<lparr>wizardState := (wizardState w')\<lparr>counter := n\<rparr>\<rparr>)"
  by (simp add: still_def quiet_def)

lemma still_confirmBusy: "still w w' \<Longrightarrow> still w (w'\<lparr>confirmBusy := x\<rparr>)"
  by (simp add: still_def quiet_def)

lemmas still_steps =
  still_calling still_sendItemActionTelemetry still_sendTitleActionTelemetry still_endSteps
  still_counter still_confirmBusy

lemma still_updateContextItems: "still w (updateContextItems P opts fetched conn w)"
  by (simp add: still_def quiet_def updateContextItems_def Let_def collapsed_updateTelemetryContext)

lemma still_loopTop: "still w (loopTop w)"
  by (simp add: still_def quiet_def loopTop_def Let_def)

lemma still_ensureIntegrationConnected: "still w (ensureIntegrationConnected i already w)"
  by (simp add: ensureIntegrationConnected_def still_steps)

lemma still_connectCloud: "still w (connectCloud P w)"
  by (simp add: connectCloud_def still_steps)

lemma still_itemButtonAction: "still w (itemButtonAction b i g w)"
  by (cases b) (simp_all add: itemButtonAction_def still_steps)

lemma still_confirmButtonAction: "still w (confirmButtonAction b r i w)"
  by (cases b; cases r rule: actionTruthy.cases) (simp_all add: Let_def still_steps)

lemma still_dispatchString: "still w w' \<Longrightarrow> still w (dispatchString s i w')"
  by (simp add: dispatchString_def Let_def still_def quiet_def calling_def endSteps_def)

lemma still_dispatchAction: "still w (dispatchAction i w)"
proof -
  let ?w1 = "case action (wizardState w) of
               None \<Rightarrow> w
             | Some a \<Rightarrow>
                 if actionTruthy (Some a)
                 then sendItemActionTelemetry (actionName a) i (itemGroup i) w
                 else w"
  have q1: "still w ?w1"
    by (simp add: still_steps split: option.splits)
  then show ?thesis
    unfolding dispatchAction_def Let_def
    by (simp add: still_steps still_dispatchString split: option.splits SelectedAction.splits)
qed

lemma still_selectRow:
  "still w (w\<lparr>wizardState := (wizardState w)\<lparr>item := x\<rparr>\<rparr>)"
  by (simp add: still_def quiet_def)

lemma still_chooseAction:
  "still w (w\<lparr>wizardState := (wizardState w)\<lparr>action := x\<rparr>\<rparr>)"
  by (simp add: still_def quiet_def)

text \<open>The steps that rebuild the listed items are quiet.\<close>

lemma quiet_updateItems: "quiet w w' \<Longrightarrow> quiet w (updateItems P run w')"
proof (cases run)
  case NotRun
  assume "quiet w w'"
  then show ?thesis
    using NotRun by (simp add: updateItems_def Let_def quiet_def)
next
  case (Ran fetched conn cancelled)
  assume q: "quiet w w'"
  let ?w1 = "w'\<lparr>quickpick := (quickpick w')\<lparr>busy := True\<rparr>\<rparr>"
  let ?w3 = "updateContextItems P \<lparr>force = True, search = Some (qpValue (quickpick w'))\<rparr> fetched conn ?w1"
  have "quiet ?w1 ?w3"
    by (rule still_quiet) (rule still_updateContextItems)
  then have "quiet w ?w3"
    using q by (simp add: quiet_def)
  then show ?thesis
    using Ran by (simp add: updateItems_def Let_def quiet_def)
qed

lemma quiet_createLaunchpadPickStep:
  "quiet w w' \<Longrightarrow> quiet w (createLaunchpadPickStep P pk sel w')"
  by (simp add: quiet_def createLaunchpadPickStep_def Let_def)

lemma quiet_openPickStep: "quiet w (openPickStep P w)"
proof -
  let ?k = "if telemetryEnabled (container w)
            then sendEvent (if opened w then ''launchpad/steps/main'' else ''launchpad/opened'')
                   (spread (telemetryContext (wizardContext w)) [(''connected'', TBool True)])
                   None (commandSource w) (container w)
            else container w"
  have "quiet w (w\<lparr>container := ?k, opened := True\<rparr>)"
    by (simp add: quiet_def)
  then have "quiet w (createLaunchpadPickStep P (Option.bind (item (wizardState w)) graphQLId)
                        (selectTopItem (wizardState w)) (w\<lparr>container := ?k, opened := True\<rparr>))"
    by (rule quiet_createLaunchpadPickStep)
  then show ?thesis
    by (simp add: openPickStep_def Let_def)
qed

lemma quiet_onDidClickButton: "quiet w (onDidClickButton P b url run w)"
proof (cases b)
  case RefreshQuickInputButton
  have "quiet w (sendTitleActionTelemetry ''refresh'' w)"
    by (simp add: still_quiet still_steps)
  then have "quiet w (updateItems P run (sendTitleActionTelemetry ''refresh'' w))"
    by (rule quiet_updateItems)
  then show ?thesis
    using RefreshQuickInputButton by (simp add: onDidClickButton_def)
qed (simp_all add: onDidClickButton_def still_quiet still_steps)

lemma quiet_onDidClickItemButton: "quiet w (onDidClickItemButton P b e run w)"
proof (cases e)
  case (LaunchpadEntry q)
  have "quiet w (itemButtonAction b (qpItem q) (Some (qpGroup q)) w)"
    by (simp add: still_quiet still_itemButtonAction)
  then have "quiet w (updateItems P run (itemButtonAction b (qpItem q) (Some (qpGroup q)) w))"
    by (rule quiet_updateItems)
  then show ?thesis
    using LaunchpadEntry by (simp add: onDidClickItemButton_def still_quiet still_steps)
qed (simp_all add: onDidClickItemButton_def still_quiet still_steps)

lemma quiet_showFound: "quiet w w' \<Longrightarrow> quiet w (showFound p w')"
  by (simp add: showFound_def Let_def quiet_def calling_def)

lemma quietOutcome_Running: "quiet w w' \<Longrightarrow> quietOutcome w (Running w')"
  by (simp add: quietOutcome_def)

lemma quietOutcome_onDidChangeValue: "quietOutcome w (onDidChangeValue P v run w)"
proof -
  let ?xs = "map resetAlwaysShow (stepItems w)"
  let ?w = "\<lambda>hg u. w\<lparr>stepItems := ?xs,
              quickpick := (quickpick w)\<lparr>qpValue := u, qpItems := consideredItems hg ?xs\<rparr>\<rparr>"
  have q: "\<And>hg u. quiet w (?w hg u)"
    by (simp add: quiet_def)
  have c: "\<And>hg u. quiet w (calling DebouncerCancel (?w hg u))"
    by (simp add: quiet_def calling_def)
  have u: "\<And>hg u. quiet w (updateItems P run (?w hg u))"
    using q by (rule quiet_updateItems)
  have f: "\<And>p hg u. quiet w (showFound p (?w hg u))"
    using q by (rule quiet_showFound)
  show ?thesis
    unfolding onDidChangeValue_def Let_def quietOutcome_def
    using c u f by (simp split: option.splits bool.splits)
qed

lemma quietOutcome_beforeConfirm: "quietOutcome w (beforeConfirm w)"
  by (simp add: beforeConfirm_def quietOutcome_def still_quiet still_steps split: option.splits)

lemma quietOutcome_confirmItemButton: "quietOutcome w (onDidClickConfirmItemButton b r w)"
  by (simp add: onDidClickConfirmItemButton_def quietOutcome_def still_quiet
        still_confirmButtonAction split: option.splits)

lemma quietOutcome_assertAndDispatch: "quietOutcome w (assertAndDispatch w)"
  by (simp add: assertAndDispatch_def quietOutcome_def still_quiet still_dispatchAction
        split: option.splits)

section \<open>Invariants of a run\<close>

lemma runEvents_invariant:
  assumes step: "\<And>ev w. I (Running w) \<Longrightarrow> I (handleEvent P ev w)"
      and init: "I out"
  shows "I (runEvents P evs out)"
  using init
proof (induction evs arbitrary: out)
  case Nil
  then show ?case by simp
next
  case (Cons ev evs)
  show ?case
  proof (cases out)
    case (Running w)
    with Cons.prems have "I (handleEvent P ev w)"
      by (simp add: step)
    then have "I (runEvents P evs (handleEvent P ev w))"
      by (rule Cons.IH)
    with Running show ?thesis by simp
  next
    case (Thrown m k)
    with Cons.prems show ?thesis by simp
  qed
qed

subsection \<open>The toggle of a group\<close>

lemma toggleGroup_collapsed:
  "collapsed (wizardContext (toggleGroup P ui w)) =
     mapSet ui (\<not> truthy (mapGet (collapsed (wizardContext w)) ui)) (collapsed (wizardContext w))"
  by (simp add: toggleGroup_def Let_def collapsed_updateTelemetryContext)

lemma toggleGroup_unchanged:
  "wizardState (toggleGroup P ui w) = wizardState w"
  "stepItems (toggleGroup P ui w) = stepItems w"
  "quickpick (toggleGroup P ui w) = quickpick w"
  by (simp_all add: toggleGroup_def Let_def)

lemma toggleGroup_storage_without_initial_group:
  "initialGroup (wizardState w) = None \<Longrightarrow>
   storage (container (toggleGroup P ui w)) =
     (storage (container w))
       (''launchpad:groups:collapsed'' \<mapsto>
          StoredGroups (filter (\<lambda>g. truthy (mapGet (collapsed (wizardContext (toggleGroup P ui w))) g))
                               (mapKeys (collapsed (wizardContext (toggleGroup P ui w))))))"
  by (simp add: toggleGroup_collapsed) (simp add: toggleGroup_def Let_def)

lemma toggleGroup_storedKeys_without_initial_group:
  "initialGroup (wizardState w) = None \<Longrightarrow>
   storedKeys (madeCalls (container (toggleGroup P ui w))) =
     storedKeys (madeCalls (container w)) @ [''launchpad:groups:collapsed'']"
  by (simp add: toggleGroup_def Let_def)

lemma toggleGroup_with_initial_group:
  "initialGroup (wizardState w) \<noteq> None \<Longrightarrow>
   storage (container (toggleGroup P ui w)) = storage (container w)
   \<and> storedKeys (madeCalls (container (toggleGroup P ui w))) = storedKeys (madeCalls (container w))"
  by (simp add: toggleGroup_def Let_def)

text \<open>Selecting an element does nothing, toggles a listed heading, or sets the item.\<close>

lemma toggleTargets_member:
  "e \<in> set xs \<Longrightarrow> ui \<in> set (toggleTargets e) \<Longrightarrow> ui \<in> set (headingGroups xs)"
  by (auto simp: headingGroups_def)

lemma selectEntry_cases:
  "selectEntry P e w = w
   \<or> (\<exists>ui. ui \<in> set (headingGroups (qpItems (quickpick w))) \<and> selectEntry P e w = toggleGroup P ui w)
   \<or> (\<exists>x. selectEntry P e w = w\<lparr>wizardState := (wizardState w)\<lparr>item := x\<rparr>\<rparr>)"
proof (cases "e \<in> set (qpItems (quickpick w))")
  case False
  then show ?thesis by (simp add: selectEntry_def)
next
  case True
  show ?thesis
  proof (cases e)
    case (DirectiveEntry d)
    show ?thesis
    proof (cases "onDidSelect d")
      case None
      with True DirectiveEntry show ?thesis by (simp add: selectEntry_def)
    next
      case (Some h)
      show ?thesis
      proof (cases h)
        case (ToggleGroup ui)
        with Some DirectiveEntry have "ui \<in> set (toggleTargets e)" by simp
        with True have "ui \<in> set (headingGroups (qpItems (quickpick w)))"
          by (rule toggleTargets_member)
        moreover have "selectEntry P e w = toggleGroup P ui w"
          using True DirectiveEntry Some ToggleGroup by (simp add: selectEntry_def)
        ultimately show ?thesis by blast
      next
        case OpenWalkthrough
        with True DirectiveEntry Some show ?thesis by (simp add: selectEntry_def)
      qed
    qed
  next
    case (SeparatorEntry x)
    with True show ?thesis by (simp add: selectEntry_def)
  next
    case (LaunchpadEntry q)
    with True show ?thesis by (auto simp: selectEntry_def)
  next
    case ConnectMoreIntegrationsEntry
    with True show ?thesis by (simp add: selectEntry_def)
  qed
qed

lemma handleEvent_quiet:
  "(\<And>e. ev \<noteq> EntrySelected e) \<Longrightarrow> quietOutcome w (handleEvent P ev w)"
proof (cases ev)
  case (EntrySelected e)
  assume "\<And>e. ev \<noteq> EntrySelected e"
  with EntrySelected show ?thesis by simp
qed (simp_all add: quietOutcome_Running still_quiet still_loopTop still_ensureIntegrationConnected
       still_connectCloud still_updateContextItems quiet_openPickStep quiet_onDidClickButton
       quiet_onDidClickItemButton still_chooseAction quietOutcome_onDidChangeValue
       quietOutcome_beforeConfirm quietOutcome_confirmItemButton quietOutcome_assertAndDispatch)

subsection \<open>Only the two keys are stored\<close>

lemma onlyLaunchpadKeys_refl [simp]: "onlyLaunchpadKeys k k"
  by (auto simp: onlyLaunchpadKeys_def)

lemma onlyLaunchpadKeys_quiet:
  "quiet w w' \<Longrightarrow> onlyLaunchpadKeys k (container w) \<Longrightarrow> onlyLaunchpadKeys k (container w')"
  by (simp add: quiet_def onlyLaunchpadKeys_def)

lemma onlyLaunchpadKeys_toggleGroup:
  assumes "onlyLaunchpadKeys k (container w)"
  shows "onlyLaunchpadKeys k (container (toggleGroup P ui w))"
proof (cases "initialGroup (wizardState w) = None")
  case True
  show ?thesis
    using assms
    unfolding onlyLaunchpadKeys_def
      toggleGroup_storage_without_initial_group [OF True]
      toggleGroup_storedKeys_without_initial_group [OF True]
    by auto
next
  case False
  show ?thesis
    using assms toggleGroup_with_initial_group [OF False, of P ui]
    by (simp add: onlyLaunchpadKeys_def)
qed

lemma onlyLaunchpadKeys_handleEvent:
  assumes "onlyLaunchpadKeys k (container w)"
  shows "onlyLaunchpadKeys k (containerOf (handleEvent P ev w))"
proof (cases "\<exists>e. ev = EntrySelected e")
  case False
  then have q: "quietOutcome w (handleEvent P ev w)"
    by (intro handleEvent_quiet) blast
  show ?thesis
  proof (cases "handleEvent P ev w")
    case (Running w')
    with q have "quiet w w'" by (simp add: quietOutcome_def)
    with assms Running show ?thesis by (simp add: onlyLaunchpadKeys_quiet)
  next
    case (Thrown m k')
    with q assms show ?thesis by (simp add: quietOutcome_def)
  qed
next
  case True
  then obtain e where ev: "ev = EntrySelected e" by blast
  from selectEntry_cases [of P e w] show ?thesis
  proof (elim disjE exE conjE)
    assume "selectEntry P e w = w"
    with assms ev show ?thesis by simp
  next
    fix ui assume "selectEntry P e w = toggleGroup P ui w"
    with assms ev show ?thesis by (simp add: onlyLaunchpadKeys_toggleGroup)
  next
    fix x assume "selectEntry P e w = w\<lparr>wizardState := (wizardState w)\<lparr>item := x\<rparr>\<rparr>"
    with assms ev show ?thesis by simp
  qed
qed

lemma onlyLaunchpadKeys_runEvents:
  "onlyLaunchpadKeys k (containerOf out) \<Longrightarrow> onlyLaunchpadKeys k (containerOf (runEvents P evs out))"
  by (rule runEvents_invariant [where I = "\<lambda>out. onlyLaunchpadKeys k (containerOf out)"])
     (simp_all add: onlyLaunchpadKeys_handleEvent)

lemma onlyLaunchpadKeys_newLaunchpadCommand:
  "onlyLaunchpadKeys k (cmdContainer (newLaunchpadCommand k args now inst))"
  by (auto simp: newLaunchpadCommand_def Let_def onlyLaunchpadKeys_def)

lemma onlyLaunchpadKeys_beginSteps:
  "onlyLaunchpadKeys k (cmdContainer cmd) \<Longrightarrow>
   onlyLaunchpadKeys k (containerOf (beginSteps P conn ttl cmd))"
  by (simp add: beginSteps_def Let_def onlyLaunchpadKeys_def
        split: option.splits StoredValue.splits)

lemma onlyLaunchpadKeys_invoke:
  "onlyLaunchpadKeys k (invoke P k args now inst conn ttl evs)"
  unfolding invoke_def
  by (intro onlyLaunchpadKeys_runEvents onlyLaunchpadKeys_beginSteps
        onlyLaunchpadKeys_newLaunchpadCommand)

section \<open>The groups of the collapsed map and of the listed headings\<close>

lemma mapKeys_mapSet: "set (mapKeys (mapSet k v m)) = insert k (set (mapKeys m))"
  by (induction m) (auto simp: mapKeys_def)

lemma mapKeys_foldl_mapSet:
  "set (mapKeys (foldl (\<lambda>m e. mapSet (f e) (g e) m) m0 xs)) = set (mapKeys m0) \<union> f ` set xs"
  by (induction xs arbitrary: m0) (auto simp: mapKeys_mapSet)

lemma mapKeys_newMap: "set (mapKeys (newMap es)) = fst ` set es"
  by (simp add: newMap_def mapKeys_foldl_mapSet) (simp add: mapKeys_def)

lemma mapKeys_initialCollapsed:
  "set (mapKeys (initialCollapsed P gs ig))
     = set gs \<union> (case ig of None \<Rightarrow> {} | Some i \<Rightarrow> set (launchpadGroups P))"
proof (cases ig)
  case None
  then show ?thesis
    by (simp add: initialCollapsed_def Let_def mapKeys_newMap image_image)
next
  case (Some i)
  have "set (mapKeys (foldl (\<lambda>m g. mapSet g (g \<noteq> i) m) (newMap (map (\<lambda>g. (g, True)) gs))
                        (launchpadGroups P)))
          = set (mapKeys (newMap (map (\<lambda>g. (g, True)) gs))) \<union> (\<lambda>g. g) ` set (launchpadGroups P)"
    by (rule mapKeys_foldl_mapSet [where f = "\<lambda>g. g" and g = "\<lambda>g. g \<noteq> i"])
  with Some show ?thesis
    by (simp add: initialCollapsed_def Let_def mapKeys_newMap image_image)
qed

lemma headingGroups_Nil [simp]: "headingGroups [] = []"
  by (simp add: headingGroups_def)

lemma headingGroups_Cons [simp]: "headingGroups (e # es) = toggleTargets e @ headingGroups es"
  by (simp add: headingGroups_def)

lemma headingGroups_append [simp]: "headingGroups (xs @ ys) = headingGroups xs @ headingGroups ys"
  by (simp add: headingGroups_def)

lemma toggleTargets_resetAlwaysShow [simp]: "toggleTargets (resetAlwaysShow e) = toggleTargets e"
  by (cases e) simp_all

lemma toggleTargets_showAlways [simp]: "toggleTargets (showAlways e) = toggleTargets e"
  by (cases e) simp_all

lemma headingGroups_reset [simp]: "headingGroups (map resetAlwaysShow xs) = headingGroups xs"
  by (induction xs) simp_all

lemma headingGroups_markFirst [simp]: "headingGroups (markFirst p xs) = headingGroups xs"
  by (induction xs) simp_all

lemma headingGroups_filter: "set (headingGroups (filter p xs)) \<subseteq> set (headingGroups xs)"
  by (induction xs) auto

lemma headingGroups_consideredItems:
  "set (headingGroups (consideredItems hg xs)) \<subseteq> set (headingGroups xs)"
  by (simp add: consideredItems_def headingGroups_filter)

lemma headingGroups_rows [simp]: "headingGroups (map (\<lambda>i. LaunchpadEntry (f i)) xs) = []"
  by (induction xs) simp_all

lemma headingGroups_buildGroupHeading [simp]: "headingGroups (buildGroupHeading c ui n) = [ui]"
  by (simp add: buildGroupHeading_def createDirectiveQuickPickItem_def noOptions_def)

lemma headingGroups_groupRows:
  "set (headingGroups (groupRows c pk tp s g)) \<subseteq> {fst g}"
  by (simp add: groupRows_def Let_def)

lemma headingGroups_concat_groupRows:
  "set (headingGroups (concat (map (groupRows c pk tp s) gs))) \<subseteq> fst ` set gs"
proof (induction gs)
  case Nil
  then show ?case by simp
next
  case (Cons g gs)
  then show ?case
    using headingGroups_groupRows [of c pk tp s g] by auto
qed

lemma headingGroups_getItems:
  assumes "groupsTyped P"
  shows "set (headingGroups (getItems P c pk sel res s)) \<subseteq> set (launchpadGroups P)"
proof (cases "resultItems res")
  case None
  then show ?thesis by (simp add: getItems_def)
next
  case (Some xs)
  show ?thesis
  proof (cases "xs = []")
    case True
    with Some show ?thesis by (simp add: getItems_def)
  next
    case False
    have typed: "fst ` set (groupAndSortLaunchpadItems P xs) \<subseteq> set (launchpadGroups P)"
      using assms by (simp add: groupsTyped_def)
    have "\<And>tp. set (headingGroups (concat (map (groupRows c pk tp s) (groupAndSortLaunchpadItems P xs))))
            \<subseteq> set (launchpadGroups P)"
      using headingGroups_concat_groupRows typed by (rule subset_trans)
    with Some False show ?thesis
      by (simp add: getItems_def Let_def)
  qed
qed

lemma toggleTargets_okItem [simp]: "toggleTargets okItem = []"
  by (simp add: okItem_fields)

lemma headingGroups_getItemsAndPlaceholder:
  assumes "groupsTyped P"
  shows "set (headingGroups (snd (getItemsAndPlaceholder P c pk sel s))) \<subseteq> set (launchpadGroups P)"
proof (cases "result c")
  case (Items xs t)
  then show ?thesis
    using headingGroups_getItems [OF assms, of c pk sel "result c" s]
    by (simp add: getItemsAndPlaceholder_def)
next
  case (Failed e)
  then show ?thesis by (simp add: getItemsAndPlaceholder_def)
qed

lemma headingGroups_combine:
  "set (headingGroups (combineQuickpickItemsWithSearchResults arr xs))
     \<subseteq> set (headingGroups arr) \<union> set (headingGroups xs)"
  using headingGroups_filter [of _ xs]
  by (auto simp: combineQuickpickItemsWithSearchResults_def Let_def)

subsection \<open>Each step keeps the groups known\<close>

lemma groupsKnown_still: "still w w' \<Longrightarrow> groupsKnown P found w \<Longrightarrow> groupsKnown P found w'"
  by (simp add: still_def quiet_def groupsKnown_def)

lemma stepItems_updateItems: "stepItems (updateItems P run w) = stepItems w"
  by (cases run) (simp_all add: updateItems_def Let_def updateContextItems_def)

lemma qpItems_updateItems_known:
  assumes "groupsTyped P"
      and "set (headingGroups (qpItems (quickpick w))) \<subseteq> set (launchpadGroups P)"
  shows "set (headingGroups (qpItems (quickpick (updateItems P run w)))) \<subseteq> set (launchpadGroups P)"
proof (cases run)
  case NotRun
  with assms show ?thesis by (simp add: quickpick_updateItems_NotRun)
next
  case (Ran fetched conn cancelled)
  show ?thesis
  proof (cases cancelled)
    case True
    with Ran assms show ?thesis by (simp add: quickpick_updateItems_cancelled)
  next
    case False
    have new: "\<And>c s. set (headingGroups (snd (getItemsAndPlaceholder P c (stepPicked w)
                                                 (stepSelectTopItem w) s))) \<subseteq> set (launchpadGroups P)"
      using assms(1) by (rule headingGroups_getItemsAndPlaceholder)
    have comb: "\<And>c s. set (headingGroups (combineQuickpickItemsWithSearchResults (qpItems (quickpick w))
                    (snd (getItemsAndPlaceholder P c (stepPicked w) (stepSelectTopItem w) s))))
            \<subseteq> set (launchpadGroups P)"
    proof -
      fix c s
      let ?new = "snd (getItemsAndPlaceholder P c (stepPicked w) (stepSelectTopItem w) s)"
      show "set (headingGroups (combineQuickpickItemsWithSearchResults (qpItems (quickpick w)) ?new))
              \<subseteq> set (launchpadGroups P)"
        using headingGroups_combine [of "qpItems (quickpick w)" ?new] assms(2) new [of c s]
        by blast
    qed
    show ?thesis
      using Ran False new comb by (simp add: quickpick_updateItems_Ran Let_def)
  qed
qed

lemma groupsKnown_updateItems:
  assumes "groupsTyped P" and "groupsKnown P found w"
  shows "groupsKnown P found (updateItems P run w)"
proof -
  have "quiet w (updateItems P run w)"
    by (rule quiet_updateItems) simp
  then have "collapsed (wizardContext (updateItems P run w)) = collapsed (wizardContext w)"
    by (simp add: quiet_def)
  then show ?thesis
    using assms qpItems_updateItems_known [OF assms(1), of w run]
    by (simp add: groupsKnown_def stepItems_updateItems)
qed

lemma groupsKnown_createLaunchpadPickStep:
  assumes "groupsTyped P" and "groupsKnown P found w"
  shows "groupsKnown P found (createLaunchpadPickStep P pk sel w)"
  using assms(2) headingGroups_getItemsAndPlaceholder [OF assms(1), of "wizardContext w" pk sel None]
  by (simp add: groupsKnown_def createLaunchpadPickStep_def Let_def)

lemma groupsKnown_openPickStep:
  assumes "groupsTyped P" and "groupsKnown P found w"
  shows "groupsKnown P found (openPickStep P w)"
proof -
  have "\<And>k. groupsKnown P found (w\<lparr>container := k, opened := True\<rparr>)"
    using assms(2) by (simp add: groupsKnown_def)
  then show ?thesis
    using assms by (simp add: openPickStep_def Let_def groupsKnown_createLaunchpadPickStep)
qed

lemma groupsKnown_onDidClickButton:
  assumes "groupsTyped P" and "groupsKnown P found w"
  shows "groupsKnown P found (onDidClickButton P b url run w)"
proof (cases b)
  case RefreshQuickInputButton
  have "groupsKnown P found (sendTitleActionTelemetry ''refresh'' w)"
    using assms(2) by (rule groupsKnown_still [rotated]) (simp add: still_steps)
  with assms(1) have "groupsKnown P found (updateItems P run (sendTitleActionTelemetry ''refresh'' w))"
    by (rule groupsKnown_updateItems)
  with RefreshQuickInputButton show ?thesis by (simp add: onDidClickButton_def)
qed (use assms(2) in \<open>simp_all add: onDidClickButton_def groupsKnown_still [OF _ assms(2)] still_steps\<close>)

lemma groupsKnown_onDidClickItemButton:
  assumes "groupsTyped P" and "groupsKnown P found w"
  shows "groupsKnown P found (onDidClickItemButton P b e run w)"
proof (cases e)
  case (LaunchpadEntry q)
  have "groupsKnown P found (itemButtonAction b (qpItem q) (Some (qpGroup q)) w)"
    using still_itemButtonAction assms(2) by (rule groupsKnown_still)
  with assms(1) have "groupsKnown P found (updateItems P run (itemButtonAction b (qpItem q) (Some (qpGroup q)) w))"
    by (rule groupsKnown_updateItems)
  with LaunchpadEntry show ?thesis
    by (simp add: onDidClickItemButton_def groupsKnown_still [OF _ assms(2)] still_steps)
qed (use assms(2) in \<open>simp_all add: onDidClickItemButton_def groupsKnown_still [OF _ assms(2)] still_steps\<close>)

lemma groupsKnown_showFound: "groupsKnown P found w \<Longrightarrow> groupsKnown P found (showFound p w)"
  using headingGroups_consideredItems [of True "markFirst p (stepItems w)"]
  by (auto simp: groupsKnown_def showFound_def Let_def calling_def)

lemma groupsKnown_onDidChangeValue:
  assumes "groupsTyped P" and "groupsKnown P found w"
  shows "whileRunning (groupsKnown P found) (onDidChangeValue P v run w)"
proof -
  let ?xs = "map resetAlwaysShow (stepItems w)"
  let ?w = "\<lambda>hg u. w\<lparr>stepItems := ?xs,
              quickpick := (quickpick w)\<lparr>qpValue := u, qpItems := consideredItems hg ?xs\<rparr>\<rparr>"
  have g: "\<And>hg u. groupsKnown P found (?w hg u)"
    using assms(2) headingGroups_consideredItems [of _ ?xs]
    by (simp add: groupsKnown_def) blast
  have c: "\<And>hg u. groupsKnown P found (calling DebouncerCancel (?w hg u))"
    using g by (simp add: groupsKnown_def calling_def)
  have u: "\<And>hg u. groupsKnown P found (updateItems P run (?w hg u))"
    using assms(1) g by (rule groupsKnown_updateItems)
  have f: "\<And>p hg u. groupsKnown P found (showFound p (?w hg u))"
    using g by (rule groupsKnown_showFound)
  show ?thesis
    unfolding onDidChangeValue_def Let_def
    using c u f by (simp split: option.splits bool.splits)
qed

lemma groupsKnown_toggleGroup:
  assumes "groupsKnown P found w" and "ui \<in> set (headingGroups (qpItems (quickpick w)))"
  shows "groupsKnown P found (toggleGroup P ui w)"
  using assms
  by (auto simp: groupsKnown_def toggleGroup_collapsed toggleGroup_unchanged mapKeys_mapSet)

lemma groupsKnown_selectEntry:
  assumes "groupsKnown P found w"
  shows "groupsKnown P found (selectEntry P e w)"
  using selectEntry_cases [of P e w]
proof (elim disjE exE conjE)
  assume "selectEntry P e w = w"
  with assms show ?thesis by simp
next
  fix ui
  assume "ui \<in> set (headingGroups (qpItems (quickpick w)))"
     and "selectEntry P e w = toggleGroup P ui w"
  with assms show ?thesis by (simp add: groupsKnown_toggleGroup)
next
  fix x assume "selectEntry P e w = w\<lparr>wizardState := (wizardState w)\<lparr>item := x\<rparr>\<rparr>"
  with assms show ?thesis by (simp add: groupsKnown_def)
qed

lemma groupsKnown_handleEvent:
  assumes "groupsTyped P" and "groupsKnown P found w"
  shows "whileRunning (groupsKnown P found) (handleEvent P ev w)"
proof (cases ev)
  case LoopTop
  then show ?thesis using groupsKnown_still [OF still_loopTop assms(2)] by simp
next
  case (ConnectLocal i already)
  then show ?thesis using groupsKnown_still [OF still_ensureIntegrationConnected assms(2)] by simp
next
  case ConnectCloud
  then show ?thesis using groupsKnown_still [OF still_connectCloud assms(2)] by simp
next
  case (RefreshContext f fetched conn)
  then show ?thesis using groupsKnown_still [OF still_updateContextItems assms(2)] by simp
next
  case OpenPickStep
  then show ?thesis using assms by (simp add: groupsKnown_openPickStep)
next
  case (ValueChanged v run)
  then show ?thesis using assms by (simp add: groupsKnown_onDidChangeValue)
next
  case (ButtonClicked b url run)
  then show ?thesis using assms by (simp add: groupsKnown_onDidClickButton)
next
  case (ItemButtonClicked b e run)
  then show ?thesis using assms by (simp add: groupsKnown_onDidClickItemButton)
next
  case (EntrySelected e)
  then show ?thesis using assms by (simp add: groupsKnown_selectEntry)
next
  case BeforeConfirm
  then show ?thesis
    using assms(2)
    by (simp add: beforeConfirm_def groupsKnown_still [OF _ assms(2)] still_steps
          split: option.splits)
next
  case (ConfirmItemButtonClicked b r)
  then show ?thesis
    using assms(2)
    by (simp add: onDidClickConfirmItemButton_def
          groupsKnown_still [OF still_confirmButtonAction assms(2)] split: option.splits)
next
  case (ActionChosen a)
  then show ?thesis using groupsKnown_still [OF still_chooseAction assms(2)] by simp
next
  case Dispatch
  then show ?thesis
    by (simp add: assertAndDispatch_def groupsKnown_still [OF still_dispatchAction assms(2)]
          split: option.splits)
qed

subsection \<open>The stored list keeps to the known and the found groups\<close>

lemma storedCollapsedGroups_toggleGroup:
  assumes "groupsKnown P found (toggleGroup P ui w)"
      and "set (storedCollapsedGroups (container w)) \<subseteq> set (launchpadGroups P) \<union> set found"
  shows "set (storedCollapsedGroups (container (toggleGroup P ui w)))
           \<subseteq> set (launchpadGroups P) \<union> set found"
proof (cases "initialGroup (wizardState w) = None")
  case True
  have "set (filter (\<lambda>g. truthy (mapGet (collapsed (wizardContext (toggleGroup P ui w))) g))
                    (mapKeys (collapsed (wizardContext (toggleGroup P ui w)))))
          \<subseteq> set (launchpadGroups P) \<union> set found"
    using assms(1) by (auto simp: groupsKnown_def)
  then show ?thesis
    by (simp add: storedCollapsedGroups_def toggleGroup_storage_without_initial_group [OF True])
next
  case False
  then show ?thesis
    using assms(2) toggleGroup_with_initial_group [OF False, of P ui]
    by (simp add: storedCollapsedGroups_def)
qed

lemma groupsInvariant_handleEvent:
  assumes typed: "groupsTyped P" and inv: "groupsInvariant P found (Running w)"
  shows "groupsInvariant P found (handleEvent P ev w)"
proof -
  from inv have known: "groupsKnown P found w"
    and stored: "set (storedCollapsedGroups (container w)) \<subseteq> set (launchpadGroups P) \<union> set found"
    by (simp_all add: groupsInvariant_def)
  have running: "whileRunning (groupsKnown P found) (handleEvent P ev w)"
    using typed known by (rule groupsKnown_handleEvent)
  have "set (storedCollapsedGroups (containerOf (handleEvent P ev w)))
          \<subseteq> set (launchpadGroups P) \<union> set found"
  proof (cases "\<exists>e. ev = EntrySelected e")
    case False
    then have q: "quietOutcome w (handleEvent P ev w)"
      by (intro handleEvent_quiet) blast
    show ?thesis
    proof (cases "handleEvent P ev w")
      case (Running w')
      with q have "storedCollapsedGroups (container w') = storedCollapsedGroups (container w)"
        by (simp add: quietOutcome_def quiet_def storedCollapsedGroups_def)
      with stored Running show ?thesis
        by simp
    next
      case (Thrown m k')
      with q stored show ?thesis by (simp add: quietOutcome_def)
    qed
  next
    case True
    then obtain e where ev: "ev = EntrySelected e" by blast
    from selectEntry_cases [of P e w] show ?thesis
    proof (elim disjE exE conjE)
      assume "selectEntry P e w = w"
      with stored ev show ?thesis by simp
    next
      fix ui
      assume ui: "ui \<in> set (headingGroups (qpItems (quickpick w)))"
         and sel: "selectEntry P e w = toggleGroup P ui w"
      from known ui have "groupsKnown P found (toggleGroup P ui w)"
        by (rule groupsKnown_toggleGroup)
      then have "set (storedCollapsedGroups (container (toggleGroup P ui w)))
                   \<subseteq> set (launchpadGroups P) \<union> set found"
        using stored by (rule storedCollapsedGroups_toggleGroup)
      with ev sel show ?thesis by simp
    next
      fix x assume "selectEntry P e w = w\<lparr>wizardState := (wizardState w)\<lparr>item := x\<rparr>\<rparr>"
      with stored ev show ?thesis by (simp add: storedCollapsedGroups_def)
    qed
  qed
  with running show ?thesis
    by (simp add: groupsInvariant_def)
qed

lemma groupsInvariant_runEvents:
  "groupsTyped P \<Longrightarrow> groupsInvariant P found out \<Longrightarrow> groupsInvariant P found (runEvents P evs out)"
  by (rule runEvents_invariant [where I = "groupsInvariant P found"])
     (simp_all add: groupsInvariant_handleEvent)

lemma storedCollapsedGroups_newLaunchpadCommand:
  "storedCollapsedGroups (cmdContainer (newLaunchpadCommand k args now inst)) = storedCollapsedGroups k"
  by (simp add: newLaunchpadCommand_def Let_def storedCollapsedGroups_def)

text \<open>
  The first lines of \<open>steps\<close> make every group they find in the storage a key, known
  or not: the invariant starts with the found list itself.
\<close>

lemma groupsInvariant_beginSteps:
  assumes typed: "groupsTyped P"
  shows "groupsInvariant P (storedCollapsedGroups (cmdContainer cmd)) (beginSteps P conn ttl cmd)"
proof (cases "storage (cmdContainer cmd) ''launchpad:groups:collapsed''")
  case None
  have "set (mapKeys (initialCollapsed P defaultCollapsedGroups (initialGroup (initialState cmd))))
          \<subseteq> set (launchpadGroups P)"
    using typed by (auto simp: mapKeys_initialCollapsed groupsTyped_def split: option.splits)
  with None show ?thesis
    by (simp add: groupsInvariant_def beginSteps_def Let_def groupsKnown_def
          storedCollapsedGroups_def)
next
  case (Some v)
  show ?thesis
  proof (cases v)
    case (StoredGroups gs)
    have "set (mapKeys (initialCollapsed P gs (initialGroup (initialState cmd))))
          \<subseteq> set (launchpadGroups P) \<union> set gs"
      by (auto simp: mapKeys_initialCollapsed split: option.splits)
    with Some StoredGroups show ?thesis
      by (simp add: groupsInvariant_def beginSteps_def Let_def groupsKnown_def
            storedCollapsedGroups_def)
  next
    case (StoredString s)
    with Some show ?thesis
      by (simp add: groupsInvariant_def beginSteps_def storedCollapsedGroups_def)
  qed
qed

section \<open>Properties of the storage\<close>

lemma initialGroup_keeps_storage_handleEvent:
  assumes "initialGroup (wizardState w) \<noteq> None"
  shows "storage (containerOf (handleEvent P ev w)) = storage (container w)
       \<and> storedKeys (madeCalls (containerOf (handleEvent P ev w))) = storedKeys (madeCalls (container w))
       \<and> whileRunning (\<lambda>w'. initialGroup (wizardState w') \<noteq> None) (handleEvent P ev w)"
proof (cases "\<exists>e. ev = EntrySelected e")
  case False
  then have q: "quietOutcome w (handleEvent P ev w)"
    by (intro handleEvent_quiet) blast
  show ?thesis
  proof (cases "handleEvent P ev w")
    case (Running w')
    with q have "quiet w w'" by (simp add: quietOutcome_def)
    with assms Running show ?thesis by (simp add: quiet_def)
  next
    case (Thrown m k')
    with q show ?thesis by (simp add: quietOutcome_def)
  qed
next
  case True
  then obtain e where ev: "ev = EntrySelected e" by blast
  from selectEntry_cases [of P e w] show ?thesis
  proof (elim disjE exE conjE)
    assume "selectEntry P e w = w"
    with assms ev show ?thesis by simp
  next
    fix ui assume "selectEntry P e w = toggleGroup P ui w"
    with assms ev toggleGroup_with_initial_group [OF assms, of P ui] show ?thesis
      by (simp add: toggleGroup_unchanged)
  next
    fix x assume "selectEntry P e w = w\<lparr>wizardState := (wizardState w)\<lparr>item := x\<rparr>\<rparr>"
    with assms ev show ?thesis by simp
  qed
qed

lemma initialGroup_keeps_storage_runEvents:
  assumes "initialGroup (wizardState w) \<noteq> None"
  shows "storage (containerOf (runEvents P evs (Running w))) = storage (container w)
       \<and> storedKeys (madeCalls (containerOf (runEvents P evs (Running w))))
           = storedKeys (madeCalls (container w))"
proof -
  let ?I = "\<lambda>out. storage (containerOf out) = storage (container w)
       \<and> storedKeys (madeCalls (containerOf out)) = storedKeys (madeCalls (container w))
       \<and> whileRunning (\<lambda>w'. initialGroup (wizardState w') \<noteq> None) out"
  have "?I (runEvents P evs (Running w))"
  proof (rule runEvents_invariant [where I = ?I])
    fix ev w'
    assume "?I (Running w')"
    then show "?I (handleEvent P ev w')"
      using initialGroup_keeps_storage_handleEvent [of w' P ev] by simp
  next
    show "?I (Running w)"
      using assms by simp
  qed
  then show ?thesis by simp
qed

text \<open>
  Claim C5. Over a complete invocation (the constructor, the first lines of
  \<open>steps\<close>, and any run of the pieces of its loop and of the handlers of its quick
  picks), every storage key other than \<open>launchpad:groups:collapsed\<close> and
  \<open>launchpad:indicator:hasInteracted\<close> holds at the end what it held at the start,
  and every \<open>storage.store\<close> call the invocation adds has one of these two keys. The
  invocation hands back the container alone: its \<open>State\<close> and \<open>Context\<close> are not
  part of what is left when the wizard closes.
\<close>

theorem only_two_keys_are_stored:
  "(key \<noteq> ''launchpad:groups:collapsed'' \<and> key \<noteq> ''launchpad:indicator:hasInteracted'' \<longrightarrow>
      storage (invoke P k args now inst conn ttl evs) key = storage k key)
   \<and> set (storedKeys (madeCalls (invoke P k args now inst conn ttl evs)))
       \<subseteq> set (storedKeys (madeCalls k))
         \<union> {''launchpad:groups:collapsed'', ''launchpad:indicator:hasInteracted''}"
  using onlyLaunchpadKeys_invoke [of k P args now inst conn ttl evs]
  by (simp add: onlyLaunchpadKeys_def)

theorem only_two_keys_are_stored_witness:
  "storage (invoke exampleProvider otherStorage (Some indicatorArgs) ''2024-11-02T10:00:00.000Z'' 1
              [(GitHub, True)] ''GitLens Launchpad'' exampleEvents) ''gitlens:version''
     = Some (StoredString ''16'')
   \<and> set (storedKeys (madeCalls
        (invoke exampleProvider otherStorage (Some indicatorArgs) ''2024-11-02T10:00:00.000Z'' 1
           [(GitHub, True)] ''GitLens Launchpad'' exampleEvents)))
       \<subseteq> {''launchpad:groups:collapsed'', ''launchpad:indicator:hasInteracted''}
   \<and> storedKeys (madeCalls
        (invoke exampleProvider otherStorage (Some indicatorArgs) ''2024-11-02T10:00:00.000Z'' 1
           [(GitHub, True)] ''GitLens Launchpad'' exampleEvents))
       = [''launchpad:indicator:hasInteracted'', ''launchpad:groups:collapsed'']"
proof -
  have other: "storage otherStorage ''gitlens:version'' = Some (StoredString ''16'')"
    by (simp add: otherStorage_def)
  have fresh: "storedKeys (madeCalls otherStorage) = []"
    by (simp add: otherStorage_def)
  have differs: "''gitlens:version'' \<noteq> ''launchpad:groups:collapsed''
      \<and> ''gitlens:version'' \<noteq> ''launchpad:indicator:hasInteracted''"
    by simp
  have both: "storedKeys (madeCalls
        (invoke exampleProvider otherStorage (Some indicatorArgs) ''2024-11-02T10:00:00.000Z'' 1
           [(GitHub, True)] ''GitLens Launchpad'' exampleEvents))
       = [''launchpad:indicator:hasInteracted'', ''launchpad:groups:collapsed'']"
    by code_simp
  note two = only_two_keys_are_stored
               [of "''gitlens:version''" exampleProvider otherStorage "Some indicatorArgs"
                   "''2024-11-02T10:00:00.000Z''" 1 "[(GitHub, True)]" "''GitLens Launchpad''"
                   exampleEvents]
  from two differs have
    "storage (invoke exampleProvider otherStorage (Some indicatorArgs) ''2024-11-02T10:00:00.000Z'' 1
              [(GitHub, True)] ''GitLens Launchpad'' exampleEvents) ''gitlens:version''
       = storage otherStorage ''gitlens:version''"
    by blast
  moreover from two fresh have
    "set (storedKeys (madeCalls
        (invoke exampleProvider otherStorage (Some indicatorArgs) ''2024-11-02T10:00:00.000Z'' 1
           [(GitHub, True)] ''GitLens Launchpad'' exampleEvents)))
       \<subseteq> {''launchpad:groups:collapsed'', ''launchpad:indicator:hasInteracted''}"
    by simp
  ultimately show ?thesis
    using other both by simp
qed

text \<open>
  Claim C10. A toggle of a group heading always updates the collapsed map in memory.
  When the wizard was opened without an initial group, it also stores, under
  \<open>launchpad:groups:collapsed\<close>, the keys of the updated map whose value is true,
  with one \<open>storage.store\<close> call. When an initial group was given, the toggle leaves
  the storage as it was and makes no \<open>storage.store\<close> call, and so does every run
  of the wizard from such a state.
\<close>

theorem toggle_stores_only_without_initial_group:
  "collapsed (wizardContext (toggleGroup P ui w)) =
     mapSet ui (\<not> truthy (mapGet (collapsed (wizardContext w)) ui)) (collapsed (wizardContext w))
   \<and> (initialGroup (wizardState w) = None \<longrightarrow>
        storage (container (toggleGroup P ui w)) =
          (storage (container w))
            (''launchpad:groups:collapsed'' \<mapsto>
               StoredGroups
                 (filter (\<lambda>g. truthy (mapGet (collapsed (wizardContext (toggleGroup P ui w))) g))
                         (mapKeys (collapsed (wizardContext (toggleGroup P ui w))))))
        \<and> storedKeys (madeCalls (container (toggleGroup P ui w))) =
            storedKeys (madeCalls (container w)) @ [''launchpad:groups:collapsed''])
   \<and> (initialGroup (wizardState w) \<noteq> None \<longrightarrow>
        storage (container (toggleGroup P ui w)) = storage (container w)
        \<and> storedKeys (madeCalls (container (toggleGroup P ui w))) =
            storedKeys (madeCalls (container w))
        \<and> storage (containerOf (runEvents P evs (Running w))) = storage (container w)
        \<and> storedKeys (madeCalls (containerOf (runEvents P evs (Running w)))) =
            storedKeys (madeCalls (container w)))"
  using toggleGroup_collapsed [of P ui w]
    toggleGroup_storage_without_initial_group [of w P ui]
    toggleGroup_storedKeys_without_initial_group [of w P ui]
    toggleGroup_with_initial_group [of w P ui]
    initialGroup_keeps_storage_runEvents [of w P evs]
  by blast

theorem toggle_stores_only_without_initial_group_witness:
  "storage (container (toggleGroup exampleProvider ''mergeable''
              (exampleWizard (Items [exampleItem] None) []))) ''launchpad:groups:collapsed''
     = Some (StoredGroups [''draft'', ''other'', ''snoozed'', ''mergeable''])
   \<and> storedKeys (madeCalls (container (toggleGroup exampleProvider ''mergeable''
              (exampleWizard (Items [exampleItem] None) [])))) = [''launchpad:groups:collapsed'']
   \<and> collapsed (wizardContext (toggleGroup exampleProvider ''mergeable'' exampleWizardWithInitialGroup))
       = [(''draft'', True), (''other'', True), (''snoozed'', True), (''mergeable'', True)]
   \<and> storage (container (toggleGroup exampleProvider ''mergeable'' exampleWizardWithInitialGroup))
       ''launchpad:groups:collapsed'' = None
   \<and> storedKeys (madeCalls (container
        (toggleGroup exampleProvider ''mergeable'' exampleWizardWithInitialGroup))) = []
   \<and> storedKeys (madeCalls (containerOf
        (runEvents exampleProvider [EntrySelected (LaunchpadEntry exampleRow), ActionChosen (StringAction ''merge''), Dispatch]
           (Running exampleWizardWithInitialGroup)))) = []"
proof -
  let ?w = "exampleWizard (Items [exampleItem] None) []"
  let ?evs = "[EntrySelected (LaunchpadEntry exampleRow), ActionChosen (StringAction ''merge''), Dispatch]"
  note without = toggle_stores_only_without_initial_group [of exampleProvider "''mergeable''" ?w ?evs]
  note within = toggle_stores_only_without_initial_group
                  [of exampleProvider "''mergeable''" exampleWizardWithInitialGroup ?evs]
  have no_group: "initialGroup (wizardState ?w) = None"
    by (simp add: exampleWizard_def exampleState_def)
  have a_group: "initialGroup (wizardState exampleWizardWithInitialGroup) \<noteq> None"
    by (simp add: exampleWizardWithInitialGroup_def)
  have before: "collapsed (wizardContext ?w) = [(''draft'', True), (''other'', True), (''snoozed'', True)]"
               "collapsed (wizardContext exampleWizardWithInitialGroup)
                  = [(''draft'', True), (''other'', True), (''snoozed'', True)]"
               "storage (container exampleWizardWithInitialGroup) = (\<lambda>key. None)"
               "storedKeys (madeCalls (container ?w)) = []"
               "storedKeys (madeCalls (container exampleWizardWithInitialGroup)) = []"
    by (simp_all add: exampleWizard_def exampleWizardWithInitialGroup_def exampleContext_def
          exampleContainer_def)
  have after: "collapsed (wizardContext (toggleGroup exampleProvider ''mergeable'' ?w))
                  = [(''draft'', True), (''other'', True), (''snoozed'', True), (''mergeable'', True)]"
    using without before by (simp add: mapGet_def truthy_def)
  have c1: "storage (container (toggleGroup exampleProvider ''mergeable'' ?w)) ''launchpad:groups:collapsed''
     = Some (StoredGroups [''draft'', ''other'', ''snoozed'', ''mergeable''])"
    using without no_group after by (simp add: mapGet_def truthy_def mapKeys_def)
  have c2: "storedKeys (madeCalls (container (toggleGroup exampleProvider ''mergeable'' ?w)))
     = [''launchpad:groups:collapsed'']"
    using without no_group before by simp
  have c3: "collapsed (wizardContext (toggleGroup exampleProvider ''mergeable'' exampleWizardWithInitialGroup))
       = [(''draft'', True), (''other'', True), (''snoozed'', True), (''mergeable'', True)]"
    using within before by (simp add: mapGet_def truthy_def)
  have c4: "storage (container (toggleGroup exampleProvider ''mergeable'' exampleWizardWithInitialGroup))
       ''launchpad:groups:collapsed'' = None"
    using within a_group before by simp
  have c5: "storedKeys (madeCalls (container
        (toggleGroup exampleProvider ''mergeable'' exampleWizardWithInitialGroup))) = []"
    using within a_group before by simp
  have c6: "storedKeys (madeCalls (containerOf
        (runEvents exampleProvider ?evs (Running exampleWizardWithInitialGroup)))) = []"
    using within a_group before by simp
  from c1 c2 c3 c4 c5 c6 show ?thesis
    by blast
qed

section \<open>The groups that are keys of the collapsed map\<close>

text \<open>
  Claim C4, amended. In every state that a wizard invocation reaches (after the first
  lines of \<open>steps\<close>, with or without an initial group, and after any run of the
  pieces of its loop and of its handlers, heading toggles among them), every key of
  the context's collapsed map is a member of \<open>launchpadGroups\<close> or of the list that
  the invocation found stored under \<open>launchpad:groups:collapsed\<close>; and so is every
  member of the list stored under that key afterwards. So the keys are known groups
  whenever the list found in the storage holds known groups only, which \<open>steps\<close>
  does not check. The two conditions are the types of the absent collaborators: the
  keys of the provider's grouping (the groups whose headings can be toggled) and the
  default collapsed groups are of type \<open>LaunchpadGroup\<close>, the type of the members of
  \<open>launchpadGroups\<close>.
\<close>

theorem collapsed_keys_are_known_or_found_groups:
  assumes "\<forall>xs. fst ` set (groupAndSortLaunchpadItems P xs) \<subseteq> set (launchpadGroups P)"
      and "set defaultCollapsedGroups \<subseteq> set (launchpadGroups P)"
  shows "set (collapsedKeys (runEvents P evs
                (beginSteps P conn ttl (newLaunchpadCommand k args now inst))))
           \<subseteq> set (launchpadGroups P) \<union> set (storedCollapsedGroups k)
       \<and> set (storedCollapsedGroups (invoke P k args now inst conn ttl evs))
           \<subseteq> set (launchpadGroups P) \<union> set (storedCollapsedGroups k)
       \<and> (set (storedCollapsedGroups k) \<subseteq> set (launchpadGroups P) \<longrightarrow>
            set (collapsedKeys (runEvents P evs
                   (beginSteps P conn ttl (newLaunchpadCommand k args now inst))))
              \<subseteq> set (launchpadGroups P)
            \<and> set (storedCollapsedGroups (invoke P k args now inst conn ttl evs))
              \<subseteq> set (launchpadGroups P))"
proof -
  let ?out = "runEvents P evs (beginSteps P conn ttl (newLaunchpadCommand k args now inst))"
  have typed: "groupsTyped P"
    using assms by (simp add: groupsTyped_def)
  then have "groupsInvariant P (storedCollapsedGroups (cmdContainer (newLaunchpadCommand k args now inst)))
               (beginSteps P conn ttl (newLaunchpadCommand k args now inst))"
    by (rule groupsInvariant_beginSteps)
  then have "groupsInvariant P (storedCollapsedGroups k)
               (beginSteps P conn ttl (newLaunchpadCommand k args now inst))"
    by (simp add: storedCollapsedGroups_newLaunchpadCommand)
  with typed have inv: "groupsInvariant P (storedCollapsedGroups k) ?out"
    by (rule groupsInvariant_runEvents)
  have keys: "set (collapsedKeys ?out) \<subseteq> set (launchpadGroups P) \<union> set (storedCollapsedGroups k)"
  proof (cases ?out)
    case (Running w)
    with inv show ?thesis by (simp add: groupsInvariant_def groupsKnown_def)
  next
    case (Thrown m k')
    then show ?thesis by simp
  qed
  have list: "set (storedCollapsedGroups (invoke P k args now inst conn ttl evs))
                \<subseteq> set (launchpadGroups P) \<union> set (storedCollapsedGroups k)"
    using inv by (simp add: groupsInvariant_def invoke_def)
  from keys list show ?thesis
    by blast
qed

theorem collapsed_keys_are_known_or_found_groups_witness:
  "collapsedKeys (exampleRun indicatorArgs) = [''draft'', ''other'', ''snoozed'', ''mergeable'']
   \<and> set (collapsedKeys (exampleRun indicatorArgs)) \<subseteq> set (launchpadGroups exampleProvider)
   \<and> storedCollapsedGroups (containerOf (exampleRun indicatorArgs))
       = [''draft'', ''other'', ''snoozed'', ''mergeable'']
   \<and> set (storedCollapsedGroups (containerOf (exampleRun indicatorArgs)))
       \<subseteq> set (launchpadGroups exampleProvider)
   \<and> collapsedKeys (exampleRun initialGroupArgs)
       = [''draft'', ''other'', ''snoozed'', ''current-branch'', ''pinned'', ''mergeable'',
          ''blocked'', ''follow-up'', ''needs-review'', ''waiting-for-review'']
   \<and> set (collapsedKeys (exampleRun initialGroupArgs)) \<subseteq> set (launchpadGroups exampleProvider)
   \<and> set (collapsedKeys (legacyRun exampleEvents))
       \<subseteq> set (launchpadGroups exampleProvider) \<union> set [''legacy-group'', ''draft'']"
proof -
  have grouping: "\<forall>xs. fst ` set (groupAndSortLaunchpadItems exampleProvider xs)
                    \<subseteq> set (launchpadGroups exampleProvider)"
    by (simp add: exampleProvider_def)
  have defaults: "set defaultCollapsedGroups \<subseteq> set (launchpadGroups exampleProvider)"
    by (simp add: exampleProvider_def defaultCollapsedGroups_def)
  have empty: "set (storedCollapsedGroups otherStorage) \<subseteq> set (launchpadGroups exampleProvider)"
    by (simp add: storedCollapsedGroups_def otherStorage_def)
  have legacy: "storedCollapsedGroups legacyStorage = [''legacy-group'', ''draft'']"
    by (simp add: storedCollapsedGroups_def legacyStorage_def)
  note known = collapsed_keys_are_known_or_found_groups [OF grouping defaults]
  note plain = known [of exampleEvents "[(GitHub, True)]" "''GitLens Launchpad''" otherStorage
                         "Some indicatorArgs" "''2024-11-02T10:00:00.000Z''" 1,
                      folded exampleRun_def]
  note grouped = known [of exampleEvents "[(GitHub, True)]" "''GitLens Launchpad''" otherStorage
                           "Some initialGroupArgs" "''2024-11-02T10:00:00.000Z''" 1,
                        folded exampleRun_def]
  note found = known [of exampleEvents "[(GitHub, True)]" "''GitLens Launchpad''" legacyStorage
                         None "''2024-11-02T10:00:00.000Z''" 1,
                      folded legacyRun_def, unfolded legacy]
  have inv: "invoke exampleProvider otherStorage (Some indicatorArgs) ''2024-11-02T10:00:00.000Z'' 1
               [(GitHub, True)] ''GitLens Launchpad'' exampleEvents
             = containerOf (exampleRun indicatorArgs)"
    by (simp add: invoke_def exampleRun_def)
  have k1: "collapsedKeys (exampleRun indicatorArgs) = [''draft'', ''other'', ''snoozed'', ''mergeable'']"
    by code_simp
  have k2: "storedCollapsedGroups (containerOf (exampleRun indicatorArgs))
       = [''draft'', ''other'', ''snoozed'', ''mergeable'']"
    by code_simp
  have k3: "collapsedKeys (exampleRun initialGroupArgs)
       = [''draft'', ''other'', ''snoozed'', ''current-branch'', ''pinned'', ''mergeable'',
          ''blocked'', ''follow-up'', ''needs-review'', ''waiting-for-review'']"
    by code_simp
  from plain [unfolded inv] empty
  have c2: "set (collapsedKeys (exampleRun indicatorArgs)) \<subseteq> set (launchpadGroups exampleProvider)"
    and c4: "set (storedCollapsedGroups (containerOf (exampleRun indicatorArgs)))
       \<subseteq> set (launchpadGroups exampleProvider)"
    by blast+
  from grouped empty have c6: "set (collapsedKeys (exampleRun initialGroupArgs))
       \<subseteq> set (launchpadGroups exampleProvider)"
    by blast
  from found have c7: "set (collapsedKeys (legacyRun exampleEvents))
       \<subseteq> set (launchpadGroups exampleProvider) \<union> set [''legacy-group'', ''draft'']"
    by blast
  from k1 c2 k2 c4 k3 c6 c7 show ?thesis
    by blast
qed

text \<open>
  The claim as first stated fails on a stored list that holds an unknown group. Over
  \<open>legacyStorage\<close>, the first lines of \<open>steps\<close> make \<open>legacy-group\<close> a key of the
  collapsed map, and once the user has toggled the heading of \<open>mergeable\<close> the list
  stored again holds it.
\<close>

theorem stored_unknown_group_becomes_key:
  "''legacy-group'' \<notin> set (launchpadGroups exampleProvider)
   \<and> collapsedKeys (legacyRun []) = [''legacy-group'', ''draft'']
   \<and> \<not> set (collapsedKeys (legacyRun [])) \<subseteq> set (launchpadGroups exampleProvider)
   \<and> collapsedKeys (legacyRun exampleEvents) = [''legacy-group'', ''draft'', ''mergeable'']
   \<and> \<not> set (collapsedKeys (legacyRun exampleEvents)) \<subseteq> set (launchpadGroups exampleProvider)
   \<and> storedCollapsedGroups (containerOf (legacyRun exampleEvents))
       = [''legacy-group'', ''draft'', ''mergeable'']"
  by code_simp

section \<open>The debounced refresh\<close>

subsection \<open>The handlers in time are the handlers\<close>

lemma updateItems_NotRun: "updateItems P NotRun w = finallyNotBusy w"
  by (simp add: updateItems_def finallyNotBusy_def Let_def)

lemma updateItems_Ran:
  "updateItems P (Ran fetched conn cancelled) w =
     finallyNotBusy
       (refreshCallback P (qpValue (quickpick w)) fetched conn cancelled
          (w\<lparr>quickpick := (quickpick w)\<lparr>busy := True\<rparr>\<rparr>))"
  by (simp add: updateItems_def refreshCallback_def finallyNotBusy_def Let_def
        updateContextItems_def)

lemma onDidChangeValue_awaited:
  "onDidChangeValue P v run w = awaited P run (onDidChangeValueBefore P v w)"
  by (simp add: onDidChangeValue_def onDidChangeValueBefore_def Let_def
        split: option.splits bool.splits)

lemma handleEvent_awaited:
  "handleEvent P (inputEvent i run) w = awaited P run (beforeUpdateItems P i w)"
proof (cases i)
  case (TypedValue v)
  then show ?thesis
    by (simp add: beforeUpdateItems_def onDidChangeValue_awaited)
next
  case (TitleButton b url)
  then show ?thesis
    by (cases b) (simp_all add: beforeUpdateItems_def onDidClickButton_def)
next
  case (ItemButton b e)
  then show ?thesis
    by (cases e) (simp_all add: beforeUpdateItems_def onDidClickItemButton_def)
qed

subsection \<open>The invariant of the debouncer\<close>

lemma debounced_picker [simp]: "debounced (s\<lparr>picker := w\<rparr>) = debounced s"
  by (simp add: debounced_def superseded_def)

lemma debounced_openTimed: "debounced (openTimed now w)"
  by (simp add: debounced_def openTimed_def updateItemsDebouncer_def createAsyncDebouncer_def)

lemma debounced_requestRefresh: "debounced s \<Longrightarrow> debounced (requestRefresh fetched conn takes s)"
  by (auto simp: debounced_def requestRefresh_def Let_def debounce_def superseded_def
        isCancellationRequested_def)

lemma debounced_cancelRefresh: "debounced s \<Longrightarrow> debounced (cancelRefresh s)"
  by (auto simp: debounced_def cancelRefresh_def cancelDebouncer_def superseded_def
        isCancellationRequested_def)

lemma debounced_startDue:
  assumes "debounced s"
  shows "debounced (startDue (s\<lparr>clock := Suc (clock s)\<rparr>))"
proof (cases "armed (debouncer s)")
  case None
  with assms show ?thesis
    by (simp add: startDue_def fireTimer_def debounced_def superseded_def)
next
  case (Some a)
  obtain due r where a: "a = (due, r)" by (cases a)
  from assms Some a have timer: "due = requestedAt r + 500" "clock s < due"
    "operationNumber r = operations s" "liveToken (debouncer s) = None"
    "\<forall>c \<in> set (started s). superseded s c"
    by (auto simp: debounced_def)
  show ?thesis
  proof (cases "due \<le> Suc (clock s)")
    case True
    with timer(2) have due: "due = Suc (clock s)" by simp
    from assms have old: "\<forall>c \<in> set (started s).
        startedAt c = requestedAt (startedRefresh c) + 500
        \<and> token c < issued (debouncer s)
        \<and> operationNumber (startedRefresh c) \<le> operations s"
      by (simp add: debounced_def)
    from assms have d: "delayMs (debouncer s) = 500" by (simp add: debounced_def)
    show ?thesis
      using Some a True due timer old d
      by (auto simp: startDue_def fireTimer_def debounced_def superseded_def
            isCancellationRequested_def)
  next
    case False
    with assms Some a show ?thesis
      by (auto simp: startDue_def fireTimer_def debounced_def superseded_def)
  qed
qed

lemma debounced_returnCallback: "debounced s \<Longrightarrow> debounced (returnCallback P c s)"
  by (auto simp: debounced_def returnCallback_def Let_def superseded_def)

lemma debounced_returnAll: "debounced s \<Longrightarrow> debounced (returnAll P cs s)"
  by (induction cs arbitrary: s) (simp_all add: debounced_returnCallback)

lemma debounced_tick: "debounced s \<Longrightarrow> debounced (tick P s)"
  by (simp add: tick_def Let_def debounced_returnAll debounced_startDue)

lemma debounced_timedStep: "debounced s \<Longrightarrow> whileTicking debounced (timedStep P ev s)"
proof (cases ev)
  case Tick
  assume "debounced s"
  with Tick show ?thesis by (simp add: debounced_tick)
next
  case (Pick i fetched conn takes)
  assume inv: "debounced s"
  obtain u out where b: "beforeUpdateItems P i (picker s) = (u, out)"
    by (cases "beforeUpdateItems P i (picker s)")
  show ?thesis
  proof (cases out)
    case (Thrown m k)
    with Pick b show ?thesis by (cases u) simp_all
  next
    case (Running w)
    with Pick b inv show ?thesis
      by (cases u) (simp_all add: debounced_requestRefresh debounced_cancelRefresh)
  qed
qed

lemma debounced_runTimed:
  "whileTicking debounced out \<Longrightarrow> whileTicking debounced (runTimed P evs out)"
proof (induction evs arbitrary: out)
  case Nil
  then show ?case by simp
next
  case (Cons ev evs)
  show ?case
  proof (cases out)
    case (Ticking s)
    with Cons.prems have "whileTicking debounced (timedStep P ev s)"
      by (simp add: debounced_timedStep)
    then have "whileTicking debounced (runTimed P evs (timedStep P ev s))"
      by (rule Cons.IH)
    with Ticking show ?thesis by simp
  next
    case (Stopped m k)
    then show ?thesis by simp
  qed
qed

subsection \<open>What a search arms, what a due timer starts, what a cancelled callback leaves\<close>

lemma onDidChangeValueBefore_calls:
  assumes "onDidChangeValueBefore P v w = (CallsUpdateItems, out)"
  shows "\<exists>w'. out = Running w' \<and> qpValue (quickpick w') = v"
  using assms
  by (auto simp: onDidChangeValueBefore_def Let_def split: if_splits option.splits bool.splits)

lemma timerOf_search:
  assumes "fst (beforeUpdateItems P (TypedValue v) (picker s)) = CallsUpdateItems"
  shows "timerOf (timedStep P (Pick (TypedValue v) fetched conn takes) s)
           = Some (clock s + delayMs (debouncer s), v)"
proof -
  obtain out where b: "onDidChangeValueBefore P v (picker s) = (CallsUpdateItems, out)"
    using assms by (cases "onDidChangeValueBefore P v (picker s)") (simp add: beforeUpdateItems_def)
  from onDidChangeValueBefore_calls [OF this]
  obtain w' where "out = Running w'" and "qpValue (quickpick w') = v"
    by blast
  with b show ?thesis
    by (simp add: beforeUpdateItems_def requestRefresh_def Let_def debounce_def)
qed

lemma search_calls_updateItems:
  assumes "v \<noteq> []" and "prNumber (getPullRequestIdentityValuesFromSearch P v) = None"
  shows "fst (beforeUpdateItems P (TypedValue v) w) = CallsUpdateItems"
  using assms by (simp add: beforeUpdateItems_def onDidChangeValueBefore_def Let_def)

lemma startDue_when_due:
  assumes "armed (debouncer s) = Some (Suc (clock s), r)"
  shows "armed (debouncer (startDue (s\<lparr>clock := Suc (clock s)\<rparr>))) = None
         \<and> started (startDue (s\<lparr>clock := Suc (clock s)\<rparr>))
             = started s @ [\<lparr>startedRefresh = r, token = issued (debouncer s),
                              startedAt = Suc (clock s)\<rparr>]"
  using assms by (simp add: startDue_def fireTimer_def)

lemma quickpick_refreshCallback_cancelled:
  "quickpick (refreshCallback P srch fetched conn True w) = quickpick w"
  by (simp add: refreshCallback_def Let_def updateContextItems_def)

lemma returnCallback_cancelled:
  assumes "isCancellationRequested (debouncer s) (token c)"
  shows "quickpick (picker (returnCallback P c s)) = (quickpick (picker s))\<lparr>busy := False\<rparr>"
  using assms
  by (simp add: returnCallback_def Let_def finallyNotBusy_def quickpick_refreshCallback_cancelled)

lemma startDue_frame:
  "picker (startDue s) = picker s \<and> operations (startDue s) = operations s
   \<and> clock (startDue s) = clock s"
  by (simp add: startDue_def split: prod.splits option.splits)

lemma returnCallback_frame:
  "debouncer (returnCallback P c s) = debouncer s \<and> clock (returnCallback P c s) = clock s"
  by (simp add: returnCallback_def Let_def)

lemma returnAll_cancelled:
  assumes "\<forall>c \<in> set cs. returnsAt c \<le> clock s \<longrightarrow> isCancellationRequested (debouncer s) (token c)"
  shows "qpItems (quickpick (picker (returnAll P cs s))) = qpItems (quickpick (picker s))
         \<and> placeholder (quickpick (picker (returnAll P cs s))) = placeholder (quickpick (picker s))"
  using assms
proof (induction cs arbitrary: s)
  case Nil
  then show ?case by simp
next
  case (Cons c cs)
  show ?case
  proof (cases "returnsAt c \<le> clock s")
    case True
    with Cons.prems have "isCancellationRequested (debouncer s) (token c)" by simp
    then have q: "quickpick (picker (returnCallback P c s)) = (quickpick (picker s))\<lparr>busy := False\<rparr>"
      by (rule returnCallback_cancelled)
    have "\<forall>x \<in> set cs. returnsAt x \<le> clock (returnCallback P c s) \<longrightarrow>
            isCancellationRequested (debouncer (returnCallback P c s)) (token x)"
      using Cons.prems by (simp add: returnCallback_frame)
    from Cons.IH [OF this] True q show ?thesis by simp
  next
    case False
    have "\<forall>x \<in> set cs. returnsAt x \<le> clock s \<longrightarrow> isCancellationRequested (debouncer s) (token x)"
      using Cons.prems by simp
    from Cons.IH [OF this] False show ?thesis by simp
  qed
qed

lemma tick_superseded:
  assumes inv: "debounced s"
      and sup: "\<forall>c \<in> set (started (startDue (s\<lparr>clock := Suc (clock s)\<rparr>))).
                  returnsAt c \<le> Suc (clock s) \<longrightarrow> superseded s c"
  shows "qpItems (quickpick (picker (tick P s))) = qpItems (quickpick (picker s))
         \<and> placeholder (quickpick (picker (tick P s))) = placeholder (quickpick (picker s))"
proof -
  let ?s1 = "startDue (s\<lparr>clock := Suc (clock s)\<rparr>)"
  have frame: "picker ?s1 = picker s" "operations ?s1 = operations s" "clock ?s1 = Suc (clock s)"
    using startDue_frame [of "s\<lparr>clock := Suc (clock s)\<rparr>"] by simp_all
  from inv have inv1: "debounced ?s1" by (rule debounced_startDue)
  have "\<forall>c \<in> set (started ?s1). returnsAt c \<le> clock ?s1 \<longrightarrow>
          isCancellationRequested (debouncer ?s1) (token c)"
  proof (intro ballI impI)
    fix c assume c: "c \<in> set (started ?s1)" and "returnsAt c \<le> clock ?s1"
    with sup frame have "superseded s c" by simp
    then have "superseded ?s1 c" by (simp add: superseded_def frame)
    with inv1 c show "isCancellationRequested (debouncer ?s1) (token c)"
      by (simp add: debounced_def)
  qed
  from returnAll_cancelled [OF this, of P] frame show ?thesis
    by (simp add: tick_def Let_def)
qed

text \<open>
  Claim C7. In every state that an open pick step reaches in time, from a debouncer
  as it was created, by any sequence of milliseconds and of inputs of the user:
  typing a text for which \<open>onDidChangeValue\<close> comes to \<open>updateItems\<close> (as it does
  for every text with no pull-request number in it) arms the timer of the debouncer
  for 500 milliseconds later, with that text as the search; an armed timer is due 500 milliseconds
  after the call that armed it, the last operation on the debouncer, and when it is
  due the callback starts; every callback under way started 500 milliseconds after
  its call; its token is cancelled just when it is superseded, that is when the
  debouncer has been called or cancelled since; the return of a superseded callback
  leaves \<open>quickpick.items\<close> and \<open>quickpick.placeholder\<close> as they are, and so does
  every millisecond in which the callbacks that return are superseded ones.
  In terms of the token alone: when the request's cancellation token is cancelled
  once the provider has answered, or when the debouncer never runs the request,
  \<open>updateItems\<close> returns with \<open>quickpick.items\<close> and \<open>quickpick.placeholder\<close>
  (and the typed text) as they were. What a cancelled request does change is outside
  the list and the placeholder: \<open>busy\<close> is cleared by the \<open>finally\<close>, and
  \<open>context.result\<close> holds what the provider answered.
\<close>

theorem search_refresh_is_debounced_and_superseded_is_silent:
  "whileTicking
     (\<lambda>s. (\<forall>v answer connected takes.
              fst (beforeUpdateItems P (TypedValue v) (picker s)) = CallsUpdateItems \<longrightarrow>
                timerOf (timedStep P (Pick (TypedValue v) answer connected takes) s)
                  = Some (clock s + 500, v))
          \<and> (\<forall>v. v \<noteq> [] \<and> prNumber (getPullRequestIdentityValuesFromSearch P v) = None \<longrightarrow>
                fst (beforeUpdateItems P (TypedValue v) (picker s)) = CallsUpdateItems)
          \<and> (\<forall>due r. armed (debouncer s) = Some (due, r) \<longrightarrow>
                due = requestedAt r + 500 \<and> clock s < due
                \<and> operationNumber r = operations s
                \<and> (due = Suc (clock s) \<longrightarrow>
                     armed (debouncer (startDue (s\<lparr>clock := Suc (clock s)\<rparr>))) = None
                     \<and> started (startDue (s\<lparr>clock := Suc (clock s)\<rparr>))
                         = started s @ [\<lparr>startedRefresh = r, token = issued (debouncer s),
                                          startedAt = due\<rparr>]))
          \<and> (\<forall>c \<in> set (started s).
                startedAt c = requestedAt (startedRefresh c) + 500
                \<and> (superseded s c \<longleftrightarrow> isCancellationRequested (debouncer s) (token c))
                \<and> (superseded s c \<longrightarrow>
                     qpItems (quickpick (picker (returnCallback P c s)))
                       = qpItems (quickpick (picker s))
                     \<and> placeholder (quickpick (picker (returnCallback P c s)))
                         = placeholder (quickpick (picker s))))
          \<and> ((\<forall>c \<in> set (started (startDue (s\<lparr>clock := Suc (clock s)\<rparr>))).
                  returnsAt c \<le> Suc (clock s) \<longrightarrow> superseded s c) \<longrightarrow>
               qpItems (quickpick (picker (tick P s))) = qpItems (quickpick (picker s))
               \<and> placeholder (quickpick (picker (tick P s))) = placeholder (quickpick (picker s))))
     (runTimed P evs (Ticking (openTimed now w)))
   \<and> qpItems (quickpick (updateItems P (Ran fetched conn True) w)) = qpItems (quickpick w)
   \<and> placeholder (quickpick (updateItems P (Ran fetched conn True) w)) = placeholder (quickpick w)
   \<and> qpValue (quickpick (updateItems P (Ran fetched conn True) w)) = qpValue (quickpick w)
   \<and> qpItems (quickpick (updateItems P NotRun w)) = qpItems (quickpick w)
   \<and> placeholder (quickpick (updateItems P NotRun w)) = placeholder (quickpick w)
   \<and> qpValue (quickpick (updateItems P NotRun w)) = qpValue (quickpick w)
   \<and> busy (quickpick (updateItems P (Ran fetched conn True) w)) = False
   \<and> result (wizardContext (updateItems P (Ran fetched conn True) w)) = fetched"
proof -
  let ?out = "runTimed P evs (Ticking (openTimed now w))"
  let ?holds = "\<lambda>s. (\<forall>v answer connected takes.
              fst (beforeUpdateItems P (TypedValue v) (picker s)) = CallsUpdateItems \<longrightarrow>
                timerOf (timedStep P (Pick (TypedValue v) answer connected takes) s)
                  = Some (clock s + 500, v))
          \<and> (\<forall>v. v \<noteq> [] \<and> prNumber (getPullRequestIdentityValuesFromSearch P v) = None \<longrightarrow>
                fst (beforeUpdateItems P (TypedValue v) (picker s)) = CallsUpdateItems)
          \<and> (\<forall>due r. armed (debouncer s) = Some (due, r) \<longrightarrow>
                due = requestedAt r + 500 \<and> clock s < due
                \<and> operationNumber r = operations s
                \<and> (due = Suc (clock s) \<longrightarrow>
                     armed (debouncer (startDue (s\<lparr>clock := Suc (clock s)\<rparr>))) = None
                     \<and> started (startDue (s\<lparr>clock := Suc (clock s)\<rparr>))
                         = started s @ [\<lparr>startedRefresh = r, token = issued (debouncer s),
                                          startedAt = due\<rparr>]))
          \<and> (\<forall>c \<in> set (started s).
                startedAt c = requestedAt (startedRefresh c) + 500
                \<and> (superseded s c \<longleftrightarrow> isCancellationRequested (debouncer s) (token c))
                \<and> (superseded s c \<longrightarrow>
                     qpItems (quickpick (picker (returnCallback P c s)))
                       = qpItems (quickpick (picker s))
                     \<and> placeholder (quickpick (picker (returnCallback P c s)))
                         = placeholder (quickpick (picker s))))
          \<and> ((\<forall>c \<in> set (started (startDue (s\<lparr>clock := Suc (clock s)\<rparr>))).
                  returnsAt c \<le> Suc (clock s) \<longrightarrow> superseded s c) \<longrightarrow>
               qpItems (quickpick (picker (tick P s))) = qpItems (quickpick (picker s))
               \<and> placeholder (quickpick (picker (tick P s))) = placeholder (quickpick (picker s)))"
  have "whileTicking debounced (Ticking (openTimed now w))"
    by (simp add: debounced_openTimed)
  then have inv: "whileTicking debounced ?out"
    by (rule debounced_runTimed)
  have step: "?holds s" if s: "debounced s" for s
  proof (intro conjI allI impI ballI)
    fix v assume "v \<noteq> [] \<and> prNumber (getPullRequestIdentityValuesFromSearch P v) = None"
    then have "v \<noteq> []" and "prNumber (getPullRequestIdentityValuesFromSearch P v) = None"
      by simp_all
    then show "fst (beforeUpdateItems P (TypedValue v) (picker s)) = CallsUpdateItems"
      by (rule search_calls_updateItems)
  next
    fix v answer connected takes
    assume "fst (beforeUpdateItems P (TypedValue v) (picker s)) = CallsUpdateItems"
    then have "timerOf (timedStep P (Pick (TypedValue v) answer connected takes) s)
                 = Some (clock s + delayMs (debouncer s), v)"
      by (rule timerOf_search)
    with s show "timerOf (timedStep P (Pick (TypedValue v) answer connected takes) s)
                   = Some (clock s + 500, v)"
      by (simp add: debounced_def)
  next
    fix due r assume "armed (debouncer s) = Some (due, r)"
    with s show "due = requestedAt r + 500" "clock s < due" "operationNumber r = operations s"
      by (simp_all add: debounced_def)
  next
    fix due r assume a: "armed (debouncer s) = Some (due, r)" and d: "due = Suc (clock s)"
    from a d have "armed (debouncer s) = Some (Suc (clock s), r)" by simp
    from startDue_when_due [OF this] d
    show "armed (debouncer (startDue (s\<lparr>clock := Suc (clock s)\<rparr>))) = None"
      and "started (startDue (s\<lparr>clock := Suc (clock s)\<rparr>))
             = started s @ [\<lparr>startedRefresh = r, token = issued (debouncer s), startedAt = due\<rparr>]"
      by simp_all
  next
    fix c assume c: "c \<in> set (started s)"
    with s show "startedAt c = requestedAt (startedRefresh c) + 500"
      and iff: "superseded s c \<longleftrightarrow> isCancellationRequested (debouncer s) (token c)"
      by (simp_all add: debounced_def)
    assume "superseded s c"
    with iff have "isCancellationRequested (debouncer s) (token c)" by simp
    then have "quickpick (picker (returnCallback P c s)) = (quickpick (picker s))\<lparr>busy := False\<rparr>"
      by (rule returnCallback_cancelled)
    then show "qpItems (quickpick (picker (returnCallback P c s))) = qpItems (quickpick (picker s))"
      and "placeholder (quickpick (picker (returnCallback P c s))) = placeholder (quickpick (picker s))"
      by simp_all
  next
    assume "\<forall>c \<in> set (started (startDue (s\<lparr>clock := Suc (clock s)\<rparr>))).
              returnsAt c \<le> Suc (clock s) \<longrightarrow> superseded s c"
    with s show "qpItems (quickpick (picker (tick P s))) = qpItems (quickpick (picker s))"
      and "placeholder (quickpick (picker (tick P s))) = placeholder (quickpick (picker s))"
      using tick_superseded [of s P] by simp_all
  qed
  have run: "whileTicking ?holds ?out"
  proof (cases ?out)
    case (Ticking s)
    with inv have "debounced s" by simp
    then have "?holds s" by (rule step)
    with Ticking show ?thesis by simp
  next
    case (Stopped m k)
    then show ?thesis by simp
  qed
  have token: "qpItems (quickpick (updateItems P (Ran fetched conn True) w)) = qpItems (quickpick w)
   \<and> placeholder (quickpick (updateItems P (Ran fetched conn True) w)) = placeholder (quickpick w)
   \<and> qpValue (quickpick (updateItems P (Ran fetched conn True) w)) = qpValue (quickpick w)
   \<and> qpItems (quickpick (updateItems P NotRun w)) = qpItems (quickpick w)
   \<and> placeholder (quickpick (updateItems P NotRun w)) = placeholder (quickpick w)
   \<and> qpValue (quickpick (updateItems P NotRun w)) = qpValue (quickpick w)
   \<and> busy (quickpick (updateItems P (Ran fetched conn True) w)) = False
   \<and> result (wizardContext (updateItems P (Ran fetched conn True) w)) = fetched"
    by (simp add: quickpick_updateItems_cancelled quickpick_updateItems_NotRun
          result_updateItems_Ran)
  from run token show ?thesis
    by (rule conjI)
qed

theorem search_refresh_is_debounced_and_superseded_is_silent_witness:
  "timedRun = Ticking timedState
   \<and> timedView timedRun
       = (600, 2, Some (1100, ''fix''), [(''f'', 0, 1, 500, 0)],
          Some ''Choose an item, type a term to search, or paste in a PR URL'',
          [LaunchpadEntry exampleRow])
   \<and> startedAt (hd (started timedState))
       = requestedAt (startedRefresh (hd (started timedState))) + 500
   \<and> superseded timedState (hd (started timedState))
   \<and> isCancellationRequested (debouncer timedState) (token (hd (started timedState)))
   \<and> qpItems (quickpick (picker (returnCallback exampleProvider (hd (started timedState))
                                   timedState)))
       = qpItems (quickpick (picker timedState))
   \<and> placeholder (quickpick (picker (returnCallback exampleProvider (hd (started timedState))
                                       timedState)))
       = placeholder (quickpick (picker timedState))
   \<and> timerOf (timedStep exampleProvider (Pick (TypedValue ''fixes'') (Items [] None) [] 0)
                 timedState)
       = Some (1100, ''fixes'')
   \<and> timedView (timedRunLater 1)
       = (601, 2, Some (1100, ''fix''), [],
          Some ''Choose an item, type a term to search, or paste in a PR URL'',
          [LaunchpadEntry exampleRow])
   \<and> timedView lastingRun
       = (500, 1, None, [],
          Some ''Unable to load items (503: HttpError: Service Unavailable)'',
          [LaunchpadEntry exampleRow])"
proof -
  have seen: "timedView timedRun
       = (600, 2, Some (1100, ''fix''), [(''f'', 0, 1, 500, 0)],
          Some ''Choose an item, type a term to search, or paste in a PR URL'',
          [LaunchpadEntry exampleRow])"
    by code_simp
  have later: "timedView (timedRunLater 1)
       = (601, 2, Some (1100, ''fix''), [],
          Some ''Choose an item, type a term to search, or paste in a PR URL'',
          [LaunchpadEntry exampleRow])"
    by code_simp
  have lasting: "timedView lastingRun
       = (500, 1, None, [],
          Some ''Unable to load items (503: HttpError: Service Unavailable)'',
          [LaunchpadEntry exampleRow])"
    by code_simp
  have run: "timedRun = Ticking timedState"
  proof (cases timedRun)
    case (Ticking s)
    show ?thesis unfolding timedState_def Ticking by simp
  next
    case (Stopped m k)
    from seen show ?thesis unfolding Stopped by simp
  qed
  from seen have c1: "clock timedState = 600" and c2: "operations timedState = 2"
    and c4: "map (\<lambda>c. (refreshSearch (startedRefresh c), requestedAt (startedRefresh c),
                 operationNumber (startedRefresh c), startedAt c, token c))
          (started timedState) = [(''f'', 0, 1, 500, 0)]"
    by (simp_all add: run)
  from c4 have ne: "started timedState \<noteq> []" by auto
  then have mem: "hd (started timedState) \<in> set (started timedState)" by simp
  from c4 ne have "operationNumber (startedRefresh (hd (started timedState))) = 1"
    by (cases "started timedState") auto
  with c2 have c7: "superseded timedState (hd (started timedState))"
    by (simp add: superseded_def)
  note t = search_refresh_is_debounced_and_superseded_is_silent
             [of exampleProvider timedEvents 0 "exampleWizard (Items [exampleItem] None) []",
              folded timedRun_def, unfolded run whileTicking.simps]
  have "prNumber (getPullRequestIdentityValuesFromSearch exampleProvider ''fixes'') = None"
    by (simp add: exampleProvider_def)
  with t have "fst (beforeUpdateItems exampleProvider (TypedValue ''fixes'') (picker timedState))
                 = CallsUpdateItems"
    by blast
  with t have "timerOf (timedStep exampleProvider (Pick (TypedValue ''fixes'') (Items [] None) [] 0)
                 timedState)
                 = Some (clock timedState + 500, ''fixes'')"
    by blast
  with c1 have c11: "timerOf (timedStep exampleProvider (Pick (TypedValue ''fixes'') (Items [] None) [] 0)
                 timedState)
                 = Some (1100, ''fixes'')"
    by simp
  from t mem have c6: "startedAt (hd (started timedState))
                  = requestedAt (startedRefresh (hd (started timedState))) + 500"
    and iff: "superseded timedState (hd (started timedState))
               \<longleftrightarrow> isCancellationRequested (debouncer timedState) (token (hd (started timedState)))"
    and silent: "superseded timedState (hd (started timedState)) \<longrightarrow>
       qpItems (quickpick (picker (returnCallback exampleProvider (hd (started timedState)) timedState)))
       = qpItems (quickpick (picker timedState))
   \<and> placeholder (quickpick (picker (returnCallback exampleProvider (hd (started timedState)) timedState)))
       = placeholder (quickpick (picker timedState))"
    by blast+
  from iff c7 have c8: "isCancellationRequested (debouncer timedState) (token (hd (started timedState)))"
    by simp
  from silent c7 have c9: "qpItems (quickpick (picker (returnCallback exampleProvider (hd (started timedState))
                                   timedState)))
       = qpItems (quickpick (picker timedState))"
    and c10: "placeholder (quickpick (picker (returnCallback exampleProvider (hd (started timedState))
                                       timedState)))
       = placeholder (quickpick (picker timedState))"
    by simp_all
  from run seen c6 c7 c8 c9 c10 c11 later lasting show ?thesis
    by blast
qed

end
